theory Spec2Isabelle
  imports Complex_Main "HOL-Library.Sublist"
begin

section \<open>Python values used by the pipeline\<close>

text \<open>
  Python strings are modelled as \<^typ>\<open>string\<close> (a list of characters), Python integers
  as \<^typ>\<open>int\<close>.  A slice \<^verbatim>\<open>xs[i:j]\<close> clamps both indices into \<open>0..len(xs)\<close>, a
  negative index counting from the end, and is empty when the bounds cross.
\<close>

definition py_index :: "nat \<Rightarrow> int \<Rightarrow> nat" where
  "py_index n i = nat (if i < 0 then max (i + int n) 0 else min i (int n))"

definition slice :: "'a list \<Rightarrow> int \<Rightarrow> int \<Rightarrow> 'a list" where
  "slice xs i j = take (py_index (length xs) j - py_index (length xs) i)
                       (drop (py_index (length xs) i) xs)"

definition slice_from :: "'a list \<Rightarrow> int \<Rightarrow> 'a list" where
  "slice_from xs i = drop (py_index (length xs) i) xs"

definition slice_to :: "'a list \<Rightarrow> int \<Rightarrow> 'a list" where
  "slice_to xs j = take (py_index (length xs) j) xs"

definition endswith :: "'a list \<Rightarrow> 'a list \<Rightarrow> bool" where
  "endswith s suf = (length suf \<le> length s \<and> drop (length s - length suf) s = suf)"

section \<open>chunker.py: TextChunker\<close>

record chunk =
  content :: string
  section_name :: "string option"
  chunk_index :: int

record text_chunker =
  max_chunk_size :: int
  overlap :: int

text \<open>
  The \<^verbatim>\<open>while start < text_len\<close> loop of \<^verbatim>\<open>TextChunker.chunk_text\<close>.  One call is one
  iteration: the window is appended, \<open>start\<close> is moved, and the short-remainder branch
  either appends the rest and leaves the loop (\<^verbatim>\<open>break\<close>) or the loop goes on.
  A run that never leaves the loop has the value \<open>None\<close>.
\<close>

partial_function (option) chunk_loop ::
  "text_chunker \<Rightarrow> string \<Rightarrow> string option \<Rightarrow> int \<Rightarrow> int \<Rightarrow> chunk list \<Rightarrow> chunk list option"
where
  "chunk_loop tc text name start idx chunks =
    (if start < int (length text) then
       let end = start + max_chunk_size tc;
           chunks1 = chunks @ [\<lparr>content = slice text start end, section_name = name,
                                chunk_index = idx\<rparr>];
           idx1 = idx + 1;
           start1 = (if max_chunk_size tc - overlap tc \<le> 0 then end
                     else start + (max_chunk_size tc - overlap tc))
       in if int (length text) - start1 < overlap tc \<and> start1 < int (length text) then
            let current_chunk_content = slice_from text start1
            in Some
              (if endswith (content (last chunks1))
                    (slice_to current_chunk_content (overlap tc)) then
                 (if int (length current_chunk_content) > overlap tc then
                    chunks1 @ [\<lparr>content = slice_from text (start1 + overlap tc),
                                section_name = name, chunk_index = idx1\<rparr>]
                  else chunks1)
               else if length current_chunk_content > 0 then
                 chunks1 @ [\<lparr>content = current_chunk_content, section_name = name,
                             chunk_index = idx1\<rparr>]
               else chunks1)
          else chunk_loop tc text name start1 idx1 chunks1
     else Some chunks)"

declare chunk_loop.simps [code]

definition chunk_text :: "text_chunker \<Rightarrow> string \<Rightarrow> string option \<Rightarrow> chunk list option" where
  "chunk_text tc text name = (if text = [] then Some [] else chunk_loop tc text name 0 0 [])"

subsection \<open>The sliding windows of the specification\<close>

text \<open>
  The \<open>k\<close>-th window of the specification, \<^verbatim>\<open>T[k*(max_size-overlap) : k*(max_size-overlap)+max_size]\<close>,
  as the chunk with index \<open>k\<close>.
\<close>

definition window :: "text_chunker \<Rightarrow> string \<Rightarrow> string option \<Rightarrow> nat \<Rightarrow> chunk" where
  "window tc text name k =
     \<lparr>content = slice text (int k * (max_chunk_size tc - overlap tc))
                  (int k * (max_chunk_size tc - overlap tc) + max_chunk_size tc),
      section_name = name, chunk_index = int k\<rparr>"

text \<open>
  The specification's reading: one window for every \<open>k = 0, 1, \<dots>\<close> whose start lies below
  the length of the text.  With a positive step such a \<open>k\<close> is below the length itself.
\<close>

definition sliding_windows :: "text_chunker \<Rightarrow> string \<Rightarrow> string option \<Rightarrow> chunk list" where
  "sliding_windows tc text name =
     map (window tc text name)
       (filter (\<lambda>k. int k * (max_chunk_size tc - overlap tc) < int (length text))
          [0..<length text])"

text \<open>
  What the loop keeps: after the first window, a window is emitted only while its start is
  below the length of the text and at least \<open>overlap\<close> characters remain from it.
\<close>

definition window_kept :: "text_chunker \<Rightarrow> string \<Rightarrow> nat \<Rightarrow> bool" where
  "window_kept tc text k =
     (int k * (max_chunk_size tc - overlap tc) < int (length text) \<and>
      overlap tc \<le> int (length text) - int k * (max_chunk_size tc - overlap tc))"

definition kept_windows :: "text_chunker \<Rightarrow> string \<Rightarrow> string option \<Rightarrow> chunk list" where
  "kept_windows tc text name =
     (if text = [] then []
      else map (window tc text name) (0 # filter (window_kept tc text) [1..<length text]))"

text \<open>
  The non-overlapping spans of a chunk list: the first chunk whole, every later chunk
  without its leading \<open>overlap\<close> characters (\<^verbatim>\<open>c[overlap:]\<close>).
\<close>

definition non_overlapping_spans :: "int \<Rightarrow> chunk list \<Rightarrow> string" where
  "non_overlapping_spans ov cs =
     (case cs of [] \<Rightarrow> []
      | c # rest \<Rightarrow> content c @ concat (map (\<lambda>d. slice_from (content d) ov) rest))"

section \<open>Parsed JSON documents and the Python operations on them\<close>

text \<open>
  A parsed JSON document.  A Python \<^verbatim>\<open>dict\<close> keeps its insertion order and is a list of
  key-value pairs with distinct keys; \<^verbatim>\<open>None\<close> is \<open>JNull\<close>.  JSON numbers are taken to
  be integers.
\<close>

datatype json =
  JNull | JBool bool | JInt int | JStr string | JList "json list" | JDict "(string \<times> json) list"

datatype exn =
  TypeError | AttributeError | KeyError | OSError | ValueError string | LLMError string

text \<open>\<^verbatim>\<open>bool(v)\<close>: the truth value of a JSON value.\<close>

fun truthy :: "json \<Rightarrow> bool" where
  "truthy JNull = False"
| "truthy (JBool b) = b"
| "truthy (JInt i) = (i \<noteq> 0)"
| "truthy (JStr s) = (s \<noteq> [])"
| "truthy (JList xs) = (xs \<noteq> [])"
| "truthy (JDict kvs) = (kvs \<noteq> [])"

text \<open>\<^verbatim>\<open>d.get(k, default)\<close> on a dict.\<close>

definition dict_get :: "(string \<times> json) list \<Rightarrow> string \<Rightarrow> json \<Rightarrow> json" where
  "dict_get kvs k d = (case map_of kvs k of None \<Rightarrow> d | Some v \<Rightarrow> v)"

text \<open>\<^verbatim>\<open>s.strip()\<close>: the characters below 256 for which \<^verbatim>\<open>str.isspace\<close> holds.\<close>

definition py_isspace :: "char \<Rightarrow> bool" where
  "py_isspace c = ((of_char c :: nat) \<in> {9, 10, 11, 12, 13, 28, 29, 30, 31, 32, 133, 160})"

definition strip :: "string \<Rightarrow> string" where
  "strip s = rev (dropWhile py_isspace (rev (dropWhile py_isspace s)))"

text \<open>\<^verbatim>\<open>sep.join(xs)\<close>.\<close>

fun join :: "string \<Rightarrow> string list \<Rightarrow> string" where
  "join sep [] = []"
| "join sep [x] = x"
| "join sep (x # y # ys) = x @ sep @ join sep (y # ys)"

text \<open>\<^verbatim>\<open>str(n)\<close> for an integer: its decimal digits.\<close>

definition digit_char :: "nat \<Rightarrow> char" where
  "digit_char d = char_of (48 + d)"

fun str_nat :: "nat \<Rightarrow> string" where
  "str_nat n = (if n < 10 then [digit_char n] else str_nat (n div 10) @ [digit_char (n mod 10)])"

declare str_nat.simps [simp del]

definition str_int :: "int \<Rightarrow> string" where
  "str_int i = (if i < 0 then CHR ''-'' # str_nat (nat (- i)) else str_nat (nat i))"

text \<open>
  \<^verbatim>\<open>json.dumps(v)\<close> with its default arguments: separators \<^verbatim>\<open>", "\<close> and \<^verbatim>\<open>": "\<close>, every
  character outside \<^verbatim>\<open>' '..'~'\<close> escaped.
\<close>

definition backslash :: char where
  "backslash = CHR 0x5C"

definition dquote :: char where
  "dquote = CHR 0x22"

definition hex_digit :: "nat \<Rightarrow> char" where
  "hex_digit d = (if d < 10 then char_of (48 + d) else char_of (87 + d))"

definition escape_char :: "char \<Rightarrow> string" where
  "escape_char c =
     (if c = dquote then [backslash, dquote]
      else if c = backslash then [backslash, backslash]
      else if c = CHR 0x0A then [backslash, CHR ''n'']
      else if c = CHR 0x0D then [backslash, CHR ''r'']
      else if c = CHR 0x09 then [backslash, CHR ''t'']
      else if c = CHR 0x08 then [backslash, CHR ''b'']
      else if c = CHR 0x0C then [backslash, CHR ''f'']
      else if 32 \<le> (of_char c :: nat) \<and> (of_char c :: nat) \<le> 126 then [c]
      else [backslash, CHR ''u'', CHR ''0'', CHR ''0'',
            hex_digit ((of_char c :: nat) div 16), hex_digit ((of_char c :: nat) mod 16)])"

definition dumps_str :: "string \<Rightarrow> string" where
  "dumps_str s = dquote # concat (map escape_char s) @ [dquote]"

primrec json_dumps :: "json \<Rightarrow> string" where
  "json_dumps JNull = ''null''"
| "json_dumps (JBool b) = (if b then ''true'' else ''false'')"
| "json_dumps (JInt i) = str_int i"
| "json_dumps (JStr s) = dumps_str s"
| "json_dumps (JList xs) = ''['' @ join '', '' (map json_dumps xs) @ '']''"
| "json_dumps (JDict kvs) =
     ''{'' @ join '', '' (map (\<lambda>(k, s). dumps_str k @ '': '' @ s) (map (map_prod id json_dumps) kvs))
      @ ''}''"

text \<open>
  Library functions and collaborators that the model does not look into.  Each is a
  parameter, so that every result below holds for whatever these functions compute.
\<close>

record pylib =
  py_repr :: "json \<Rightarrow> string"  \<comment> \<open>\<^verbatim>\<open>str(v)\<close> of a list or a dict\<close>
  strip_html :: "string \<Rightarrow> string"  \<comment> \<open>\<^verbatim>\<open>chunker.strip_html\<close>: regular expressions and quoted-printable decoding\<close>
  json_dumps_indent :: "json \<Rightarrow> string"  \<comment> \<open>\<^verbatim>\<open>json.dumps(v, indent=2)\<close>\<close>
  str_upper :: "string \<Rightarrow> string"  \<comment> \<open>\<^verbatim>\<open>s.upper()\<close>\<close>
  sanitize_id :: "string \<Rightarrow> string"  \<comment> \<open>\<^verbatim>\<open>re.sub(r'[^\w\-_.]', '_', s)\<close>\<close>
  sha256_hex :: "string \<Rightarrow> string"  \<comment> \<open>\<^verbatim>\<open>hashlib.sha256(s.encode('utf-8')).hexdigest()\<close>\<close>
  relpath_dirname :: "string \<Rightarrow> string \<Rightarrow> string"  \<comment> \<open>\<^verbatim>\<open>os.path.dirname(os.path.relpath(p, start))\<close>\<close>

text \<open>\<^verbatim>\<open>str(v)\<close>.\<close>

definition py_str :: "pylib \<Rightarrow> json \<Rightarrow> string" where
  "py_str lib v =
     (case v of JNull \<Rightarrow> ''None'' | JBool b \<Rightarrow> (if b then ''True'' else ''False'')
      | JInt i \<Rightarrow> str_int i | JStr s \<Rightarrow> s | _ \<Rightarrow> py_repr lib v)"

section \<open>chunker.py: get\_sections\_from\_json\<close>

text \<open>A section is a pair of a name (any JSON value, \<open>JNull\<close> for \<^verbatim>\<open>None\<close>) and its content.\<close>

type_synonym doc_section = "json \<times> string"

text \<open>
  Case 2: the entries of a \<^verbatim>\<open>sections\<close> dict, in its order; a string entry as it is, a list
  entry as its string items joined by newlines, each kept when it has \<open>min_length\<close>
  characters.
\<close>

definition section_of_entry :: "int \<Rightarrow> string \<times> json \<Rightarrow> doc_section list" where
  "section_of_entry min_length e =
     (case e of (sec_name, sec_content) \<Rightarrow>
        (case sec_content of
           JStr s \<Rightarrow> (if int (length s) \<ge> min_length then [(JStr sec_name, s)] else [])
         | JList items \<Rightarrow>
             (let temp_content =
                    join [CHR 0x0A] (concat (map (\<lambda>item. case item of JStr s \<Rightarrow> [s] | _ \<Rightarrow> []) items))
              in if int (length temp_content) \<ge> min_length then [(JStr sec_name, temp_content)]
                 else [])
         | _ \<Rightarrow> []))"

definition sections_of_mapping :: "int \<Rightarrow> (string \<times> json) list \<Rightarrow> doc_section list" where
  "sections_of_mapping min_length entries = concat (map (section_of_entry min_length) entries)"

text \<open>
  Case 3: the root is a list; item number \<open>i\<close> (from 0) is a section when it is a dict
  whose content has \<open>min_length\<close> characters.
\<close>

definition section_of_item :: "int \<Rightarrow> nat \<times> json \<Rightarrow> doc_section list" where
  "section_of_item min_length e =
     (case e of (i, item) \<Rightarrow>
        (case item of
           JDict kvs \<Rightarrow>
             (let title = dict_get kvs ''title''
                            (dict_get kvs ''header'' (JStr (''item_'' @ str_nat (i + 1))));
                  content_str =
                    (case map_of kvs ''content'' of
                       Some (JStr s) \<Rightarrow> s
                     | _ \<Rightarrow> (case map_of kvs ''text'' of
                                Some (JStr s) \<Rightarrow> s
                              | _ \<Rightarrow> json_dumps item))
              in if int (length content_str) \<ge> min_length then [(title, content_str)] else [])
         | _ \<Rightarrow> []))"

definition sections_of_list :: "int \<Rightarrow> json list \<Rightarrow> doc_section list" where
  "sections_of_list min_length items =
     concat (map (section_of_item min_length) (zip [0..<length items] items))"

text \<open>
  Case 4: a dict with no usable \<^verbatim>\<open>content\<close> and no usable \<^verbatim>\<open>sections\<close>.  The result is
  \<open>Inl\<close> for the two early \<^verbatim>\<open>return\<close>s of the title-only dict, and \<open>Inr\<close> of the sections
  appended otherwise.  The \<^verbatim>\<open>elif\<close> that would take the title as content asks for a title
  different from \<^verbatim>\<open>section_title\<close>, which a dict with a title never has.
\<close>

definition line_of_field :: "pylib \<Rightarrow> string \<times> json \<Rightarrow> string" where
  "line_of_field lib e =
     (case e of (key, v) \<Rightarrow>
        key @ '': '' @
        (case v of JStr s \<Rightarrow> s | JList _ \<Rightarrow> json_dumps v | JDict _ \<Rightarrow> json_dumps v
         | _ \<Rightarrow> py_str lib v) @ [CHR 0x0A])"

definition sections_of_flat :: "pylib \<Rightarrow> int \<Rightarrow> (string \<times> json) list \<Rightarrow> doc_section list + doc_section list"
where
  "sections_of_flat lib min_length kvs =
     (let section_title = dict_get kvs ''title'' (JStr ''document_content'');
          temp_data_for_content =
            filter (\<lambda>(k, v). \<not> (k = ''title'' \<and> dict_get kvs ''title'' JNull = section_title)) kvs
      in if temp_data_for_content = [] \<and> dict_get kvs ''title'' JNull = section_title then
           (case section_title of
              JStr t \<Rightarrow> (if int (length t) \<ge> min_length then Inl [(JNull, t)] else Inl [])
            | _ \<Rightarrow> Inl [])
         else
           (let combined_content = concat (map (line_of_field lib) temp_data_for_content);
                stripped_content = strip combined_content
            in if stripped_content \<noteq> [] \<and> int (length stripped_content) \<ge> min_length then
                 Inr [(section_title, stripped_content)]
               else if stripped_content = [] \<and> truthy (dict_get kvs ''title'' JNull)
                       \<and> dict_get kvs ''title'' JNull \<noteq> section_title then
                 (case dict_get kvs ''title'' JNull of
                    JStr t \<Rightarrow> (if int (length t) \<ge> min_length then Inr [(JNull, t)] else Inr [])
                  | _ \<Rightarrow> Inr [])
               else Inr []))"

text \<open>Case 5: the whole dict, stringified.\<close>

definition sections_of_whole :: "int \<Rightarrow> (string \<times> json) list \<Rightarrow> doc_section list" where
  "sections_of_whole min_length kvs =
     (let content_str = json_dumps (JDict kvs)
      in if int (length content_str) \<ge> min_length then
           [(dict_get kvs ''title'' (JStr ''full_document_content''), content_str)]
         else [])"

text \<open>
  The closing block for a dict that has a \<^verbatim>\<open>content\<close> key: it returns the cleaned content
  under the title, a placeholder under the title, or the sections found so far.
\<close>

definition sections_of_news :: "pylib \<Rightarrow> (string \<times> json) list \<Rightarrow> doc_section list \<Rightarrow> doc_section list" where
  "sections_of_news lib kvs sections =
     (let title = dict_get kvs ''title'' (JStr ''News Article'');
          cleaned =
            (case dict_get kvs ''content'' (JStr []) of
               JStr s \<Rightarrow> strip_html lib s
             | JNull \<Rightarrow> []
             | v \<Rightarrow> strip_html lib (py_str lib v))
      in if truthy title \<and> strip cleaned \<noteq> [] then [(JStr (py_str lib title), cleaned)]
         else if truthy title then
           [(JStr (py_str lib title), ''[Content not available or empty after cleaning]'')]
         else sections)"

text \<open>
  \<^verbatim>\<open>get_sections_from_json(data, min_length=min_length)\<close>, by the type of the root.  On a
  list or a string the tests \<^verbatim>\<open>"content" in data\<close> and \<^verbatim>\<open>"sections" in data\<close> are a membership
  and a substring test, and the subscript that follows a positive answer raises
  \<^verbatim>\<open>TypeError\<close>; on a number, a boolean or \<^verbatim>\<open>None\<close> the first test raises it.
\<close>

fun get_sections_from_json :: "pylib \<Rightarrow> json \<Rightarrow> int \<Rightarrow> exn + doc_section list" where
  "get_sections_from_json lib (JDict kvs) min_length =
     (case map_of kvs ''content'' of
        Some (JStr c) \<Rightarrow>
          Inr (if int (length c) \<ge> min_length then [(dict_get kvs ''title'' JNull, c)] else [])
      | _ \<Rightarrow>
          (let sections = (case map_of kvs ''sections'' of
                             Some (JDict entries) \<Rightarrow> sections_of_mapping min_length entries
                           | _ \<Rightarrow> [])
           in if sections \<noteq> [] then Inr sections
              else (case sections_of_flat lib min_length kvs of
                      Inl returned \<Rightarrow> Inr returned
                    | Inr sections4 \<Rightarrow>
                        if sections4 \<noteq> [] then Inr sections4
                        else (let sections5 = sections_of_whole min_length kvs
                              in if map_of kvs ''content'' \<noteq> None then
                                   Inr (sections_of_news lib kvs sections5)
                                 else Inr sections5))))"
| "get_sections_from_json lib (JList items) min_length =
     (if JStr ''content'' \<in> set items \<or> JStr ''sections'' \<in> set items then Inl TypeError
      else Inr (sections_of_list min_length items))"
| "get_sections_from_json lib (JStr s) min_length =
     (if sublist ''content'' s \<or> sublist ''sections'' s then Inl TypeError else Inr [])"
| "get_sections_from_json lib v min_length = Inl TypeError"

section \<open>The world outside the program\<close>

text \<open>
  What the run changes: the directories that exist, the files with their contents (the
  latest write of a path first), the number of calls made to the language model, the delays slept between retries, and the warnings and errors
  logged (debug and info messages are left out).
\<close>

datatype log_entry = Warning string | Error string

record world =
  dirs :: "string set"
  files :: "(string \<times> string) list"
  llm_calls :: nat
  sleeps :: "int list"
  logged :: "log_entry list"

text \<open>
  What the world answers.  The \<open>n\<close>-th call to the language model returns a response
  (\<open>Inr\<close>) or raises (\<open>Inl\<close>, with the text of the exception); reading and parsing a
  document gives its JSON value or fails; creating a directory, opening a file for
  writing and reading a file may fail.  The chunker's \<^verbatim>\<open>chunk_text(text, chunk_size=,
  chunk_overlap=)\<close> and the metadata generator are collaborators handed to the orchestrator.
\<close>

datatype read_result = Decode_error string | Read_error string | Parsed json

record env =
  llm_run :: "nat \<Rightarrow> string list \<times> string \<Rightarrow> (string \<rightharpoonup> json) \<Rightarrow> string + string"
  read_json :: "string \<Rightarrow> read_result"
  makedirs_fails :: "string \<Rightarrow> bool"
  write_fails :: "string \<Rightarrow> bool"
  read_fails :: "string \<Rightarrow> bool"
  today :: string
  chunker_chunk_text :: "json \<Rightarrow> int \<Rightarrow> int \<Rightarrow> exn + string list"
  generate_metadata :: "(string \<times> json) list \<Rightarrow> exn + json"

definition path_exists :: "world \<Rightarrow> string \<Rightarrow> bool" where
  "path_exists w p = (p \<in> dirs w \<or> map_of (files w) p \<noteq> None)"

text \<open>\<^verbatim>\<open>os.path.join(a, b)\<close>, \<^verbatim>\<open>os.path.basename\<close>, \<^verbatim>\<open>os.path.dirname\<close> and the root of
  \<^verbatim>\<open>os.path.splitext\<close>, on POSIX paths.\<close>

definition path_join :: "string \<Rightarrow> string \<Rightarrow> string" where
  "path_join a b =
     (if b \<noteq> [] \<and> hd b = CHR ''/'' then b
      else if a = [] \<or> last a = CHR ''/'' then a @ b
      else a @ ''/'' @ b)"

definition basename :: "string \<Rightarrow> string" where
  "basename p = rev (takeWhile (\<lambda>c. c \<noteq> CHR ''/'') (rev p))"

definition dirname :: "string \<Rightarrow> string" where
  "dirname p =
     (let head = rev (dropWhile (\<lambda>c. c \<noteq> CHR ''/'') (rev p))
      in if head \<noteq> [] \<and> head \<noteq> replicate (length head) (CHR ''/'')
         then rev (dropWhile (\<lambda>c. c = CHR ''/'') (rev head)) else head)"

definition splitext_root :: "string \<Rightarrow> string" where
  "splitext_root p =
     (let b = basename p;
          ext = rev (takeWhile (\<lambda>c. c \<noteq> CHR ''.'') (rev b));
          stem = take (length b - length ext - 1) b
      in if CHR ''.'' \<in> set b \<and> (\<exists>c \<in> set stem. c \<noteq> CHR ''.'')
         then take (length p - length ext - 1) p else p)"

text \<open>\<^verbatim>\<open>s.split(c)\<close> for a one-character separator.\<close>

fun split_on :: "char \<Rightarrow> string \<Rightarrow> string list" where
  "split_on c [] = [[]]"
| "split_on c (x # xs) =
     (if x = c then [] # split_on c xs
      else (case split_on c xs of [] \<Rightarrow> [[x]] | y # ys \<Rightarrow> (x # y) # ys))"

section \<open>cache.py: CacheManager\<close>

record cache_manager =
  cache_dir :: string
  enabled :: bool

text \<open>
  \<^verbatim>\<open>CacheManager(cache_dir, enabled)\<close>: the directory is created when caching is enabled and
  the path does not exist; when the creation fails, caching is switched off.  A creation
  that fails is taken to leave the file system as it was (\<^verbatim>\<open>os.makedirs\<close> can leave parent
  directories behind).
\<close>

definition cache_manager_init :: "env \<Rightarrow> string \<Rightarrow> bool \<Rightarrow> world \<Rightarrow> cache_manager \<times> world" where
  "cache_manager_init e dir on w =
     (if on \<and> \<not> path_exists w dir then
        (if makedirs_fails e dir then
           (\<lparr>cache_dir = dir, enabled = False\<rparr>,
            w\<lparr>logged := logged w @ [Error (''Failed to create cache directory '' @ dir)]\<rparr>)
         else (\<lparr>cache_dir = dir, enabled = True\<rparr>, w\<lparr>dirs := insert dir (dirs w)\<rparr>))
      else (\<lparr>cache_dir = dir, enabled = on\<rparr>, w))"

definition hash_content :: "pylib \<Rightarrow> string \<Rightarrow> string" where
  "hash_content lib s = sha256_hex lib s"

definition cache_file_path :: "cache_manager \<Rightarrow> string \<Rightarrow> string" where
  "cache_file_path cm content_hash = path_join (cache_dir cm) (content_hash @ ''.cache'')"

definition is_cached :: "cache_manager \<Rightarrow> world \<Rightarrow> string \<Rightarrow> bool" where
  "is_cached cm w content_hash =
     (if \<not> enabled cm then False else path_exists w (cache_file_path cm content_hash))"

text \<open>
  \<^verbatim>\<open>mark_cached(content_hash, metadata)\<close>: the cache file is written, empty or with the
  metadata as JSON; an \<^verbatim>\<open>IOError\<close> on opening it is logged and nothing is written.
\<close>

definition mark_cached :: "env \<Rightarrow> cache_manager \<Rightarrow> string \<Rightarrow> json \<Rightarrow> world \<Rightarrow> world" where
  "mark_cached e cm content_hash metadata w =
     (if \<not> enabled cm then w
      else if write_fails e (cache_file_path cm content_hash) then
        w\<lparr>logged := logged w
             @ [Error (''Failed to write cache file '' @ cache_file_path cm content_hash)]\<rparr>
      else w\<lparr>files := (cache_file_path cm content_hash,
                         if truthy metadata then json_dumps metadata else []) # files w\<rparr>)"

section \<open>summarization.py: LLMSummarizer\<close>

text \<open>
  A prompt template is its list of input variables and its text.  The prompt set maps a
  filing type to a dict from modes to templates; a template file that could not be read
  leaves \<open>None\<close> under its mode.
\<close>

type_synonym prompt_template = "string list \<times> string"

record llm_summarizer =
  prompts :: "(string \<times> (string \<times> prompt_template option) list) list"
  model_name :: string
  max_retries :: int

text \<open>
  \<^verbatim>\<open>int(x)\<close> on a float truncates towards zero.  Python's floats are modelled by the real
  numbers: the quotients and products below are exact.
\<close>

definition py_int :: "real \<Rightarrow> int" where
  "py_int x = (if x < 0 then \<lceil>x\<rceil> else \<lfloor>x\<rfloor>)"

definition estimate_tokens :: "string \<Rightarrow> int" where
  "estimate_tokens s = (if s = [] then 0 else py_int (real (length s) / 3.5))"

definition missing_template :: "string \<Rightarrow> string \<Rightarrow> exn" where
  "missing_template mode filing_type =
     ValueError (''Missing prompt template for mode '' @ [CHR 0x27] @ mode @ [CHR 0x27]
                 @ '' (filing_type: '' @ [CHR 0x27] @ filing_type @ [CHR 0x27] @ '')'')"

definition lookup_template ::
  "llm_summarizer \<Rightarrow> string \<Rightarrow> string \<Rightarrow> prompt_template option option" where
  "lookup_template s filing_type mode =
     (case map_of (prompts s) filing_type of None \<Rightarrow> None | Some modes \<Rightarrow> map_of modes mode)"

definition get_prompt_template ::
  "llm_summarizer \<Rightarrow> string \<Rightarrow> string \<Rightarrow> (exn + prompt_template) \<times> log_entry list" where
  "get_prompt_template s mode filing_type =
     (case lookup_template s filing_type mode of
        Some (Some pt_obj) \<Rightarrow> (Inr pt_obj, [])
      | found \<Rightarrow>
          (let fallback = (if found = None then []
                           else [Warning (''Template object for '' @ filing_type @ ''-'' @ mode
                                   @ '' is None or evaluates to False. Falling back to default.'')])
           in case lookup_template s ''default'' mode of
                Some (Some default_template) \<Rightarrow> (Inr default_template, fallback)
              | _ \<Rightarrow> (Inl (missing_template mode filing_type),
                       fallback @ [Error (''No suitable prompt template found for mode ''
                                     @ [CHR 0x27] @ mode @ [CHR 0x27])])))"

text \<open>
  The keyword arguments of \<^verbatim>\<open>summarize\<close>, a dict: \<^verbatim>\<open>content\<close> is renamed to \<^verbatim>\<open>text\<close> when the
  template asks for \<^verbatim>\<open>text\<close>, and every input variable that is still missing gets a
  placeholder, after a warning that names the mode, the filing type and the set of the
  missing variables.  Python iterates over that set in an order of its own; here it is the
  order of the input variables.
\<close>

definition set_repr :: "string list \<Rightarrow> string" where
  "set_repr vs = ''{'' @ join '', '' (map (\<lambda>v. [CHR 0x27] @ v @ [CHR 0x27]) vs) @ ''}''"

definition dict_set :: "(string \<times> json) list \<Rightarrow> string \<Rightarrow> json \<Rightarrow> (string \<times> json) list" where
  "dict_set kvs k v =
     (if k \<in> set (map fst kvs) then map (\<lambda>(k', v'). if k' = k then (k', v) else (k', v')) kvs
      else kvs @ [(k, v)])"

definition dict_pop :: "(string \<times> json) list \<Rightarrow> string \<Rightarrow> (string \<times> json) list" where
  "dict_pop kvs k = filter (\<lambda>(k', v'). k' \<noteq> k) kvs"

definition prepare_kwargs ::
  "string \<Rightarrow> string \<Rightarrow> prompt_template \<Rightarrow> (string \<times> json) list
     \<Rightarrow> (string \<times> json) list \<times> log_entry list" where
  "prepare_kwargs mode filing_type pt kwargs =
     (let kwargs1 = (if ''content'' \<in> set (map fst kwargs) \<and> ''text'' \<in> set (fst pt)
                     then dict_set (dict_pop kwargs ''content'') ''text''
                            (dict_get kwargs ''content'' JNull)
                     else kwargs);
          missing = filter (\<lambda>v. v \<notin> set (map fst kwargs1)) (remdups (fst pt))
      in (foldl (\<lambda>kw v. dict_set kw v (JStr ''[Information not provided]'')) kwargs1 missing,
          if missing = [] then []
          else [Warning (''Missing input variables for prompt mode '' @ [CHR 0x27] @ mode
                         @ [CHR 0x27] @ '', filing_type '' @ [CHR 0x27] @ filing_type
                         @ [CHR 0x27] @ '': '' @ set_repr missing
                         @ ''. Prompt may fail or be incomplete.'')]))"

text \<open>
  One attempt: the length of the content is logged first, which raises \<^verbatim>\<open>TypeError\<close> for a
  value without a length, and then the chain is run.  The result is the response, or the
  text of the exception, and whether the language model was called.
\<close>

definition no_len_error :: "json \<Rightarrow> string" where
  "no_len_error v =
     ''object of type '' @ [CHR 0x27]
       @ (case v of JNull \<Rightarrow> ''NoneType'' | JBool b \<Rightarrow> ''bool'' | JInt i \<Rightarrow> ''int''
          | JStr t \<Rightarrow> ''str'' | JList xs \<Rightarrow> ''list'' | JDict kvs \<Rightarrow> ''dict'')
       @ [CHR 0x27] @ '' has no len()''"

definition has_len :: "json \<Rightarrow> bool" where
  "has_len v = (case v of JNull \<Rightarrow> False | JBool b \<Rightarrow> False | JInt i \<Rightarrow> False | _ \<Rightarrow> True)"

definition content_to_log :: "(string \<times> json) list \<Rightarrow> json" where
  "content_to_log kwargs = dict_get kwargs ''content'' (dict_get kwargs ''text'' (JStr []))"

definition attempt ::
  "env \<Rightarrow> prompt_template \<Rightarrow> (string \<times> json) list \<Rightarrow> world \<Rightarrow> (string + string) \<times> world" where
  "attempt e pt kwargs w =
     (if has_len (content_to_log kwargs) then
        (llm_run e (llm_calls w) pt (map_of kwargs), w\<lparr>llm_calls := llm_calls w + 1\<rparr>)
      else (Inl (no_len_error (content_to_log kwargs)), w))"

text \<open>
  The retry loop of \<^verbatim>\<open>summarize\<close>, from the current value of \<^verbatim>\<open>retries\<close>: a response ends it,
  a failure is logged, and after the last failure the error string is returned; before
  every other retry the loop sleeps \<^verbatim>\<open>2 ** retries\<close> seconds.
\<close>

function retry_loop ::
  "env \<Rightarrow> llm_summarizer \<Rightarrow> prompt_template \<Rightarrow> (string \<times> json) list \<Rightarrow> int \<Rightarrow> world
     \<Rightarrow> string \<times> world" where
  "retry_loop e s pt kwargs retries w =
     (if retries \<le> max_retries s then
        (case attempt e pt kwargs w of
           (Inr response, w1) \<Rightarrow> (strip response, w1)
         | (Inl err, w1) \<Rightarrow>
             (let w2 = w1\<lparr>logged := logged w1
                          @ [Error (''LLM API call failed (attempt '' @ str_int (retries + 1)
                                    @ ''): '' @ err)]\<rparr>;
                  retries1 = retries + 1
              in if retries1 > max_retries s then
                   (''Error: Failed to generate summary after '' @ str_int (max_retries s + 1)
                      @ '' attempts. Last error: '' @ err,
                    w2\<lparr>logged := logged w2
                          @ [Error ''Max retries reached. Failed to get summary.'']\<rparr>)
                 else retry_loop e s pt kwargs retries1
                        (w2\<lparr>sleeps := sleeps w2 @ [2 ^ nat retries1]\<rparr>)))
      else ([], w))"
  by pat_completeness auto
termination
  by (relation "measure (\<lambda>(e, s, pt, kwargs, retries, w). nat (max_retries s + 1 - retries))") auto

declare retry_loop.simps [simp del]

text \<open>The log entry of the failed attempt number \<open>k\<close> with the exception text \<open>err\<close>.\<close>

definition failure_entry :: "nat \<times> string \<Rightarrow> log_entry" where
  "failure_entry p =
     Error (''LLM API call failed (attempt '' @ str_int (int (fst p)) @ ''): '' @ snd p)"

text \<open>
  \<^verbatim>\<open>summarize(mode, filing_type, **kwargs)\<close>.  A missing template is the \<^verbatim>\<open>ValueError\<close> of
  \<^verbatim>\<open>get_prompt_template\<close>, which \<^verbatim>\<open>summarize\<close> does not catch; the test
  \<^verbatim>\<open>if not prompt_template\<close> that follows never fires, a template object being true.
\<close>

definition summarize ::
  "env \<Rightarrow> llm_summarizer \<Rightarrow> string \<Rightarrow> string \<Rightarrow> (string \<times> json) list \<Rightarrow> world
     \<Rightarrow> (exn + string) \<times> world" where
  "summarize e s mode filing_type kwargs w =
     (case get_prompt_template s mode filing_type of
        (Inl err, msgs) \<Rightarrow> (Inl err, w\<lparr>logged := logged w @ msgs\<rparr>)
      | (Inr pt, msgs) \<Rightarrow>
          (case prepare_kwargs mode filing_type pt kwargs of
             (kwargs1, msgs1) \<Rightarrow>
               (case retry_loop e s pt kwargs1 0 (w\<lparr>logged := logged w @ msgs @ msgs1\<rparr>) of
                  (summary_text, w1) \<Rightarrow> (Inr summary_text, w1))))"

section \<open>writer.py: OutputWriter\<close>

text \<open>
  \<^verbatim>\<open>write_summary\<close> and \<^verbatim>\<open>write_metadata\<close> create the directory of the path and write the
  file; every exception is caught and logged.  \<^verbatim>\<open>os.makedirs('')\<close> raises.
\<close>

definition write_file :: "env \<Rightarrow> string \<Rightarrow> string \<Rightarrow> string \<Rightarrow> world \<Rightarrow> world" where
  "write_file e what body path w =
     (if dirname path = [] \<or> makedirs_fails e (dirname path) then
        w\<lparr>logged := logged w @ [Error (''Failed to write '' @ what @ '' to '' @ path)]\<rparr>
      else if write_fails e path then
        w\<lparr>dirs := insert (dirname path) (dirs w),
          logged := logged w @ [Error (''Failed to write '' @ what @ '' to '' @ path)]\<rparr>
      else w\<lparr>dirs := insert (dirname path) (dirs w), files := (path, body) # files w\<rparr>)"

definition write_summary :: "env \<Rightarrow> string \<Rightarrow> string \<Rightarrow> world \<Rightarrow> world" where
  "write_summary e summary_text output_path_md w = write_file e ''summary'' summary_text output_path_md w"

definition write_metadata :: "env \<Rightarrow> pylib \<Rightarrow> json \<Rightarrow> string \<Rightarrow> world \<Rightarrow> world" where
  "write_metadata e lib meta output_path_json w =
     write_file e ''metadata'' (json_dumps_indent lib meta) output_path_json w"

section \<open>orchestrator.py: run\_summarization\<close>

record run_config =
  cfg_input_dir :: string
  cfg_output_dir :: string
  cfg_cache :: cache_manager
  cfg_summarizer :: llm_summarizer
  cfg_theme :: "string option"

text \<open>What the loop body computes for a file before it looks at the mode.\<close>

record file_ctx =
  ctx_filepath :: string
  ctx_data :: json
  ctx_is_news :: bool
  ctx_filing_type :: string
  ctx_base_name :: string
  ctx_base_name_ext :: string
  ctx_out_dir :: string
  ctx_rel_dir :: string

definition is_news_path :: "string \<Rightarrow> bool" where
  "is_news_path filepath =
     (sublist ''/news/'' filepath \<or> sublist ([backslash] @ ''news'' @ [backslash]) filepath)"

text \<open>
  The filing type of a filing: the part of the file name before the first underscore when
  it starts like a form name (\<^verbatim>\<open>^[A-Z0-9\-]+\<close>) and has fewer than 10 characters, else the
  \<^verbatim>\<open>form_type\<close> or \<^verbatim>\<open>type\<close> field of the document, else \<^verbatim>\<open>default\<close>.
\<close>

definition is_form_char :: "char \<Rightarrow> bool" where
  "is_form_char c =
     ((65 \<le> (of_char c :: nat) \<and> (of_char c :: nat) \<le> 90)
      \<or> (48 \<le> (of_char c :: nat) \<and> (of_char c :: nat) \<le> 57) \<or> c = CHR ''-'')"

definition filename_filing_type :: "string \<Rightarrow> string" where
  "filename_filing_type base_name_ext =
     (let fn_parts = split_on (CHR ''_'') base_name_ext
      in if length fn_parts > 1 \<and> hd fn_parts \<noteq> [] \<and> is_form_char (hd (hd fn_parts))
            \<and> length (hd fn_parts) < 10
         then hd fn_parts else ''default'')"

definition effective_filing_type :: "pylib \<Rightarrow> bool \<Rightarrow> string \<Rightarrow> json \<Rightarrow> string" where
  "effective_filing_type lib is_news_article base_name_ext data =
     (if is_news_article then ''news''
      else (let from_name = filename_filing_type base_name_ext
            in if from_name = ''default'' then
                 (case data of
                    JDict kvs \<Rightarrow>
                      (case dict_get kvs ''form_type'' (dict_get kvs ''type'' JNull) of
                         JStr t \<Rightarrow> (if t \<noteq> [] \<and> length t < 15 then str_upper lib t else from_name)
                       | _ \<Rightarrow> from_name)
                  | _ \<Rightarrow> from_name)
               else from_name))"

text \<open>\<^verbatim>\<open>chunker.get_full_text(data)\<close>.\<close>

definition get_full_text :: "pylib \<Rightarrow> json \<Rightarrow> string" where
  "get_full_text lib data = (case data of JStr s \<Rightarrow> s | _ \<Rightarrow> json_dumps_indent lib data)"

text \<open>
  The document title handed to the prompts; \<^verbatim>\<open>data.get\<close> raises \<^verbatim>\<open>AttributeError\<close> when the
  document is not a dict.
\<close>

definition document_title :: "pylib \<Rightarrow> json \<Rightarrow> string \<Rightarrow> exn + json" where
  "document_title lib data filing_type =
     (case data of
        JDict kvs \<Rightarrow>
          (let company_name = dict_get kvs ''company_name'' (JStr ''Unknown Company'')
           in Inr (if filing_type \<noteq> ''default''
                   then JStr (py_str lib company_name @ '' - '' @ filing_type) else company_name))
      | _ \<Rightarrow> Inl AttributeError)"

subsection \<open>Dynamic chunking of an oversized news article\<close>

text \<open>
  \<^verbatim>\<open>estimate_tokens\<close> on whatever the \<^verbatim>\<open>content\<close> field holds: a value that is false counts
  0 tokens, a value with a length its length over 3.5, any other value has no \<^verbatim>\<open>len\<close>.
\<close>

definition json_len :: "json \<Rightarrow> nat" where
  "json_len v = (case v of JStr s \<Rightarrow> length s | JList xs \<Rightarrow> length xs | JDict kvs \<Rightarrow> length kvs
                 | _ \<Rightarrow> 0)"

definition estimate_tokens_of :: "json \<Rightarrow> exn + int" where
  "estimate_tokens_of v =
     (case v of
        JStr s \<Rightarrow> Inr (estimate_tokens s)
      | JList xs \<Rightarrow> Inr (if xs = [] then 0 else py_int (real (length xs) / 3.5))
      | JDict kvs \<Rightarrow> Inr (if kvs = [] then 0 else py_int (real (length kvs) / 3.5))
      | _ \<Rightarrow> (if truthy v then Inl TypeError else Inr 0))"

definition content_token_limit :: int where
  "content_token_limit = 190000"

definition safe_tokens_per_chunk :: int where
  "safe_tokens_per_chunk = 50000"

definition num_chunks_ideal :: "int \<Rightarrow> int" where
  "num_chunks_ideal estimated_tokens =
     max 2 \<lceil>real_of_int estimated_tokens / real_of_int safe_tokens_per_chunk\<rceil>"

definition char_chunk_size_for_splitter :: "int \<Rightarrow> nat \<Rightarrow> int" where
  "char_chunk_size_for_splitter estimated_tokens total_chars =
     max 20000 \<lfloor>real total_chars / real_of_int (num_chunks_ideal estimated_tokens)\<rfloor>"

definition char_chunk_overlap :: "int \<Rightarrow> nat \<Rightarrow> int" where
  "char_chunk_overlap estimated_tokens total_chars =
     max 1000 (py_int (real_of_int (char_chunk_size_for_splitter estimated_tokens total_chars) * 0.1))"

definition chunk_separator :: string where
  "chunk_separator = [backslash, CHR ''n'', backslash, CHR ''n''] @ ''---''
                     @ [backslash, CHR ''n'', backslash, CHR ''n'']"

text \<open>The loop over the chunks: each chunk that is not blank is summarised on its own.\<close>

fun summarize_chunks ::
  "env \<Rightarrow> llm_summarizer \<Rightarrow> string \<Rightarrow> (string \<times> json) list \<Rightarrow> nat \<Rightarrow> string list \<Rightarrow> string list
     \<Rightarrow> world \<Rightarrow> (exn + string list) \<times> world" where
  "summarize_chunks e s filing_type kwargs i [] chunk_summaries w = (Inr chunk_summaries, w)"
| "summarize_chunks e s filing_type kwargs i (c # cs) chunk_summaries w =
     (if strip c = [] then summarize_chunks e s filing_type kwargs (i + 1) cs chunk_summaries w
      else (case summarize e s ''file'' filing_type (dict_set kwargs ''content'' (JStr c)) w of
              (Inl err, w1) \<Rightarrow> (Inl err, w1)
            | (Inr chunk_summary, w1) \<Rightarrow>
                (if \<not> prefix ''Error:'' chunk_summary then
                   summarize_chunks e s filing_type kwargs (i + 1) cs
                     (chunk_summaries @ [chunk_summary]) w1
                 else
                   summarize_chunks e s filing_type kwargs (i + 1) cs
                     (chunk_summaries @ [''[Error summarizing chunk '' @ str_nat (i + 1) @ '': ''
                                          @ chunk_summary @ '']''])
                     (w1\<lparr>logged := logged w1
                            @ [Error (''Error summarizing chunk '' @ str_nat (i + 1))]\<rparr>))))"

text \<open>
  The text of a news article that goes to the cache gate: the content itself, or, when
  its estimate exceeds the limit, the summaries of its chunks joined by the separator.
\<close>

definition news_text_to_summarize ::
  "env \<Rightarrow> llm_summarizer \<Rightarrow> file_ctx \<Rightarrow> (string \<times> json) list \<Rightarrow> json \<Rightarrow> world
     \<Rightarrow> (exn + json \<times> string) \<times> world" where
  "news_text_to_summarize e s ctx kwargs body w =
     (case estimate_tokens_of body of
        Inl err \<Rightarrow> (Inl err, w)
      | Inr estimated_tokens \<Rightarrow>
          if estimated_tokens > content_token_limit then
            (let w1 = w\<lparr>logged := logged w
                          @ [Warning (''News article '' @ ctx_filepath ctx
                                      @ '' exceeds the content limit. Dynamic chunking...'')]\<rparr>
             in case chunker_chunk_text e body
                       (char_chunk_size_for_splitter estimated_tokens (json_len body))
                       (char_chunk_overlap estimated_tokens (json_len body)) of
                  Inl err \<Rightarrow> (Inl err, w1)
                | Inr news_chunks \<Rightarrow>
                    (let failed = (news_chunks = []);
                         text1 = (if failed
                                  then JStr ''Error: Chunking failed to produce any text segments.''
                                  else body);
                         w2 = (if failed
                               then w1\<lparr>logged := logged w1
                                      @ [Error (''Chunking resulted in no news_chunks for ''
                                                @ ctx_filepath ctx)]\<rparr>
                               else w1)
                     in case summarize_chunks e s (ctx_filing_type ctx) kwargs 0 news_chunks [] w2 of
                          (Inl err, w3) \<Rightarrow> (Inl err, w3)
                        | (Inr chunk_summaries, w3) \<Rightarrow>
                            let method = (if failed then ''error_chunking_failed''
                                          else ''sequential_summaries_dynamic_char_chunks'')
                            in if chunk_summaries \<noteq> [] then
                                 (Inr (JStr (join chunk_separator chunk_summaries), method), w3)
                               else (case text1 of
                                       JStr t \<Rightarrow>
                                         if \<not> prefix ''Error:'' t then
                                           (Inr (JStr ''Error: Failed to generate summary from chunks (no valid chunk summaries).'', method),
                                            w3\<lparr>logged := logged w3
                                                  @ [Error (''No valid chunk summaries generated for ''
                                                            @ ctx_filepath ctx)]\<rparr>)
                                         else (Inr (text1, method), w3)
                                     | _ \<Rightarrow> (Inl AttributeError, w3))))
          else (Inr (body, ''none''), w))"

subsection \<open>The tail shared by the four modes\<close>

text \<open>
  After the cache gate: the summarizer is called, the key is marked, the metadata are
  generated, and the two files are written.  An exception of the summarizer, of the
  computation of the output paths or of the metadata generator is not caught.
\<close>

definition summarize_and_write ::
  "env \<Rightarrow> pylib \<Rightarrow> run_config \<Rightarrow> string \<Rightarrow> string \<Rightarrow> (string \<times> json) list \<Rightarrow> string
     \<Rightarrow> exn + string \<times> string \<Rightarrow> (string \<times> json) list \<Rightarrow> world \<Rightarrow> exn + world" where
  "summarize_and_write e lib cfg mode filing_type kwargs content_hash paths meta_args w =
     (case summarize e (cfg_summarizer cfg) mode filing_type kwargs w of
        (Inl err, w1) \<Rightarrow> Inl err
      | (Inr summary_text, w1) \<Rightarrow>
          (let w2 = mark_cached e (cfg_cache cfg) content_hash JNull w1
           in case paths of
                Inl err \<Rightarrow> Inl err
              | Inr (output_path_md, output_path_json) \<Rightarrow>
                  (case generate_metadata e
                          ((''summary_text'', JStr summary_text) # meta_args
                           @ [(''llm_model_used'', JStr (model_name (cfg_summarizer cfg)))]) of
                     Inl err \<Rightarrow> Inl err
                   | Inr meta \<Rightarrow>
                       Inr (write_metadata e lib meta output_path_json
                              (write_summary e summary_text output_path_md w2)))))"

subsection \<open>File mode (and news mode on a news article)\<close>

definition file_mode_paths :: "pylib \<Rightarrow> file_ctx \<Rightarrow> exn + string \<times> string" where
  "file_mode_paths lib ctx =
     (let base = (if ctx_is_news ctx then
                    (case ctx_data ctx of
                       JDict kvs \<Rightarrow>
                         (case dict_get kvs ''id'' (JStr (ctx_base_name ctx)) of
                            JStr i \<Rightarrow> Inr (sanitize_id lib i)
                          | _ \<Rightarrow> Inl TypeError)
                     | _ \<Rightarrow> Inl AttributeError)
                  else Inr (ctx_base_name ctx))
      in case base of
           Inl err \<Rightarrow> Inl err
         | Inr output_file_base \<Rightarrow>
             Inr (path_join (ctx_out_dir ctx) (output_file_base @ ''_summary.md''),
                  path_join (ctx_out_dir ctx) (output_file_base @ ''_meta.json'')))"

definition file_mode_gate ::
  "env \<Rightarrow> pylib \<Rightarrow> run_config \<Rightarrow> file_ctx \<Rightarrow> (string \<times> json) list \<Rightarrow> json \<Rightarrow> string \<Rightarrow> world
     \<Rightarrow> exn + world" where
  "file_mode_gate e lib cfg ctx kwargs text_to_summarize method w =
     (case text_to_summarize of
        JStr t \<Rightarrow>
          if strip t = [] then
            Inr (w\<lparr>logged := logged w
                      @ [Warning (''No content to summarize for '' @ ctx_filepath ctx
                                  @ ''. Skipping.'')]\<rparr>)
          else
            (let content_hash = hash_content lib (t @ json_dumps (JDict kwargs))
             in if is_cached (cfg_cache cfg) w content_hash then Inr w
                else summarize_and_write e lib cfg ''file'' (ctx_filing_type ctx)
                       (dict_set kwargs ''content'' (JStr t)) content_hash
                       (file_mode_paths lib ctx)
                       [(''source_path'', JStr (ctx_filepath ctx)), (''mode'', JStr ''file''),
                        (''is_news'', JBool (ctx_is_news ctx)),
                        (''news_data'', if ctx_is_news ctx then ctx_data ctx else JNull),
                        (''doc_type'',
                           if ctx_is_news ctx
                           then (case ctx_data ctx of JDict kvs \<Rightarrow> dict_get kvs ''article_type'' JNull
                                 | _ \<Rightarrow> JNull)
                           else JStr (ctx_filing_type ctx)),
                        (''chunking_method'', JStr method)]
                       w)
      | _ \<Rightarrow> Inl AttributeError)"

definition process_file_mode :: "env \<Rightarrow> pylib \<Rightarrow> run_config \<Rightarrow> file_ctx \<Rightarrow> world \<Rightarrow> exn + world" where
  "process_file_mode e lib cfg ctx w =
     (if ctx_is_news ctx then
        (case ctx_data ctx of
           JDict kvs \<Rightarrow>
             (let kwargs = [(''title'', dict_get kvs ''title'' (JStr (ctx_base_name ctx)))]
              in case news_text_to_summarize e (cfg_summarizer cfg) ctx kwargs
                        (dict_get kvs ''content'' (JStr [])) w of
                   (Inl err, w1) \<Rightarrow> Inl err
                 | (Inr (text_to_summarize, method), w1) \<Rightarrow>
                     file_mode_gate e lib cfg ctx kwargs text_to_summarize method w1)
         | _ \<Rightarrow> Inl AttributeError)
      else
        (case document_title lib (ctx_data ctx) (ctx_filing_type ctx) of
           Inl err \<Rightarrow> Inl err
         | Inr doc_title_str \<Rightarrow>
             file_mode_gate e lib cfg ctx
               [(''source_filename'', JStr (ctx_base_name_ext ctx)),
                (''effective_filing_type'', JStr (ctx_filing_type ctx)),
                (''document_title'', doc_title_str),
                (''current_date'', JStr (today e))]
               (JStr (get_full_text lib (ctx_data ctx))) ''none'' w))"

subsection \<open>Node mode\<close>

fun node_sections ::
  "env \<Rightarrow> pylib \<Rightarrow> run_config \<Rightarrow> file_ctx \<Rightarrow> nat \<Rightarrow> doc_section list \<Rightarrow> world \<Rightarrow> exn + world" where
  "node_sections e lib cfg ctx i [] w = Inr w"
| "node_sections e lib cfg ctx i ((sec_title, sec_text) # rest) w =
     (let sec_id = ''section_'' @ str_nat (i + 1);
          actual_sec_title = (if truthy sec_title then sec_title
                              else JStr (''Untitled Section '' @ sec_id))
      in if strip sec_text = [] then node_sections e lib cfg ctx (i + 1) rest w
         else
           (let content_hash = hash_content lib (ctx_filepath ctx @ '':'' @ sec_id @ '':'' @ sec_text)
            in if is_cached (cfg_cache cfg) w content_hash then
                 node_sections e lib cfg ctx (i + 1) rest w
               else
                 (case document_title lib (ctx_data ctx) (ctx_filing_type ctx) of
                    Inl err \<Rightarrow> Inl err
                  | Inr doc_title_for_node \<Rightarrow>
                      (case summarize_and_write e lib cfg ''node'' (ctx_filing_type ctx)
                              [(''content'', JStr sec_text), (''section_title'', actual_sec_title),
                               (''document_title'', doc_title_for_node),
                               (''effective_filing_type'', JStr (ctx_filing_type ctx))]
                              content_hash
                              (Inr (path_join (ctx_out_dir ctx)
                                      (ctx_base_name ctx @ ''_'' @ sec_id @ ''_summary.md''),
                                    path_join (ctx_out_dir ctx)
                                      (ctx_base_name ctx @ ''_'' @ sec_id @ ''_meta.json'')))
                              [(''source_path'', JStr (ctx_filepath ctx)), (''mode'', JStr ''node''),
                               (''section_id'', JStr sec_id), (''section_title'', actual_sec_title),
                               (''doc_type'', JStr (ctx_filing_type ctx)),
                               (''document_title_for_node'', doc_title_for_node)]
                              w of
                         Inl err \<Rightarrow> Inl err
                       | Inr w1 \<Rightarrow> node_sections e lib cfg ctx (i + 1) rest w1))))"

definition process_node_mode :: "env \<Rightarrow> pylib \<Rightarrow> run_config \<Rightarrow> file_ctx \<Rightarrow> world \<Rightarrow> exn + world" where
  "process_node_mode e lib cfg ctx w =
     (case get_sections_from_json lib (ctx_data ctx) 50 of
        Inl err \<Rightarrow> Inl err
      | Inr sections \<Rightarrow>
          if sections = [] then
            Inr (w\<lparr>logged := logged w
                      @ [Warning (''No sections found in '' @ ctx_filepath ctx
                                  @ '' for node mode. Skipping.'')]\<rparr>)
          else node_sections e lib cfg ctx 0 sections w)"

subsection \<open>Master mode\<close>

text \<open>
  The scan for the node summaries \<^verbatim>\<open>_section_1_summary.md\<close>, \<^verbatim>\<open>_section_2_summary.md\<close>, \<open>\<dots>\<close>:
  it stops at the first path that does not exist or cannot be read.  A scan that finds
  every file has the value \<open>None\<close>.
\<close>

definition node_summary_path :: "string \<Rightarrow> string \<Rightarrow> nat \<Rightarrow> string" where
  "node_summary_path base_dir base_name i =
     path_join base_dir (base_name @ ''_section_'' @ str_nat i @ ''_summary.md'')"

partial_function (option) read_node_summaries ::
  "env \<Rightarrow> world \<Rightarrow> string \<Rightarrow> string \<Rightarrow> nat \<Rightarrow> string list \<Rightarrow> (string list \<times> log_entry list) option"
where
  "read_node_summaries e w base_dir base_name i node_summaries_content =
     (if path_exists w (node_summary_path base_dir base_name i) then
        (case (if read_fails e (node_summary_path base_dir base_name i) then None
               else map_of (files w) (node_summary_path base_dir base_name i)) of
           None \<Rightarrow>
             Some (node_summaries_content,
                   [Error (''Error reading node summary '' @ node_summary_path base_dir base_name i)])
         | Some body \<Rightarrow>
             read_node_summaries e w base_dir base_name (i + 1) (node_summaries_content @ [body]))
      else Some (node_summaries_content, []))"

declare read_node_summaries.simps [code]

definition process_master_mode ::
  "env \<Rightarrow> pylib \<Rightarrow> run_config \<Rightarrow> file_ctx \<Rightarrow> world \<Rightarrow> (exn + world) option" where
  "process_master_mode e lib cfg ctx w =
     (case read_node_summaries e w
             (path_join (path_join (cfg_output_dir cfg) ''node-level'') (ctx_rel_dir ctx))
             (ctx_base_name ctx) 1 [] of
        None \<Rightarrow> None
      | Some (node_summaries_content, msgs) \<Rightarrow>
          Some
            (let w1 = w\<lparr>logged := logged w @ msgs\<rparr>
             in if node_summaries_content = [] then
                  Inr (w1\<lparr>logged := logged w1
                             @ [Warning (''No node-level summaries found for '' @ ctx_filepath ctx
                                         @ ''. Cannot generate master summary. Skipping.'')]\<rparr>)
                else
                  (let combined_node_summaries =
                         join [CHR 0x0A, CHR 0x0A, CHR ''-'', CHR ''-'', CHR ''-'', CHR 0x0A, CHR 0x0A]
                           node_summaries_content;
                       content_hash = hash_content lib
                         (ctx_filepath ctx @ '':master_from_nodes:'' @ combined_node_summaries)
                   in if is_cached (cfg_cache cfg) w1 content_hash then Inr w1
                      else
                        (case document_title lib (ctx_data ctx) (ctx_filing_type ctx) of
                           Inl err \<Rightarrow> Inl err
                         | Inr doc_title_for_master \<Rightarrow>
                             summarize_and_write e lib cfg ''master'' (ctx_filing_type ctx)
                               [(''content'', JStr combined_node_summaries),
                                (''document_title'', doc_title_for_master),
                                (''effective_filing_type'', JStr (ctx_filing_type ctx)),
                                (''current_date'', JStr (today e))]
                               content_hash
                               (Inr (path_join (ctx_out_dir ctx)
                                       (ctx_base_name ctx @ ''_master_summary.md''),
                                     path_join (ctx_out_dir ctx)
                                       (ctx_base_name ctx @ ''_master_meta.json'')))
                               [(''source_path'', JStr (ctx_filepath ctx)),
                                (''mode'', JStr ''master''),
                                (''doc_type'', JStr (ctx_filing_type ctx))]
                               w1))))"

subsection \<open>Cross mode\<close>

definition process_cross_mode :: "env \<Rightarrow> pylib \<Rightarrow> run_config \<Rightarrow> file_ctx \<Rightarrow> world \<Rightarrow> exn + world" where
  "process_cross_mode e lib cfg ctx w =
     (let w1 = w\<lparr>logged := logged w
                   @ [Warning (''Cross-sectional mode is not designed to run on individual files like ''
                               @ ctx_filepath ctx)]\<rparr>;
          theme = (case cfg_theme cfg of Some t \<Rightarrow> t | None \<Rightarrow> ''general_cross_summary'');
          text_to_summarize = get_full_text lib (ctx_data ctx)
      in if strip text_to_summarize = [] then Inr w1
         else
           (let content_hash = hash_content lib
                  (ctx_filepath ctx @ '':cross:'' @ theme @ '':'' @ text_to_summarize)
            in if is_cached (cfg_cache cfg) w1 content_hash then Inr w1
               else summarize_and_write e lib cfg ''cross'' (ctx_filing_type ctx)
                      [(''content'', JStr text_to_summarize), (''theme'', JStr theme),
                       (''document_title'', JStr (ctx_base_name_ext ctx))]
                      content_hash
                      (Inr (path_join (ctx_out_dir ctx)
                              (ctx_base_name ctx @ ''_'' @ theme @ ''_cross_summary.md''),
                            path_join (ctx_out_dir ctx)
                              (ctx_base_name ctx @ ''_'' @ theme @ ''_cross_meta.json'')))
                      [(''source_path'', JStr (ctx_filepath ctx)), (''mode'', JStr ''cross''),
                       (''theme_type'', JStr theme), (''doc_type'', JStr (ctx_filing_type ctx))]
                      w1))"

subsection \<open>The loop over the files\<close>

text \<open>
  One iteration of \<^verbatim>\<open>for filepath in files_to_process\<close>.  \<open>Some (Inr w)\<close> is the world at
  the end of the iteration (also after a \<^verbatim>\<open>continue\<close>), \<open>Some (Inl err)\<close> an exception that
  leaves the loop.
\<close>

definition process_file ::
  "env \<Rightarrow> pylib \<Rightarrow> run_config \<Rightarrow> string \<Rightarrow> string \<Rightarrow> world \<Rightarrow> (exn + world) option" where
  "process_file e lib cfg mode filepath w =
     (case read_json e filepath of
        Decode_error msg \<Rightarrow>
          Some (Inr (w\<lparr>logged := logged w
                          @ [Error (''Failed to decode JSON from '' @ filepath @ '': '' @ msg)]\<rparr>))
      | Read_error msg \<Rightarrow>
          Some (Inr (w\<lparr>logged := logged w
                          @ [Error (''Failed to read file '' @ filepath @ '': '' @ msg)]\<rparr>))
      | Parsed data \<Rightarrow>
          (let is_news_article = is_news_path filepath;
               rel_dir = relpath_dirname lib filepath (cfg_input_dir cfg);
               base_name_ext = basename filepath;
               base_name = splitext_root base_name_ext;
               current_out_dir = path_join (path_join (cfg_output_dir cfg) (mode @ ''-level'')) rel_dir
           in if makedirs_fails e current_out_dir then Some (Inl OSError)
              else
                (let w1 = w\<lparr>dirs := insert current_out_dir (dirs w)\<rparr>;
                     ctx = \<lparr>ctx_filepath = filepath, ctx_data = data,
                            ctx_is_news = is_news_article,
                            ctx_filing_type =
                              effective_filing_type lib is_news_article base_name_ext data,
                            ctx_base_name = base_name, ctx_base_name_ext = base_name_ext,
                            ctx_out_dir = current_out_dir, ctx_rel_dir = rel_dir\<rparr>
                 in if mode = ''file'' \<or> (mode = ''news'' \<and> is_news_article) then
                      Some (process_file_mode e lib cfg ctx w1)
                    else if mode = ''node'' \<and> \<not> is_news_article then
                      Some (process_node_mode e lib cfg ctx w1)
                    else if mode = ''master'' \<and> \<not> is_news_article then
                      process_master_mode e lib cfg ctx w1
                    else if mode = ''cross'' then Some (process_cross_mode e lib cfg ctx w1)
                    else if mode \<noteq> ''file'' \<and> mode \<noteq> ''news'' \<and> mode \<noteq> ''node''
                            \<and> mode \<noteq> ''master'' then
                      Some (Inr (w1\<lparr>logged := logged w1
                                       @ [Warning (''Mode '' @ mode
                                            @ '' not applicable to this item type or not implemented for it: ''
                                            @ filepath)]\<rparr>))
                    else Some (Inr w1))))"

fun process_files ::
  "env \<Rightarrow> pylib \<Rightarrow> run_config \<Rightarrow> string \<Rightarrow> string list \<Rightarrow> world \<Rightarrow> (exn + world) option" where
  "process_files e lib cfg mode [] w = Some (Inr w)"
| "process_files e lib cfg mode (filepath # rest) w =
     (case process_file e lib cfg mode filepath w of
        None \<Rightarrow> None
      | Some (Inl err) \<Rightarrow> Some (Inl err)
      | Some (Inr w1) \<Rightarrow> process_files e lib cfg mode rest w1)"

text \<open>
  \<^verbatim>\<open>run_summarization\<close> from the list of the files it has discovered (the walk over the
  input directory is not modelled).
\<close>

definition run_summarization ::
  "env \<Rightarrow> pylib \<Rightarrow> run_config \<Rightarrow> string \<Rightarrow> string list \<Rightarrow> world \<Rightarrow> (exn + world) option" where
  "run_summarization e lib cfg mode files_to_process w =
     (if files_to_process = [] then
        Some (Inr (w\<lparr>logged := logged w
                        @ [Warning (''No processable JSON files (excluding index.json) found in ''
                                    @ cfg_input_dir cfg)]\<rparr>))
      else process_files e lib cfg mode files_to_process w)"

text \<open>
  Two runs in a row over the same files, the second from the world the first has left
  behind; the value is the number of calls of the language model made up to the end of
  each run.
\<close>

definition run_twice ::
  "env \<Rightarrow> pylib \<Rightarrow> run_config \<Rightarrow> string \<Rightarrow> string list \<Rightarrow> world \<Rightarrow> (nat \<times> nat) option" where
  "run_twice e lib cfg mode files_to_process w =
     (case run_summarization e lib cfg mode files_to_process w of
        Some (Inr w1) \<Rightarrow>
          (case run_summarization e lib cfg mode files_to_process w1 of
             Some (Inr w2) \<Rightarrow> Some (llm_calls w1, llm_calls w2)
           | _ \<Rightarrow> None)
      | _ \<Rightarrow> None)"

section \<open>Relations between worlds\<close>

text \<open>
  A later world has every directory and every file of an earlier one: the run never
  deletes.  In master mode it moreover leaves the node summaries as they are, the files
  whose name ends in a digit followed by \<^verbatim>\<open>_summary.md\<close>.
\<close>

definition world_le :: "world \<Rightarrow> world \<Rightarrow> bool" where
  "world_le w w' =
     (dirs w \<subseteq> dirs w' \<and> (\<forall>p. map_of (files w) p \<noteq> None \<longrightarrow> map_of (files w') p \<noteq> None))"

definition node_like :: "string \<Rightarrow> bool" where
  "node_like p = (\<exists>x d. p = x @ d # ''_summary.md'' \<and> d \<in> set ''0123456789'')"

definition same_node_summaries :: "world \<Rightarrow> world \<Rightarrow> bool" where
  "same_node_summaries w w' = (\<forall>p. node_like p \<longrightarrow> map_of (files w') p = map_of (files w) p)"

text \<open>
  The file takes the path of dynamic chunking: it is summarised as a news article and the
  estimate of its content exceeds the limit.
\<close>

definition takes_dynamic_chunking :: "env \<Rightarrow> string \<Rightarrow> string \<Rightarrow> bool" where
  "takes_dynamic_chunking e mode filepath =
     ((mode = ''file'' \<or> mode = ''news'') \<and> is_news_path filepath \<and>
      (case read_json e filepath of
         Parsed (JDict kvs) \<Rightarrow>
           (case estimate_tokens_of (dict_get kvs ''content'' (JStr [])) of
              Inr estimated_tokens \<Rightarrow> estimated_tokens > content_token_limit
            | Inl err \<Rightarrow> False)
       | _ \<Rightarrow> False))"

text \<open>
  The cache is on and its files can be written; and two runs see the same input files,
  the same date and the same failures of the file system (the language model and the
  metadata generator may answer differently).
\<close>

definition cache_ok :: "env \<Rightarrow> run_config \<Rightarrow> bool" where
  "cache_ok e cfg =
     (enabled (cfg_cache cfg) \<and> (\<forall>h. \<not> write_fails e (cache_file_path (cfg_cache cfg) h)))"

definition same_inputs :: "env \<Rightarrow> env \<Rightarrow> bool" where
  "same_inputs e e' =
     (read_json e' = read_json e \<and> makedirs_fails e' = makedirs_fails e \<and> today e' = today e
      \<and> read_fails e' = read_fails e)"

definition world_rel :: "string \<Rightarrow> world \<Rightarrow> world \<Rightarrow> bool" where
  "world_rel mode w w' = (world_le w w' \<and> (mode = ''master'' \<longrightarrow> same_node_summaries w w'))"

section \<open>Stand-ins for evaluating the model\<close>

text \<open>
  Simple instances of the library functions, of the outside world and of the initial
  state, on which the definitions can be evaluated.
\<close>

definition stub_lib :: pylib where
  "stub_lib =
     \<lparr>py_repr = json_dumps, strip_html = (\<lambda>s. s), json_dumps_indent = json_dumps,
      str_upper = (\<lambda>s. s), sanitize_id = (\<lambda>s. s), sha256_hex = (\<lambda>s. s),
      relpath_dirname = (\<lambda>p start. [])\<rparr>"

definition stub_env :: env where
  "stub_env =
     \<lparr>llm_run = (\<lambda>n pt kwargs. Inr ''summary''), read_json = (\<lambda>p. Parsed (JDict [])),
      makedirs_fails = (\<lambda>p. False), write_fails = (\<lambda>p. False), read_fails = (\<lambda>p. False),
      today = ''2025-01-01'', chunker_chunk_text = (\<lambda>body size ov. Inl AttributeError),
      generate_metadata = (\<lambda>args. Inr (JDict []))\<rparr>"

definition stub_summarizer :: llm_summarizer where
  "stub_summarizer =
     \<lparr>prompts = [(''default'', [(''file'', Some ([''title'', ''text''], ''Summarize {title}: {text}'')),
                               (''node'', Some ([''text''], ''Summarize: {text}''))])],
      model_name = ''stub-model'', max_retries = 2\<rparr>"

definition stub_news_ctx :: file_ctx where
  "stub_news_ctx =
     \<lparr>ctx_filepath = ''data/news/reg/2025-01/a.json'', ctx_data = JDict [],
      ctx_is_news = True, ctx_filing_type = ''news'', ctx_base_name = ''a'',
      ctx_base_name_ext = ''a.json'', ctx_out_dir = ''out/file-level'', ctx_rel_dir = []\<rparr>"

definition failing_llm_env :: env where
  "failing_llm_env = stub_env\<lparr>llm_run := (\<lambda>n pt kwargs. Inl ''timeout'')\<rparr>"

definition negative_retries_summarizer :: llm_summarizer where
  "negative_retries_summarizer = stub_summarizer\<lparr>max_retries := - 1\<rparr>"

definition no_template_summarizer :: llm_summarizer where
  "no_template_summarizer =
     \<lparr>prompts = [(''default'', [(''file'', None)])], model_name = ''stub-model'', max_retries = 2\<rparr>"

definition stub_config :: run_config where
  "stub_config =
     \<lparr>cfg_input_dir = ''in'', cfg_output_dir = ''out'',
      cfg_cache = \<lparr>cache_dir = ''.cache'', enabled = True\<rparr>,
      cfg_summarizer = stub_summarizer, cfg_theme = None\<rparr>"

text \<open>
  A news article of 665004 characters, whose estimate of 190001 tokens exceeds the limit,
  and a world whose chunker cuts it in two parts.
\<close>

definition big_article :: json where
  "big_article =
     JDict [(''title'', JStr ''Big''), (''content'', JStr (replicate 665004 (CHR ''a'')))]"

definition chunking_env :: env where
  "chunking_env =
     stub_env\<lparr>read_json := (\<lambda>p. Parsed big_article),
              chunker_chunk_text := (\<lambda>body size ov. Inr [''first part'', ''second part''])\<rparr>"

definition empty_world :: world where
  "empty_world = \<lparr>dirs = {}, files = [], llm_calls = 0, sleeps = [], logged = []\<rparr>"

text \<open>
  The world that a run in file mode over the filing \<^verbatim>\<open>in/a.json\<close> leaves behind, from the
  empty world and with the stand-ins above: the summary, its metadata and the cache file.
\<close>

definition warm_world :: world where
  "warm_world =
     \<lparr>dirs = {''out/file-level'', ''out/file-level/''},
      files = [(''out/file-level/a_meta.json'', ''{}''),
               (''out/file-level/a_summary.md'', ''summary''),
               (path_join ''.cache''
                  (''{}'' @ json_dumps (JDict [(''source_filename'', JStr ''a.json''),
                                               (''effective_filing_type'', JStr ''default''),
                                               (''document_title'', JStr ''Unknown Company''),
                                               (''current_date'', JStr ''2025-01-01'')])
                   @ ''.cache''), [])],
      llm_calls = 1, sleeps = [],
      logged = [Warning (''Missing input variables for prompt mode '' @ [CHR 0x27] @ ''file''
                         @ [CHR 0x27] @ '', filing_type '' @ [CHR 0x27] @ ''default''
                         @ [CHR 0x27] @ '': {'' @ [CHR 0x27] @ ''title'' @ [CHR 0x27]
                         @ ''}. Prompt may fail or be incomplete.'')]\<rparr>"

section \<open>Facts about slices\<close>

lemma py_index_nonneg: "0 \<le> i \<Longrightarrow> py_index n i = min (nat i) n"
  by (auto simp: py_index_def)

lemma slice_nonneg: "0 \<le> i \<Longrightarrow> 0 \<le> j \<Longrightarrow> slice xs i j = take (nat j - nat i) (drop (nat i) xs)"
  by (auto simp: slice_def py_index_nonneg min_def)

lemma slice_from_nonneg: "0 \<le> i \<Longrightarrow> slice_from xs i = drop (nat i) xs"
  by (auto simp: slice_from_def py_index_nonneg min_def)

lemma slice_to_nonneg: "0 \<le> j \<Longrightarrow> slice_to xs j = take (nat j) xs"
  by (auto simp: slice_to_def py_index_nonneg min_def)

lemma endswith_drop: "a \<le> b \<Longrightarrow> endswith (drop a xs) (drop b xs)"
proof (cases "b \<le> length xs")
  case True
  assume "a \<le> b"
  with True have "length xs - a - (length xs - b) + a = b" by simp
  then show ?thesis by (simp add: endswith_def)
next
  case False
  then show ?thesis by (simp add: endswith_def)
qed

section \<open>Termination of the chunking loop\<close>

lemma chunk_loop_stuck:
  assumes run: "chunk_loop tc text name start idx chunks = Some r"
  shows "\<not> (max_chunk_size tc \<le> 0 \<and> max_chunk_size tc \<le> overlap tc
            \<and> overlap tc \<le> int (length text) - max_chunk_size tc
            \<and> text \<noteq> [] \<and> start \<le> 0)"
proof (rule chunk_loop.raw_induct[where P = "\<lambda>tc t name start idx chunks r.
    \<not> (max_chunk_size tc \<le> 0 \<and> max_chunk_size tc \<le> overlap tc
        \<and> overlap tc \<le> int (length t) - max_chunk_size tc \<and> t \<noteq> [] \<and> start \<le> 0)",
    OF _ run], goal_cases)
  case (1 loop tc t name start idx chunks r)
  show ?case
  proof
    assume stuck: "max_chunk_size tc \<le> 0 \<and> max_chunk_size tc \<le> overlap tc
            \<and> overlap tc \<le> int (length t) - max_chunk_size tc
            \<and> t \<noteq> [] \<and> start \<le> 0"
    then have lt: "start < int (length t)" by (cases t) auto
    let ?start1 = "start + max_chunk_size tc"
    let ?chunks1 = "chunks @ [\<lparr>content = slice t start ?start1, section_name = name,
                                chunk_index = idx\<rparr>]"
    from stuck have nobreak: "\<not> (int (length t) - ?start1 < overlap tc \<and> ?start1 < int (length t))"
      by linarith
    from stuck have step: "max_chunk_size tc - overlap tc \<le> 0" by linarith
    from "1"(2) lt nobreak step
    have "loop tc t name ?start1 (idx + 1) ?chunks1 = Some r"
      by (simp add: Let_def)
    from "1"(1)[OF this] stuck show False by simp
  qed
qed

lemma chunk_text_diverges:
  assumes "max_chunk_size tc \<le> 0" "max_chunk_size tc \<le> overlap tc"
    and "overlap tc \<le> int (length text) - max_chunk_size tc" "text \<noteq> []"
  shows "chunk_text tc text name = None"
proof (cases "chunk_text tc text name")
  case None then show ?thesis .
next
  case (Some r)
  with assms have "chunk_loop tc text name 0 0 [] = Some r" by (simp add: chunk_text_def)
  from chunk_loop_stuck[OF this] assms show ?thesis by simp
qed

lemma chunk_loop_returns:
  assumes "0 < max_chunk_size tc \<or> overlap tc < max_chunk_size tc"
  shows "\<exists>r. chunk_loop tc text name start idx chunks = Some r"
proof (induction "nat (int (length text) - start)" arbitrary: start idx chunks rule: less_induct)
  case less
  show ?case
  proof (cases "start < int (length text)")
    case False
    then show ?thesis by (subst chunk_loop.simps) simp
  next
    case True
    let ?end = "start + max_chunk_size tc"
    let ?start1 = "if max_chunk_size tc - overlap tc \<le> 0 then ?end
                     else start + (max_chunk_size tc - overlap tc)"
    from assms have "start < ?start1" by auto
    with True have "nat (int (length text) - ?start1) < nat (int (length text) - start)"
      by linarith
    from less[OF this] obtain r where
      "\<And>idx chunks. \<exists>r. chunk_loop tc text name ?start1 idx chunks = Some r" by blast
    then show ?thesis
      by (subst chunk_loop.simps) (simp add: Let_def True)
  qed
qed

section \<open>The chunks that are emitted\<close>

lemma window_content:
  assumes "0 \<le> overlap tc" "overlap tc < max_chunk_size tc"
  shows "content (window tc text name k) =
     take (nat (max_chunk_size tc)) (drop (k * nat (max_chunk_size tc - overlap tc)) text)"
proof -
  let ?s = "max_chunk_size tc - overlap tc"
  have a: "0 \<le> int k * ?s" using assms by simp
  have b: "0 \<le> int k * ?s + max_chunk_size tc" using assms by simp
  have c: "nat (int k * ?s) = k * nat ?s" using assms by (simp add: nat_mult_distrib)
  have d: "nat (int k * ?s + max_chunk_size tc) - k * nat ?s = nat (max_chunk_size tc)"
    using assms a c by (simp add: nat_add_distrib)
  show ?thesis
    unfolding window_def using slice_nonneg[OF a b, of "text"] c d by simp
qed

lemma chunk_loop_exit:
  "\<not> start < int (length text) \<Longrightarrow> chunk_loop tc text name start idx chunks = Some chunks"
  by (subst chunk_loop.simps) simp

lemma chunk_loop_continue:
  assumes "overlap tc < max_chunk_size tc" "start < int (length text)"
    and "\<not> (int (length text) - (start + (max_chunk_size tc - overlap tc)) < overlap tc
          \<and> start + (max_chunk_size tc - overlap tc) < int (length text))"
  shows "chunk_loop tc text name start idx chunks =
         chunk_loop tc text name (start + (max_chunk_size tc - overlap tc)) (idx + 1)
           (chunks @ [\<lparr>content = slice text start (start + max_chunk_size tc),
                       section_name = name, chunk_index = idx\<rparr>])"
  by (subst chunk_loop.simps) (use assms in \<open>auto simp: Let_def\<close>)

lemma chunk_loop_covered_tail:
  assumes "overlap tc < max_chunk_size tc" "start < int (length text)"
    and "int (length text) - (start + (max_chunk_size tc - overlap tc)) < overlap tc"
    and "start + (max_chunk_size tc - overlap tc) < int (length text)"
    and "endswith (slice text start (start + max_chunk_size tc))
           (slice_to (slice_from text (start + (max_chunk_size tc - overlap tc))) (overlap tc))"
    and "\<not> overlap tc < int (length (slice_from text (start + (max_chunk_size tc - overlap tc))))"
  shows "chunk_loop tc text name start idx chunks =
         Some (chunks @ [\<lparr>content = slice text start (start + max_chunk_size tc),
                       section_name = name, chunk_index = idx\<rparr>])"
  by (subst chunk_loop.simps) (use assms in \<open>auto simp: Let_def\<close>)

lemma chunk_loop_windows:
  assumes ov: "0 \<le> overlap tc" and lt: "overlap tc < max_chunk_size tc"
  shows "\<exists>m. chunk_loop tc text name (int k0 * (max_chunk_size tc - overlap tc)) (int k0) chunks
           = Some (chunks @ map (window tc text name) [k0..<k0 + m])
         \<and> (int k0 * (max_chunk_size tc - overlap tc) < int (length text) \<longleftrightarrow> 1 \<le> m)
         \<and> (\<forall>k. k0 < k \<and> k < k0 + m \<longrightarrow> window_kept tc text k)
         \<and> (1 \<le> m \<longrightarrow> \<not> window_kept tc text (k0 + m))"
proof (induction "nat (int (length text) - int k0 * (max_chunk_size tc - overlap tc))"
       arbitrary: k0 chunks rule: less_induct)
  case less
  let ?M = "max_chunk_size tc" and ?O = "overlap tc"
  let ?s = "?M - ?O"
  let ?n = "int (length text)"
  let ?start = "int k0 * ?s"
  let ?chunks1 = "chunks @ [window tc text name k0]"
  have s_pos: "0 < ?s" using lt by simp
  have start_nonneg: "0 \<le> ?start" using s_pos by simp
  have suc: "int (Suc k0) * ?s = ?start + ?s" by (simp add: algebra_simps)
  have w: "window tc text name k0 = \<lparr>content = slice text ?start (?start + ?M),
                       section_name = name, chunk_index = int k0\<rparr>"
    by (simp add: window_def)
  show ?case
  proof (cases "?start < ?n")
    case False
    then have "chunk_loop tc text name ?start (int k0) chunks = Some chunks"
      by (rule chunk_loop_exit)
    with False show ?thesis by (intro exI[of _ 0]) auto
  next
    case True
    show ?thesis
    proof (cases "?n - (?start + ?s) < ?O \<and> ?start + ?s < ?n")
      case brk: True
      define a where "a = k0 * nat ?s"
      define b where "b = Suc k0 * nat ?s"
      have a_int: "int a = ?start" using s_pos by (simp add: a_def)
      have b_int: "int b = ?start + ?s" using s_pos by (simp add: b_def algebra_simps)
      have ab: "a \<le> b" by (simp add: a_def b_def)
      have "?n < int a + ?M" using brk a_int by linarith
      then have "length text - a \<le> nat ?M" by linarith
      then have cont: "slice text ?start (?start + ?M) = drop a text"
        using window_content[OF ov lt, of "text" name k0] by (simp add: w a_def)
      have s1: "0 \<le> ?start + ?s" using s_pos start_nonneg by linarith
      have tail: "slice_from text (?start + ?s) = drop b text"
        using slice_from_nonneg[OF s1, of "text"] b_int by (metis nat_int)
      have "int (length text - b) < ?O" using brk b_int by linarith
      then have tail_len: "int (length (drop b text)) < ?O" by simp
      then have "length (drop b text) \<le> nat ?O" by linarith
      then have tail_to: "slice_to (drop b text) ?O = drop b text"
        by (subst slice_to_nonneg[OF ov]) (rule take_all)
      have e: "endswith (slice text ?start (?start + ?M))
           (slice_to (slice_from text (?start + ?s)) ?O)"
        unfolding cont tail tail_to by (rule endswith_drop[OF ab])
      have l: "\<not> ?O < int (length (slice_from text (?start + ?s)))"
        unfolding tail using tail_len by linarith
      have "chunk_loop tc text name ?start (int k0) chunks = Some ?chunks1"
        unfolding w
        using chunk_loop_covered_tail[OF lt True _ _ e l] brk by blast
      moreover have "\<not> window_kept tc text (k0 + 1)"
        using brk unfolding window_kept_def Suc_eq_plus1[symmetric] suc by linarith
      ultimately show ?thesis using True
        by (intro exI[of _ 1]) auto
    next
      case nobrk: False
      have "nat (?n - int (Suc k0) * ?s) < nat (?n - ?start)" using True s_pos
        unfolding suc by linarith
      from less[OF this, of ?chunks1] obtain m where
        run: "chunk_loop tc text name (int (Suc k0) * ?s) (int (Suc k0)) ?chunks1
               = Some (?chunks1 @ map (window tc text name) [Suc k0..<Suc k0 + m])"
        and pos: "int (Suc k0) * ?s < ?n \<longleftrightarrow> 1 \<le> m"
        and kept: "\<forall>k. Suc k0 < k \<and> k < Suc k0 + m \<longrightarrow> window_kept tc text k"
        and stop: "1 \<le> m \<longrightarrow> \<not> window_kept tc text (Suc k0 + m)"
        by blast
      have idx: "int (Suc k0) = int k0 + 1" by simp
      have "chunk_loop tc text name ?start (int k0) chunks
              = chunk_loop tc text name (int (Suc k0) * ?s) (int (Suc k0)) ?chunks1"
        apply (subst suc)
        apply (subst idx)
        unfolding w
        apply (rule chunk_loop_continue[OF lt True nobrk])
        done
      with run have r: "chunk_loop tc text name ?start (int k0) chunks
              = Some (chunks @ map (window tc text name) [k0..<k0 + Suc m])"
        by (simp add: upt_rec[of k0])
      have k1: "\<forall>k. k0 < k \<and> k < k0 + Suc m \<longrightarrow> window_kept tc text k"
      proof (intro allI impI)
        fix k assume k: "k0 < k \<and> k < k0 + Suc m"
        show "window_kept tc text k"
        proof (cases "k = Suc k0")
          case True
          with k have "1 \<le> m" by simp
          with pos have "int (Suc k0) * ?s < ?n" by simp
          with nobrk show ?thesis unfolding True window_kept_def suc by linarith
        next
          case False
          with k kept show ?thesis by simp
        qed
      qed
      have st: "\<not> window_kept tc text (k0 + Suc m)"
      proof (cases "1 \<le> m")
        case True with stop show ?thesis by simp
      next
        case False
        then have m0: "m = 0" by simp
        with pos have "\<not> int (Suc k0) * ?s < ?n" by simp
        then show ?thesis unfolding m0 window_kept_def by simp
      qed
      from r k1 st True show ?thesis by (intro exI[of _ "Suc m"]) auto
    qed
  qed
qed

lemma window_kept_antitone:
  assumes "overlap tc < max_chunk_size tc" "window_kept tc text k'" "k \<le> k'"
  shows "window_kept tc text k"
proof -
  have "int k * (max_chunk_size tc - overlap tc) \<le> int k' * (max_chunk_size tc - overlap tc)"
    using assms(1,3) by (simp add: mult_right_mono)
  with assms(2) show ?thesis unfolding window_kept_def by linarith
qed

lemma window_start_below:
  assumes "overlap tc < max_chunk_size tc"
    and "int k * (max_chunk_size tc - overlap tc) < int (length text)"
  shows "k < length text"
proof -
  have "int k * 1 \<le> int k * (max_chunk_size tc - overlap tc)"
    using assms(1) by (intro mult_left_mono) simp_all
  with assms(2) show ?thesis by simp
qed

lemma filter_upt_cut:
  assumes "\<And>k. a \<le> k \<Longrightarrow> k < m \<Longrightarrow> P k" "\<And>k. m \<le> k \<Longrightarrow> k < n \<Longrightarrow> \<not> P k" "a \<le> m" "m \<le> n"
  shows "filter P [a..<n] = [a..<m]"
proof -
  have "[a..<n] = [a..<m] @ [m..<n]" using assms(3,4) by (metis le_Suc_ex upt_add_eq_append)
  moreover have "filter P [a..<m] = [a..<m]" using assms(1) by (simp add: filter_id_conv)
  moreover have "filter P [m..<n] = []" using assms(2) by (simp add: filter_empty_conv)
  ultimately show ?thesis by simp
qed

lemma chunk_text_eq_kept:
  assumes ov: "0 \<le> overlap tc" and lt: "overlap tc < max_chunk_size tc"
  shows "\<exists>m. chunk_text tc text name = Some (kept_windows tc text name)
      \<and> kept_windows tc text name = map (window tc text name) [0..<m]
      \<and> (text \<noteq> [] \<longrightarrow> 1 \<le> m \<and> \<not> window_kept tc text m)
      \<and> (text = [] \<longrightarrow> m = 0)
      \<and> m \<le> length text
      \<and> (\<forall>k. 0 < k \<and> k < m \<longrightarrow> window_kept tc text k)"
proof (cases "text = []")
  case True
  then show ?thesis by (intro exI[of _ 0]) (simp add: chunk_text_def kept_windows_def)
next
  case False
  from chunk_loop_windows[OF ov lt, of "text" name 0 "[]"] obtain m where
    run: "chunk_loop tc text name 0 0 [] = Some (map (window tc text name) [0..<m])"
    and pos: "1 \<le> m"
    and kept: "\<forall>k. 0 < k \<and> k < m \<longrightarrow> window_kept tc text k"
    and stop: "\<not> window_kept tc text m"
    using False by auto
  have mn: "m \<le> length text"
  proof (cases "m = 1")
    case True with False show ?thesis by (cases "text") auto
  next
    case F: False
    with pos kept have "window_kept tc text (m - 1)" by simp
    then have "m - 1 < length text"
      using window_start_below[OF lt, of "m - 1" "text"] by (simp add: window_kept_def)
    then show ?thesis by simp
  qed
  have "filter (window_kept tc text) [1..<length text] = [1..<m]"
  proof (rule filter_upt_cut)
    fix k assume "1 \<le> k" "k < m" with kept show "window_kept tc text k" by simp
  next
    fix k assume "m \<le> k" "k < length text"
    with stop window_kept_antitone[OF lt, of "text" k m] show "\<not> window_kept tc text k" by blast
  qed (use pos mn in simp_all)
  then have "kept_windows tc text name = map (window tc text name) [0..<m]"
    using False pos by (simp add: kept_windows_def upt_rec[of 0])
  with run False pos stop mn kept show ?thesis
    by (intro exI[of _ m]) (simp add: chunk_text_def)
qed

lemma spans_windows:
  assumes ov: "0 \<le> overlap tc" and lt: "overlap tc < max_chunk_size tc"
  shows "non_overlapping_spans (overlap tc) (map (window tc text name) [0..<Suc m])
         = take (nat (max_chunk_size tc) + m * nat (max_chunk_size tc - overlap tc)) text"
proof (induction m)
  case 0
  show ?case by (simp add: non_overlapping_spans_def window_content[OF ov lt])
next
  case (Suc m)
  let ?M = "nat (max_chunk_size tc)" and ?s = "nat (max_chunk_size tc - overlap tc)"
  have MO: "?M = ?s + nat (overlap tc)" using ov lt by linarith
  have "slice_from (content (window tc text name (Suc m))) (overlap tc)
        = take ?s (drop (?M + m * ?s) text)"
    unfolding window_content[OF ov lt] slice_from_nonneg[OF ov]
    by (simp add: drop_take MO add.commute add.left_commute)
  moreover have "non_overlapping_spans (overlap tc) (map (window tc text name) [0..<Suc (Suc m)])
      = non_overlapping_spans (overlap tc) (map (window tc text name) [0..<Suc m])
        @ slice_from (content (window tc text name (Suc m))) (overlap tc)"
    by (simp add: non_overlapping_spans_def upt_rec[of 0])
  moreover have "take (?M + Suc m * ?s) text
      = take (?M + m * ?s) text @ take ?s (drop (?M + m * ?s) text)"
    using take_add[of "?M + m * ?s" ?s "text"] by (simp add: add.commute add.left_commute)
  ultimately show ?case
    using Suc by simp
qed

lemma spans_kept:
  assumes ov: "0 \<le> overlap tc" and lt: "overlap tc < max_chunk_size tc"
  shows "non_overlapping_spans (overlap tc) (kept_windows tc text name) = text"
proof (cases "text = []")
  case True
  then show ?thesis by (simp add: kept_windows_def non_overlapping_spans_def)
next
  case False
  from chunk_text_eq_kept[OF ov lt, of "text" name] False obtain m where
    eq: "kept_windows tc text name = map (window tc text name) [0..<m]"
    and pos: "1 \<le> m" and stop: "\<not> window_kept tc text m" by blast
  from pos obtain j where m: "m = Suc j" by (cases m) auto
  let ?M = "nat (max_chunk_size tc)" and ?s = "nat (max_chunk_size tc - overlap tc)"
  have "int m * (max_chunk_size tc - overlap tc) = int (m * ?s)" using lt by simp
  with stop have "int (length text) \<le> int (m * ?s) \<or> int (length text) - int (m * ?s) < overlap tc"
    unfolding window_kept_def by linarith
  then have "int (length text) \<le> int (m * ?s) + overlap tc" using ov by linarith
  also have "\<dots> = int (?M + j * ?s)" using ov lt m by (simp add: algebra_simps)
  finally have "length text \<le> ?M + j * ?s" by linarith
  then show ?thesis unfolding eq m spans_windows[OF ov lt] by simp
qed

lemma kept_indices:
  assumes ov: "0 \<le> overlap tc" and lt: "overlap tc < max_chunk_size tc"
  shows "map chunk_index (kept_windows tc text name) = map int [0..<length (kept_windows tc text name)]"
proof -
  from chunk_text_eq_kept[OF ov lt, of "text" name] obtain m where
    eq: "kept_windows tc text name = map (window tc text name) [0..<m]" by blast
  show ?thesis unfolding eq by (simp add: window_def)
qed

lemma kept_prefix_sliding:
  assumes ov: "0 \<le> overlap tc" and lt: "overlap tc < max_chunk_size tc"
  shows "prefix (kept_windows tc text name) (sliding_windows tc text name)"
proof -
  let ?Q = "\<lambda>k. int k * (max_chunk_size tc - overlap tc) < int (length text)"
  from chunk_text_eq_kept[OF ov lt, of "text" name] obtain m where
    eq: "kept_windows tc text name = map (window tc text name) [0..<m]"
    and mn: "m \<le> length text"
    and empty: "text = [] \<longrightarrow> m = 0"
    and kept: "\<forall>k. 0 < k \<and> k < m \<longrightarrow> window_kept tc text k" by blast
  have Q: "?Q k" if "k < m" for k
  proof (cases "k = 0")
    case True
    with that empty show ?thesis by (cases "text") auto
  next
    case False
    with that kept have "window_kept tc text k" by simp
    then show ?thesis by (simp add: window_kept_def)
  qed
  have "[0..<length text] = [0..<m] @ [m..<length text]"
    using mn by (metis le_Suc_ex upt_add_eq_append zero_le)
  moreover have "filter ?Q [0..<m] = [0..<m]" using Q by (simp add: filter_id_conv)
  ultimately have "filter ?Q [0..<length text] = [0..<m] @ filter ?Q [m..<length text]"
    by (metis filter_append)
  then show ?thesis unfolding eq sliding_windows_def by simp
qed

section \<open>Claims about the chunker\<close>

text \<open>
  C1, as amended.  For every text and every \<open>max_size > overlap \<ge> 0\<close>, \<^verbatim>\<open>chunk_text\<close> returns
  the windows \<^verbatim>\<open>T[k*step : k*step+max_size]\<close> (\<open>step = max_size - overlap\<close>) for \<open>k = 0\<close>
  and then for \<open>k = 1, 2, \<dots>\<close> while the window start is below the length of the text and at
  least \<open>overlap\<close> characters remain from it: an initial segment of the sliding windows.
  Concatenating the non-overlapping spans of the chunks gives back the text, and the
  chunk indices are \<open>0, \<dots>, n-1\<close>.  For 150 characters with \<open>max_size = 100\<close> and
  \<open>overlap = 20\<close> there are two chunks, of 100 and of 70 characters, and
  \<^verbatim>\<open>chunk0[80:] == chunk1[:20]\<close>.
\<close>

theorem chunk_text_kept_windows:
  "(0 \<le> overlap tc \<and> overlap tc < max_chunk_size tc \<longrightarrow>
      chunk_text tc text name = Some (kept_windows tc text name)
      \<and> prefix (kept_windows tc text name) (sliding_windows tc text name)
      \<and> non_overlapping_spans (overlap tc) (kept_windows tc text name) = text
      \<and> map chunk_index (kept_windows tc text name)
          = map int [0..<length (kept_windows tc text name)])
   \<and> chunk_text \<lparr>max_chunk_size = 100, overlap = 20\<rparr> (replicate 150 (CHR ''a'')) name
        = Some [\<lparr>content = replicate 100 (CHR ''a''), section_name = name, chunk_index = 0\<rparr>,
                \<lparr>content = replicate 70 (CHR ''a''), section_name = name, chunk_index = 1\<rparr>]
   \<and> slice_from (replicate 100 (CHR ''a'')) 80 = slice_to (replicate 70 (CHR ''a'')) 20"
proof (intro conjI impI)
  assume h: "0 \<le> overlap tc \<and> overlap tc < max_chunk_size tc"
  then have ov: "0 \<le> overlap tc" and lt: "overlap tc < max_chunk_size tc" by simp_all
  from chunk_text_eq_kept[OF ov lt, of "text" name]
  show "chunk_text tc text name = Some (kept_windows tc text name)" by blast
  show "prefix (kept_windows tc text name) (sliding_windows tc text name)"
    by (rule kept_prefix_sliding[OF ov lt])
  show "non_overlapping_spans (overlap tc) (kept_windows tc text name) = text"
    by (rule spans_kept[OF ov lt])
  show "map chunk_index (kept_windows tc text name)
          = map int [0..<length (kept_windows tc text name)]"
    by (rule kept_indices[OF ov lt])
next
  let ?tc = "\<lparr>max_chunk_size = 100, overlap = 20\<rparr>"
  let ?t = "replicate 150 (CHR ''a'')"
  let ?c0 = "\<lparr>content = replicate 100 (CHR ''a''), section_name = name, chunk_index = 0\<rparr>"
  have first: "chunk_loop ?tc ?t name 0 0 []
      = chunk_loop ?tc ?t name 80 1 [?c0]"
    by (subst chunk_loop.simps) (simp add: Let_def slice_def py_index_def)
  have second: "chunk_loop ?tc ?t name 80 1 [?c0] = chunk_loop ?tc ?t name 160 2
       [?c0, \<lparr>content = replicate 70 (CHR ''a''), section_name = name, chunk_index = 1\<rparr>]"
    by (subst chunk_loop.simps) (simp add: Let_def slice_def py_index_def)
  show "chunk_text ?tc ?t name
        = Some [?c0, \<lparr>content = replicate 70 (CHR ''a''), section_name = name, chunk_index = 1\<rparr>]"
    unfolding chunk_text_def first second
    by (subst chunk_loop.simps) simp
next
  show "slice_from (replicate 100 (CHR ''a'')) 80 = slice_to (replicate 70 (CHR ''a'')) 20"
    by (simp add: slice_from_def slice_to_def py_index_def)
qed

theorem chunk_text_kept_windows_witness:
  "(0::int) \<le> 2 \<and> (2::int) < 4
   \<and> chunk_text \<lparr>max_chunk_size = 4, overlap = 2\<rparr> ''abcde'' None
       = Some [\<lparr>content = ''abcd'', section_name = None, chunk_index = 0\<rparr>,
               \<lparr>content = ''cde'', section_name = None, chunk_index = 1\<rparr>]
   \<and> non_overlapping_spans 2
        [\<lparr>content = ''abcd'', section_name = None, chunk_index = 0\<rparr>,
         \<lparr>content = ''cde'', section_name = None, chunk_index = 1\<rparr>] = ''abcde''"
proof -
  have k: "kept_windows \<lparr>max_chunk_size = 4, overlap = 2\<rparr> ''abcde'' None
       = [\<lparr>content = ''abcd'', section_name = None, chunk_index = 0\<rparr>,
               \<lparr>content = ''cde'', section_name = None, chunk_index = 1\<rparr>]"
    by code_simp
  from chunk_text_kept_windows[of "\<lparr>max_chunk_size = 4, overlap = 2\<rparr>" "''abcde''" None]
  show ?thesis unfolding k by simp
qed

text \<open>
  C1 as stated fails: on \<^verbatim>\<open>"abcde"\<close> with \<open>max_size = 4\<close> and \<open>overlap = 2\<close> the window
  starting at 4 lies below the length 5, but the loop leaves it out, its one character
  being shorter than the overlap and already inside the previous chunk.
\<close>

theorem chunk_text_not_all_sliding_windows:
  "chunk_text \<lparr>max_chunk_size = 4, overlap = 2\<rparr> ''abcde'' None
       = Some [\<lparr>content = ''abcd'', section_name = None, chunk_index = 0\<rparr>,
               \<lparr>content = ''cde'', section_name = None, chunk_index = 1\<rparr>]
   \<and> sliding_windows \<lparr>max_chunk_size = 4, overlap = 2\<rparr> ''abcde'' None
       = [\<lparr>content = ''abcd'', section_name = None, chunk_index = 0\<rparr>,
          \<lparr>content = ''cde'', section_name = None, chunk_index = 1\<rparr>,
          \<lparr>content = ''e'', section_name = None, chunk_index = 2\<rparr>]
   \<and> chunk_text \<lparr>max_chunk_size = 4, overlap = 2\<rparr> ''abcde'' None
       \<noteq> Some (sliding_windows \<lparr>max_chunk_size = 4, overlap = 2\<rparr> ''abcde'' None)"
  by code_simp

text \<open>
  C7 at \<open>max_size = 0\<close>, \<open>overlap = 0\<close> and the text \<^verbatim>\<open>"a"\<close>: the fallback sets
  \<open>start = end = start + 0\<close>, the window start never moves, and the loop does not return.
\<close>

theorem chunk_text_zero_size_diverges:
  "chunk_text \<lparr>max_chunk_size = 0, overlap = 0\<rparr> ''a'' None = None"
  by (rule chunk_text_diverges) simp_all

section \<open>Claims about the extraction of sections\<close>

text \<open>
  C10.  When the document is a mapping whose top-level \<^verbatim>\<open>content\<close> is a string shorter than
  \<open>min_length\<close>, \<^verbatim>\<open>get_sections_from_json\<close> returns the empty list at once, whatever the
  \<^verbatim>\<open>sections\<close> mapping or the other fields would have given.
\<close>

theorem short_content_returns_empty:
  "map_of kvs ''content'' = Some (JStr c) \<Longrightarrow> int (length c) < min_length
   \<Longrightarrow> get_sections_from_json lib (JDict kvs) min_length = Inr []"
  by simp

theorem short_content_returns_empty_witness:
  "map_of [(''content'', JStr ''short''), (''sections'', JDict [(''a'', JStr ''long enough text'')])]
      ''content'' = Some (JStr ''short'')
   \<and> int (length ''short'') < 10
   \<and> get_sections_from_json stub_lib
        (JDict [(''content'', JStr ''short''), (''sections'', JDict [(''a'', JStr ''long enough text'')])])
        10 = Inr []
   \<and> get_sections_from_json stub_lib
        (JDict [(''sections'', JDict [(''a'', JStr ''long enough text'')])]) 10
       = Inr [(JStr ''a'', ''long enough text'')]"
proof -
  have a: "map_of [(''content'', JStr ''short''), (''sections'', JDict [(''a'', JStr ''long enough text'')])]
      ''content'' = Some (JStr ''short'')" by simp
  have b: "int (length ''short'') < 10" by simp
  have c: "get_sections_from_json stub_lib
        (JDict [(''sections'', JDict [(''a'', JStr ''long enough text'')])]) 10
       = Inr [(JStr ''a'', ''long enough text'')]"
    by (simp add: sections_of_mapping_def section_of_entry_def)
  from short_content_returns_empty[OF a b, of stub_lib] a b c show ?thesis by blast
qed

lemma empty_mapping_dumps: "json_dumps (JDict []) = ''{}''"
  by simp

lemma empty_mapping_flat: "sections_of_flat lib min_length [] = Inr []"
  by (simp add: sections_of_flat_def dict_get_def strip_def)

text \<open>
  C8, as amended.  A mapping with a string \<^verbatim>\<open>content\<close> of at least \<open>min_length\<close> characters
  yields exactly that one section, whether or not it has a \<^verbatim>\<open>sections\<close> mapping; a mapping
  with only a \<^verbatim>\<open>sections\<close> mapping of three string entries, each of at least \<open>min_length\<close>
  characters, yields these three sections in the order of the mapping; the empty mapping
  yields no section when \<open>min_length > 2\<close>, and for \<open>min_length \<le> 2\<close> the one section that
  the last fallback makes of its text \<^verbatim>\<open>{}\<close>.
\<close>

theorem sections_priority:
  "(map_of kvs ''content'' = Some (JStr c) \<and> min_length \<le> int (length c) \<longrightarrow>
      get_sections_from_json lib (JDict kvs) min_length = Inr [(dict_get kvs ''title'' JNull, c)])
   \<and> (min_length \<le> int (length s1) \<and> min_length \<le> int (length s2) \<and> min_length \<le> int (length s3) \<longrightarrow>
      get_sections_from_json lib
        (JDict [(''sections'', JDict [(k1, JStr s1), (k2, JStr s2), (k3, JStr s3)])]) min_length
        = Inr [(JStr k1, s1), (JStr k2, s2), (JStr k3, s3)])
   \<and> (2 < min_length \<longrightarrow> get_sections_from_json lib (JDict []) min_length = Inr [])
   \<and> (min_length \<le> 2 \<longrightarrow>
        get_sections_from_json lib (JDict []) min_length
          = Inr [(JStr ''full_document_content'', ''{}'')])"
proof (intro conjI impI)
  assume "map_of kvs ''content'' = Some (JStr c) \<and> min_length \<le> int (length c)"
  then show "get_sections_from_json lib (JDict kvs) min_length = Inr [(dict_get kvs ''title'' JNull, c)]"
    by simp
next
  assume "min_length \<le> int (length s1) \<and> min_length \<le> int (length s2) \<and> min_length \<le> int (length s3)"
  then show "get_sections_from_json lib
        (JDict [(''sections'', JDict [(k1, JStr s1), (k2, JStr s2), (k3, JStr s3)])]) min_length
        = Inr [(JStr k1, s1), (JStr k2, s2), (JStr k3, s3)]"
    by (simp add: sections_of_mapping_def section_of_entry_def)
next
  assume "2 < min_length"
  then show "get_sections_from_json lib (JDict []) min_length = Inr []"
    by (simp add: empty_mapping_flat sections_of_whole_def)
next
  assume "min_length \<le> 2"
  then show "get_sections_from_json lib (JDict []) min_length
          = Inr [(JStr ''full_document_content'', ''{}'')]"
    by (simp add: empty_mapping_flat sections_of_whole_def dict_get_def)
qed

theorem sections_priority_witness:
  "map_of [(''title'', JStr ''T''), (''content'', JStr ''hello world''),
           (''sections'', JDict [(''a'', JStr ''something'')])] ''content'' = Some (JStr ''hello world'')
   \<and> (5::int) \<le> int (length ''hello world'')
   \<and> get_sections_from_json stub_lib
        (JDict [(''title'', JStr ''T''), (''content'', JStr ''hello world''),
                (''sections'', JDict [(''a'', JStr ''something'')])]) 5
       = Inr [(JStr ''T'', ''hello world'')]
   \<and> (5::int) \<le> int (length ''first'') \<and> (5::int) \<le> int (length ''second'')
   \<and> (5::int) \<le> int (length ''third'')
   \<and> get_sections_from_json stub_lib
        (JDict [(''sections'', JDict [(''Item 1'', JStr ''first''), (''Item 1A'', JStr ''second''),
                                      (''Item 7'', JStr ''third'')])]) 5
       = Inr [(JStr ''Item 1'', ''first''), (JStr ''Item 1A'', ''second''), (JStr ''Item 7'', ''third'')]
   \<and> (2::int) < 5 \<and> get_sections_from_json stub_lib (JDict []) 5 = Inr []
   \<and> (0::int) \<le> 2
   \<and> get_sections_from_json stub_lib (JDict []) 0 = Inr [(JStr ''full_document_content'', ''{}'')]"
  using sections_priority[where kvs = "[(''title'', JStr ''T''), (''content'', JStr ''hello world''),
           (''sections'', JDict [(''a'', JStr ''something'')])]" and c = "''hello world''"
           and min_length = 5 and ?s1.0 = "''first''" and ?s2.0 = "''second''" and ?s3.0 = "''third''"
           and lib = stub_lib and ?k1.0 = "''Item 1''" and ?k2.0 = "''Item 1A''" and ?k3.0 = "''Item 7''"]
        sections_priority[where min_length = 0 and lib = stub_lib]
  by (simp add: dict_get_def)

text \<open>
  C8 as stated fails for the empty mapping when \<open>min_length\<close> is 0: the stringified
  document \<^verbatim>\<open>{}\<close> is returned as a section.
\<close>

theorem empty_mapping_one_section:
  "get_sections_from_json stub_lib (JDict []) 0 = Inr [(JStr ''full_document_content'', ''{}'')]"
  by (simp add: empty_mapping_flat sections_of_whole_def dict_get_def)

section \<open>Claims about the dynamic chunk size\<close>

lemma floor_div_7_2: "\<lfloor>real n / 3.5\<rfloor> = (2 * int n) div 7"
proof -
  have "real n / 3.5 = real_of_int (2 * int n) / real_of_int 7" by simp
  then show ?thesis by (simp only: floor_divide_of_int_eq)
qed

lemma estimate_tokens_div: "estimate_tokens s = (2 * int (length s)) div 7"
proof (cases "s = []")
  case True then show ?thesis by (simp add: estimate_tokens_def)
next
  case False
  have "0 \<le> real (length s) / 3.5" by simp
  then show ?thesis using False floor_div_7_2[of "length s"]
    by (simp add: estimate_tokens_def py_int_def)
qed

lemma num_chunks_ideal_div: "num_chunks_ideal est = max 2 ((est + 49999) div 50000)"
proof -
  have "\<lceil>real_of_int est / real_of_int 50000\<rceil> = - ((- est) div 50000)"
    by (simp only: ceiling_divide_eq_div)
  also have "\<dots> = (est + 49999) div 50000" by linarith
  finally show ?thesis by (simp add: num_chunks_ideal_def safe_tokens_per_chunk_def)
qed

lemma chunk_size_div:
  "char_chunk_size_for_splitter est total_chars = max 20000 (int total_chars div num_chunks_ideal est)"
proof -
  have "\<lfloor>real total_chars / real_of_int (num_chunks_ideal est)\<rfloor>
        = \<lfloor>real_of_int (int total_chars) / real_of_int (num_chunks_ideal est)\<rfloor>" by simp
  also have "\<dots> = int total_chars div num_chunks_ideal est" by (simp only: floor_divide_of_int_eq)
  finally show ?thesis by (simp add: char_chunk_size_for_splitter_def)
qed

lemma chunk_overlap_div:
  "char_chunk_overlap est total_chars = max 1000 (char_chunk_size_for_splitter est total_chars div 10)"
proof -
  let ?c = "char_chunk_size_for_splitter est total_chars"
  have pos: "0 \<le> ?c" by (simp add: char_chunk_size_for_splitter_def)
  have "real_of_int ?c * 0.1 = real_of_int ?c / real_of_int 10" by simp
  then have "\<lfloor>real_of_int ?c * 0.1\<rfloor> = ?c div 10" by (simp only: floor_divide_of_int_eq)
  moreover have "0 \<le> real_of_int ?c * 0.1" using pos by simp
  ultimately show ?thesis by (simp add: char_chunk_overlap_def py_int_def)
qed

lemma news_small:
  "estimate_tokens s \<le> content_token_limit \<Longrightarrow>
   news_text_to_summarize e sm ctx kwargs (JStr s) w = (Inr (JStr s, ''none''), w)"
  by (simp add: news_text_to_summarize_def estimate_tokens_of_def)

lemma news_big_chunker_raises:
  "content_token_limit < estimate_tokens s \<Longrightarrow>
   chunker_chunk_text e (JStr s) (char_chunk_size_for_splitter (estimate_tokens s) (length s))
      (char_chunk_overlap (estimate_tokens s) (length s)) = Inl err \<Longrightarrow>
   fst (news_text_to_summarize e sm ctx kwargs (JStr s) w) = Inl err"
  by (simp add: news_text_to_summarize_def estimate_tokens_of_def json_len_def Let_def)

lemma big_est: "estimate_tokens (replicate 665004 (CHR ''a'')) = 190001"
  by (simp add: estimate_tokens_def py_int_def)

lemma big_size: "char_chunk_size_for_splitter 190001 665004 = 166251"
  by (simp add: char_chunk_size_for_splitter_def num_chunks_ideal_def safe_tokens_per_chunk_def)

lemma big_ov: "char_chunk_overlap 190001 665004 = 16625"
  by (simp add: char_chunk_overlap_def big_size py_int_def)

text \<open>
  C5.  The token estimate of a text is its length over 3.5, rounded towards zero (0 for the
  empty text).  For an estimate above 190000 the orchestrator takes
  \<open>max(2, ceil(estimate / 50000))\<close> chunks, a chunk size of
  \<open>max(20000, floor(total_chars / chunks))\<close> and an overlap of
  \<open>max(1000, floor(0.1 * chunk_size))\<close>, and hands the content with this size and overlap to
  the chunker; up to 190000 the content is not chunked.  500000 tokens give 10 chunks, and
  the number of chunks is never below 2.
\<close>

theorem dynamic_chunk_parameters:
  "estimate_tokens s = (if s = [] then 0 else \<lfloor>real (length s) / 3.5\<rfloor>)
   \<and> estimate_tokens s = (2 * int (length s)) div 7
   \<and> num_chunks_ideal est = max 2 \<lceil>real_of_int est / 50000\<rceil>
   \<and> num_chunks_ideal est = max 2 ((est + 49999) div 50000)
   \<and> char_chunk_size_for_splitter est total_chars
        = max 20000 \<lfloor>real total_chars / real_of_int (num_chunks_ideal est)\<rfloor>
   \<and> char_chunk_size_for_splitter est total_chars = max 20000 (int total_chars div num_chunks_ideal est)
   \<and> char_chunk_overlap est total_chars
        = max 1000 \<lfloor>0.1 * real_of_int (char_chunk_size_for_splitter est total_chars)\<rfloor>
   \<and> char_chunk_overlap est total_chars = max 1000 (char_chunk_size_for_splitter est total_chars div 10)
   \<and> num_chunks_ideal 500000 = 10
   \<and> 2 \<le> num_chunks_ideal est
   \<and> (estimate_tokens s \<le> content_token_limit \<longrightarrow>
        news_text_to_summarize e sm ctx kwargs (JStr s) w = (Inr (JStr s, ''none''), w))
   \<and> (content_token_limit < estimate_tokens s
        \<and> chunker_chunk_text e (JStr s)
              (char_chunk_size_for_splitter (estimate_tokens s) (length s))
              (char_chunk_overlap (estimate_tokens s) (length s)) = Inl err \<longrightarrow>
        fst (news_text_to_summarize e sm ctx kwargs (JStr s) w) = Inl err)"
proof (intro conjI impI)
  show "estimate_tokens s = (if s = [] then 0 else \<lfloor>real (length s) / 3.5\<rfloor>)"
    by (simp add: estimate_tokens_def py_int_def)
  show "estimate_tokens s = (2 * int (length s)) div 7" by (rule estimate_tokens_div)
  show "num_chunks_ideal est = max 2 \<lceil>real_of_int est / 50000\<rceil>"
    by (simp add: num_chunks_ideal_def safe_tokens_per_chunk_def)
  show "num_chunks_ideal est = max 2 ((est + 49999) div 50000)" by (rule num_chunks_ideal_div)
  show "char_chunk_size_for_splitter est total_chars
        = max 20000 \<lfloor>real total_chars / real_of_int (num_chunks_ideal est)\<rfloor>"
    by (simp add: char_chunk_size_for_splitter_def)
  show "char_chunk_size_for_splitter est total_chars = max 20000 (int total_chars div num_chunks_ideal est)"
    by (rule chunk_size_div)
  have pos: "0 \<le> 0.1 * real_of_int (char_chunk_size_for_splitter est total_chars)"
    by (simp add: char_chunk_size_for_splitter_def)
  then show "char_chunk_overlap est total_chars
        = max 1000 \<lfloor>0.1 * real_of_int (char_chunk_size_for_splitter est total_chars)\<rfloor>"
    by (simp add: char_chunk_overlap_def py_int_def mult.commute)
  show "char_chunk_overlap est total_chars = max 1000 (char_chunk_size_for_splitter est total_chars div 10)"
    by (rule chunk_overlap_div)
  show "num_chunks_ideal 500000 = 10" by (simp add: num_chunks_ideal_div)
  show "2 \<le> num_chunks_ideal est" by (simp add: num_chunks_ideal_def)
next
  assume "estimate_tokens s \<le> content_token_limit"
  then show "news_text_to_summarize e sm ctx kwargs (JStr s) w = (Inr (JStr s, ''none''), w)"
    by (rule news_small)
next
  assume "content_token_limit < estimate_tokens s
        \<and> chunker_chunk_text e (JStr s)
              (char_chunk_size_for_splitter (estimate_tokens s) (length s))
              (char_chunk_overlap (estimate_tokens s) (length s)) = Inl err"
  then show "fst (news_text_to_summarize e sm ctx kwargs (JStr s) w) = Inl err"
    using news_big_chunker_raises by blast
qed

theorem dynamic_chunk_parameters_witness:
  "estimate_tokens ''abc'' \<le> content_token_limit
   \<and> news_text_to_summarize stub_env stub_summarizer stub_news_ctx [] (JStr ''abc'') empty_world
        = (Inr (JStr ''abc'', ''none''), empty_world)
   \<and> content_token_limit < estimate_tokens (replicate 665004 (CHR ''a''))
   \<and> chunker_chunk_text stub_env (JStr (replicate 665004 (CHR ''a''))) 166251 16625
        = Inl AttributeError
   \<and> fst (news_text_to_summarize stub_env stub_summarizer stub_news_ctx [] (JStr (replicate 665004 (CHR ''a'')))
             empty_world) = Inl AttributeError"
proof -
  have small: "estimate_tokens ''abc'' \<le> content_token_limit"
    by (simp add: estimate_tokens_div content_token_limit_def)
  have big: "content_token_limit < estimate_tokens (replicate 665004 (CHR ''a''))"
    by (simp add: big_est content_token_limit_def)
  have raises: "chunker_chunk_text stub_env (JStr (replicate 665004 (CHR ''a'')))
        (char_chunk_size_for_splitter (estimate_tokens (replicate 665004 (CHR ''a'')))
           (length (replicate 665004 (CHR ''a''))))
        (char_chunk_overlap (estimate_tokens (replicate 665004 (CHR ''a'')))
           (length (replicate 665004 (CHR ''a'')))) = Inl AttributeError"
    by (simp add: stub_env_def)
  from dynamic_chunk_parameters[where s = "''abc''" and e = stub_env and sm = stub_summarizer and ctx = stub_news_ctx
         and kwargs = "[]" and w = empty_world] small
  have a: "news_text_to_summarize stub_env stub_summarizer stub_news_ctx [] (JStr ''abc'') empty_world
        = (Inr (JStr ''abc'', ''none''), empty_world)" by blast
  from dynamic_chunk_parameters[where s = "replicate 665004 (CHR ''a'')" and e = stub_env
         and sm = stub_summarizer and ctx = stub_news_ctx and kwargs = "[]" and w = empty_world
         and err = AttributeError] big raises
  have b: "fst (news_text_to_summarize stub_env stub_summarizer stub_news_ctx [] (JStr (replicate 665004 (CHR ''a'')))
             empty_world) = Inl AttributeError" by blast
  from small a big b show ?thesis by (simp add: stub_env_def)
qed

section \<open>Claims about the cache\<close>

text \<open>
  C6.  A cache manager constructed with \<^verbatim>\<open>enabled=False\<close> creates no directory and leaves
  the world as it is; one whose cache directory cannot be created is switched off and no
  directory exists afterwards.  With caching off, \<^verbatim>\<open>is_cached\<close> is false for every key and
  \<^verbatim>\<open>mark_cached\<close> changes nothing.
\<close>

theorem cache_disabled:
  "fst (cache_manager_init e dir False w) = \<lparr>cache_dir = dir, enabled = False\<rparr>
   \<and> snd (cache_manager_init e dir False w) = w
   \<and> (\<not> path_exists w dir \<and> makedirs_fails e dir \<longrightarrow>
        fst (cache_manager_init e dir True w) = \<lparr>cache_dir = dir, enabled = False\<rparr>
        \<and> dirs (snd (cache_manager_init e dir True w)) = dirs w
        \<and> files (snd (cache_manager_init e dir True w)) = files w
        \<and> \<not> path_exists (snd (cache_manager_init e dir True w)) dir)
   \<and> (\<not> enabled cm \<longrightarrow> \<not> is_cached cm w' h \<and> mark_cached e' cm h m w' = w')"
  by (simp add: cache_manager_init_def is_cached_def mark_cached_def path_exists_def)

theorem cache_disabled_witness:
  "\<not> path_exists empty_world ''.cache''
   \<and> makedirs_fails (stub_env\<lparr>makedirs_fails := (\<lambda>p. True)\<rparr>) ''.cache''
   \<and> fst (cache_manager_init (stub_env\<lparr>makedirs_fails := (\<lambda>p. True)\<rparr>) ''.cache'' True empty_world)
        = \<lparr>cache_dir = ''.cache'', enabled = False\<rparr>
   \<and> \<not> path_exists (snd (cache_manager_init (stub_env\<lparr>makedirs_fails := (\<lambda>p. True)\<rparr>) ''.cache'' True
                             empty_world)) ''.cache''
   \<and> \<not> enabled \<lparr>cache_dir = ''.cache'', enabled = False\<rparr>
   \<and> \<not> is_cached \<lparr>cache_dir = ''.cache'', enabled = False\<rparr> empty_world ''abc''
   \<and> mark_cached stub_env \<lparr>cache_dir = ''.cache'', enabled = False\<rparr> ''abc'' JNull empty_world
        = empty_world"
  using cache_disabled[of "stub_env\<lparr>makedirs_fails := (\<lambda>p. True)\<rparr>" "''.cache''" empty_world
          "\<lparr>cache_dir = ''.cache'', enabled = False\<rparr>" empty_world "''abc''" stub_env JNull]
  by (simp add: path_exists_def empty_world_def)

section \<open>Claims about the summarizer\<close>

lemma attempt_fails:
  assumes "\<forall>n p k. isl (llm_run e n p k)"
  shows "\<exists>err. attempt e pt kwargs w
           = (Inl err, w\<lparr>llm_calls := llm_calls w + (if has_len (content_to_log kwargs) then 1 else 0)\<rparr>)"
proof (cases "has_len (content_to_log kwargs)")
  case True
  from assms obtain err where "llm_run e (llm_calls w) pt (map_of kwargs) = Inl err"
    by (metis isl_def)
  with True show ?thesis by (simp add: attempt_def)
next
  case False
  then show ?thesis by (simp add: attempt_def)
qed

lemma retry_loop_all_fail:
  assumes fail: "\<forall>n p k. isl (llm_run e n p k)"
  shows "0 \<le> retries \<Longrightarrow> retries \<le> max_retries s \<Longrightarrow>
     \<exists>errs. length errs = nat (max_retries s - retries) + 1
       \<and> fst (retry_loop e s pt kwargs retries w)
           = ''Error: Failed to generate summary after '' @ str_int (max_retries s + 1)
               @ '' attempts. Last error: '' @ last errs
       \<and> logged (snd (retry_loop e s pt kwargs retries w))
           = logged w @ map failure_entry (zip [nat retries + 1..<nat (max_retries s) + 2] errs)
               @ [Error ''Max retries reached. Failed to get summary.'']
       \<and> sleeps (snd (retry_loop e s pt kwargs retries w))
           = sleeps w @ map (\<lambda>k. 2 ^ k) [nat retries + 1..<nat (max_retries s) + 1]
       \<and> llm_calls (snd (retry_loop e s pt kwargs retries w))
           = llm_calls w + (if has_len (content_to_log kwargs) then nat (max_retries s - retries) + 1 else 0)
       \<and> dirs (snd (retry_loop e s pt kwargs retries w)) = dirs w
       \<and> files (snd (retry_loop e s pt kwargs retries w)) = files w"
proof (induction "nat (max_retries s - retries)" arbitrary: retries w)
  case 0
  then have eq: "retries = max_retries s" by simp
  from attempt_fails[OF fail, of pt kwargs w] obtain err where
    a: "attempt e pt kwargs w
           = (Inl err, w\<lparr>llm_calls := llm_calls w + (if has_len (content_to_log kwargs) then 1 else 0)\<rparr>)"
    by blast
  have up: "[nat (max_retries s) + 1..<nat (max_retries s) + 2] = [nat (max_retries s) + 1]"
    by (simp add: upt_rec)
  have k: "int (nat (max_retries s) + 1) = max_retries s + 1" using 0 eq by simp
  let ?w1 = "w\<lparr>llm_calls := llm_calls w + (if has_len (content_to_log kwargs) then 1 else 0)\<rparr>"
  have final: "retry_loop e s pt kwargs retries w =
      (''Error: Failed to generate summary after '' @ str_int (max_retries s + 1)
          @ '' attempts. Last error: '' @ err,
       ?w1\<lparr>logged := logged w @ [failure_entry (nat retries + 1, err),
                                  Error ''Max retries reached. Failed to get summary.'']\<rparr>)"
    by (subst retry_loop.simps) (use 0 a eq k in \<open>simp add: Let_def failure_entry_def add.commute\<close>)
  show ?case
    unfolding final
    by (rule exI[of _ "[err]"]) (use 0 eq up in simp)
next
  case (Suc n)
  then have lt: "retries < max_retries s" by linarith
  from attempt_fails[OF fail, of pt kwargs w] obtain err where
    a: "attempt e pt kwargs w
           = (Inl err, w\<lparr>llm_calls := llm_calls w + (if has_len (content_to_log kwargs) then 1 else 0)\<rparr>)"
    by blast
  let ?w1 = "w\<lparr>llm_calls := llm_calls w + (if has_len (content_to_log kwargs) then 1 else 0)\<rparr>"
  let ?w2 = "?w1\<lparr>logged := logged ?w1
                          @ [Error (''LLM API call failed (attempt '' @ str_int (retries + 1)
                                    @ ''): '' @ err)]\<rparr>"
  let ?w3 = "?w2\<lparr>sleeps := sleeps ?w2 @ [2 ^ nat (retries + 1)]\<rparr>"
  define res where "res = retry_loop e s pt kwargs (retries + 1) ?w3"
  have step: "retry_loop e s pt kwargs retries w = res"
    unfolding res_def by (subst retry_loop.simps) (use lt a in \<open>simp add: Let_def\<close>)
  have n: "n = nat (max_retries s - (retries + 1))" using Suc(2) by linarith
  have k: "int (nat retries + 1) = retries + 1" using Suc(3) by simp
  have nat1: "nat (retries + 1) = nat retries + 1" using Suc(3) by simp
  have l3: "logged ?w3 = logged w @ [failure_entry (nat retries + 1, err)]"
    unfolding failure_entry_def fst_conv snd_conv k by simp
  have s3: "sleeps ?w3 = sleeps w @ [2 ^ (nat retries + 1)]" by (simp add: nat1)
  have c3: "llm_calls ?w3 = llm_calls w + (if has_len (content_to_log kwargs) then 1 else 0)"
    by simp
  have d3: "dirs ?w3 = dirs w" and f3: "files ?w3 = files w" by simp_all
  from Suc(1)[OF n, of ?w3] Suc(3) lt obtain errs where
    len: "length errs = nat (max_retries s - (retries + 1)) + 1"
    and r: "fst res = ''Error: Failed to generate summary after '' @ str_int (max_retries s + 1)
               @ '' attempts. Last error: '' @ last errs"
    and lg: "logged (snd res)
           = logged ?w3 @ map failure_entry (zip [nat (retries + 1) + 1..<nat (max_retries s) + 2] errs)
               @ [Error ''Max retries reached. Failed to get summary.'']"
    and sl: "sleeps (snd res)
           = sleeps ?w3 @ map (\<lambda>k. 2 ^ k) [nat (retries + 1) + 1..<nat (max_retries s) + 1]"
    and calls: "llm_calls (snd res)
           = llm_calls ?w3 + (if has_len (content_to_log kwargs) then nat (max_retries s - (retries + 1)) + 1 else 0)"
    and d: "dirs (snd res) = dirs ?w3"
    and f: "files (snd res) = files ?w3"
    unfolding res_def by auto
  have ne: "errs \<noteq> []" using len by auto
  have up1: "[nat retries + 1..<nat (max_retries s) + 2]
             = (nat retries + 1) # [nat (retries + 1) + 1..<nat (max_retries s) + 2]"
    using lt Suc(3) by (subst upt_rec) (simp add: nat1)
  have up2: "[nat retries + 1..<nat (max_retries s) + 1]
             = (nat retries + 1) # [nat (retries + 1) + 1..<nat (max_retries s) + 1]"
    using lt Suc(3) by (subst upt_rec) (simp add: nat1)
  have cnt: "nat (max_retries s - retries) = nat (max_retries s - (retries + 1)) + 1"
    using lt by linarith
  show ?case
    unfolding step lg sl calls d f l3 s3 c3 d3 f3 r up1 up2 cnt
    by (rule exI[of _ "err # errs"]) (use len ne in simp)
qed

text \<open>
  C2, as amended.  When the mode and the filing type resolve to a prompt template, every
  call of the language model raises and \<^verbatim>\<open>max_retries\<close> is not negative,
  \<^verbatim>\<open>summarize\<close> returns, without raising, the string
  \<^verbatim>\<open>Error: Failed to generate summary after <max_retries + 1> attempts. Last error: ...\<close>,
  after exactly \<open>max_retries + 1\<close> failed attempts (each one logged with its number, each
  one a call of the language model when the content has a length) and after sleeping
  \<open>2, 4, \<dots>, 2 ^ max_retries\<close> seconds between them.
\<close>

theorem summarize_all_calls_fail:
  "fst (get_prompt_template s mode filing_type) = Inr pt
   \<and> (\<forall>n p k. isl (llm_run e n p k)) \<and> 0 \<le> max_retries s \<longrightarrow>
   (\<exists>errs msg.
      fst (summarize e s mode filing_type kwargs w) = Inr msg
      \<and> msg = ''Error: Failed to generate summary after '' @ str_int (max_retries s + 1)
                 @ '' attempts. Last error: '' @ last errs
      \<and> prefix ''Error:'' msg
      \<and> length errs = nat (max_retries s) + 1
      \<and> logged (snd (summarize e s mode filing_type kwargs w))
           = logged w @ snd (get_prompt_template s mode filing_type) @ snd (prepare_kwargs mode filing_type pt kwargs)
               @ map failure_entry (zip [1..<nat (max_retries s) + 2] errs)
               @ [Error ''Max retries reached. Failed to get summary.'']
      \<and> sleeps (snd (summarize e s mode filing_type kwargs w))
           = sleeps w @ map (\<lambda>k. 2 ^ k) [1..<nat (max_retries s) + 1]
      \<and> llm_calls (snd (summarize e s mode filing_type kwargs w))
           = llm_calls w
             + (if has_len (content_to_log (fst (prepare_kwargs mode filing_type pt kwargs)))
                then nat (max_retries s) + 1 else 0))"
proof
  assume h: "fst (get_prompt_template s mode filing_type) = Inr pt
   \<and> (\<forall>n p k. isl (llm_run e n p k)) \<and> 0 \<le> max_retries s"
  obtain msgs where g: "get_prompt_template s mode filing_type = (Inr pt, msgs)"
    using h by (cases "get_prompt_template s mode filing_type") auto
  obtain kwargs1 msgs1 where p: "prepare_kwargs mode filing_type pt kwargs = (kwargs1, msgs1)"
    by (cases "prepare_kwargs mode filing_type pt kwargs") auto
  let ?w0 = "w\<lparr>logged := logged w @ msgs @ msgs1\<rparr>"
  define res where "res = retry_loop e s pt kwargs1 0 ?w0"
  have sm: "summarize e s mode filing_type kwargs w = (Inr (fst res), snd res)"
    by (simp add: summarize_def g p res_def split: prod.splits)
  from h have fail: "\<forall>n p k. isl (llm_run e n p k)" and nn: "0 \<le> max_retries s" by simp_all
  from retry_loop_all_fail[OF fail, of 0 s pt kwargs1 ?w0] nn obtain errs where
    len: "length errs = nat (max_retries s) + 1"
    and r: "fst res = ''Error: Failed to generate summary after '' @ str_int (max_retries s + 1)
               @ '' attempts. Last error: '' @ last errs"
    and lg: "logged (snd res)
           = logged ?w0 @ map failure_entry (zip [1..<nat (max_retries s) + 2] errs)
               @ [Error ''Max retries reached. Failed to get summary.'']"
    and sl: "sleeps (snd res) = sleeps ?w0 @ map (\<lambda>k. 2 ^ k) [1..<nat (max_retries s) + 1]"
    and calls: "llm_calls (snd res)
           = llm_calls ?w0 + (if has_len (content_to_log kwargs1) then nat (max_retries s) + 1 else 0)"
    unfolding res_def by auto
  show "\<exists>errs msg.
      fst (summarize e s mode filing_type kwargs w) = Inr msg
      \<and> msg = ''Error: Failed to generate summary after '' @ str_int (max_retries s + 1)
                 @ '' attempts. Last error: '' @ last errs
      \<and> prefix ''Error:'' msg
      \<and> length errs = nat (max_retries s) + 1
      \<and> logged (snd (summarize e s mode filing_type kwargs w))
           = logged w @ snd (get_prompt_template s mode filing_type) @ snd (prepare_kwargs mode filing_type pt kwargs)
               @ map failure_entry (zip [1..<nat (max_retries s) + 2] errs)
               @ [Error ''Max retries reached. Failed to get summary.'']
      \<and> sleeps (snd (summarize e s mode filing_type kwargs w))
           = sleeps w @ map (\<lambda>k. 2 ^ k) [1..<nat (max_retries s) + 1]
      \<and> llm_calls (snd (summarize e s mode filing_type kwargs w))
           = llm_calls w
             + (if has_len (content_to_log (fst (prepare_kwargs mode filing_type pt kwargs)))
                then nat (max_retries s) + 1 else 0)"
    apply (rule exI[of _ errs])
    apply (rule exI[of _ "fst res"])
    unfolding sm fst_conv snd_conv g p lg sl calls
    using len r by simp
qed

lemma failing_summary:
  "fst (summarize failing_llm_env stub_summarizer ''file'' ''news''
       [(''title'', JStr ''T''), (''content'', JStr ''hello'')] empty_world)
   = Inr ''Error: Failed to generate summary after 3 attempts. Last error: timeout''"
  by code_simp

lemma failing_calls:
  "llm_calls (snd (summarize failing_llm_env stub_summarizer ''file'' ''news''
       [(''title'', JStr ''T''), (''content'', JStr ''hello'')] empty_world)) = 3"
  by code_simp

lemma failing_sleeps:
  "sleeps (snd (summarize failing_llm_env stub_summarizer ''file'' ''news''
       [(''title'', JStr ''T''), (''content'', JStr ''hello'')] empty_world)) = [2, 4]"
  by code_simp

theorem summarize_all_calls_fail_witness:
  "fst (get_prompt_template stub_summarizer ''file'' ''news'')
     = Inr ([''title'', ''text''], ''Summarize {title}: {text}'')
   \<and> (\<forall>n p k. isl (llm_run failing_llm_env n p k))
   \<and> 0 \<le> max_retries stub_summarizer
   \<and> fst (summarize failing_llm_env stub_summarizer ''file'' ''news''
            [(''title'', JStr ''T''), (''content'', JStr ''hello'')] empty_world)
       = Inr ''Error: Failed to generate summary after 3 attempts. Last error: timeout''
   \<and> llm_calls (snd (summarize failing_llm_env stub_summarizer ''file'' ''news''
            [(''title'', JStr ''T''), (''content'', JStr ''hello'')] empty_world)) = 3
   \<and> sleeps (snd (summarize failing_llm_env stub_summarizer ''file'' ''news''
            [(''title'', JStr ''T''), (''content'', JStr ''hello'')] empty_world)) = [2, 4]"
proof -
  have a: "fst (get_prompt_template stub_summarizer ''file'' ''news'')
     = Inr ([''title'', ''text''], ''Summarize {title}: {text}'')" by code_simp
  have b: "\<forall>n p k. isl (llm_run failing_llm_env n p k)"
    by (simp add: failing_llm_env_def stub_env_def)
  have c: "0 \<le> max_retries stub_summarizer" by (simp add: stub_summarizer_def)
  have up: "[1..<nat (max_retries stub_summarizer) + 1] = [1, 2]"
    by (simp add: stub_summarizer_def upt_rec)
  from summarize_all_calls_fail[of stub_summarizer "''file''" "''news''"
         "([''title'', ''text''], ''Summarize {title}: {text}'')" failing_llm_env
         "[(''title'', JStr ''T''), (''content'', JStr ''hello'')]" empty_world] a b c
  have "sleeps (snd (summarize failing_llm_env stub_summarizer ''file'' ''news''
            [(''title'', JStr ''T''), (''content'', JStr ''hello'')] empty_world))
        = sleeps empty_world @ map (\<lambda>k. 2 ^ k) [1..<nat (max_retries stub_summarizer) + 1]"
    by blast
  then have "sleeps (snd (summarize failing_llm_env stub_summarizer ''file'' ''news''
            [(''title'', JStr ''T''), (''content'', JStr ''hello'')] empty_world)) = [2, 4]"
    unfolding up by (simp add: empty_world_def)
  with a b c failing_summary failing_calls show ?thesis by blast
qed

text \<open>
  C2 as stated fails for a negative \<^verbatim>\<open>max_retries\<close>, which neither the constructor nor the
  command line excludes: with \<^verbatim>\<open>max_retries = -1\<close>, a template that resolves and a language
  model whose every call raises, the loop body never runs, and \<^verbatim>\<open>summarize\<close> returns the empty
  string, which does not begin with \<^verbatim>\<open>Error:\<close>, without any attempt.
\<close>

theorem negative_retries_no_error_marker:
  "fst (get_prompt_template negative_retries_summarizer ''file'' ''news'')
     = Inr ([''title'', ''text''], ''Summarize {title}: {text}'')
   \<and> (\<forall>n p k. isl (llm_run failing_llm_env n p k))
   \<and> max_retries negative_retries_summarizer = - 1
   \<and> fst (summarize failing_llm_env negative_retries_summarizer ''file'' ''news''
            [(''title'', JStr ''T''), (''content'', JStr ''hello'')] empty_world) = Inr []
   \<and> \<not> prefix ''Error:'' []
   \<and> llm_calls (snd (summarize failing_llm_env negative_retries_summarizer ''file'' ''news''
            [(''title'', JStr ''T''), (''content'', JStr ''hello'')] empty_world)) = 0
   \<and> sleeps (snd (summarize failing_llm_env negative_retries_summarizer ''file'' ''news''
            [(''title'', JStr ''T''), (''content'', JStr ''hello'')] empty_world)) = []
   \<and> logged (snd (summarize failing_llm_env negative_retries_summarizer ''file'' ''news''
            [(''title'', JStr ''T''), (''content'', JStr ''hello'')] empty_world)) = []"
proof -
  have a: "fst (get_prompt_template negative_retries_summarizer ''file'' ''news'')
     = Inr ([''title'', ''text''], ''Summarize {title}: {text}'')" by code_simp
  have b: "\<forall>n p k. isl (llm_run failing_llm_env n p k)"
    by (simp add: failing_llm_env_def stub_env_def)
  have c: "max_retries negative_retries_summarizer = - 1"
    by (simp add: negative_retries_summarizer_def)
  have d: "fst (summarize failing_llm_env negative_retries_summarizer ''file'' ''news''
            [(''title'', JStr ''T''), (''content'', JStr ''hello'')] empty_world) = Inr []"
    by code_simp
  have e: "llm_calls (snd (summarize failing_llm_env negative_retries_summarizer ''file'' ''news''
            [(''title'', JStr ''T''), (''content'', JStr ''hello'')] empty_world)) = 0"
    by code_simp
  have f: "sleeps (snd (summarize failing_llm_env negative_retries_summarizer ''file'' ''news''
            [(''title'', JStr ''T''), (''content'', JStr ''hello'')] empty_world)) = []"
    by code_simp
  have g: "logged (snd (summarize failing_llm_env negative_retries_summarizer ''file'' ''news''
            [(''title'', JStr ''T''), (''content'', JStr ''hello'')] empty_world)) = []"
    by code_simp
  from a b c d e f g show ?thesis by simp
qed

text \<open>
  C3, as amended.  When neither the filing type nor \<^verbatim>\<open>default\<close> has a template for the
  mode, \<^verbatim>\<open>get_prompt_template\<close> raises \<^verbatim>\<open>ValueError\<close> and \<^verbatim>\<open>summarize\<close> lets it through: the
  call ends in the exception, not in an error string, and no call of the language model,
  no sleep and no write is made.
\<close>

theorem missing_template_raises:
  "(\<forall>pt. lookup_template s filing_type mode \<noteq> Some (Some pt))
   \<and> (\<forall>pt. lookup_template s ''default'' mode \<noteq> Some (Some pt)) \<longrightarrow>
     fst (get_prompt_template s mode filing_type) = Inl (missing_template mode filing_type)
     \<and> fst (summarize e s mode filing_type kwargs w) = Inl (missing_template mode filing_type)
     \<and> llm_calls (snd (summarize e s mode filing_type kwargs w)) = llm_calls w
     \<and> sleeps (snd (summarize e s mode filing_type kwargs w)) = sleeps w
     \<and> files (snd (summarize e s mode filing_type kwargs w)) = files w
     \<and> dirs (snd (summarize e s mode filing_type kwargs w)) = dirs w"
proof
  assume h: "(\<forall>pt. lookup_template s filing_type mode \<noteq> Some (Some pt))
   \<and> (\<forall>pt. lookup_template s ''default'' mode \<noteq> Some (Some pt))"
  then have g: "fst (get_prompt_template s mode filing_type) = Inl (missing_template mode filing_type)"
    by (auto simp: get_prompt_template_def Let_def split: option.splits)
  then obtain msgs where
    "get_prompt_template s mode filing_type = (Inl (missing_template mode filing_type), msgs)"
    by (cases "get_prompt_template s mode filing_type") auto
  then have "summarize e s mode filing_type kwargs w
      = (Inl (missing_template mode filing_type), w\<lparr>logged := logged w @ msgs\<rparr>)"
    by (simp add: summarize_def)
  with g show "fst (get_prompt_template s mode filing_type) = Inl (missing_template mode filing_type)
     \<and> fst (summarize e s mode filing_type kwargs w) = Inl (missing_template mode filing_type)
     \<and> llm_calls (snd (summarize e s mode filing_type kwargs w)) = llm_calls w
     \<and> sleeps (snd (summarize e s mode filing_type kwargs w)) = sleeps w
     \<and> files (snd (summarize e s mode filing_type kwargs w)) = files w
     \<and> dirs (snd (summarize e s mode filing_type kwargs w)) = dirs w"
    by simp
qed

lemma no_template_lookup:
  "lookup_template no_template_summarizer ''default'' ''file'' = Some None"
  by (simp add: lookup_template_def no_template_summarizer_def)

theorem missing_template_raises_witness:
  "(\<forall>pt. lookup_template no_template_summarizer ''default'' ''file'' \<noteq> Some (Some pt))
   \<and> fst (summarize stub_env no_template_summarizer ''file'' ''default''
             [(''title'', JStr ''Test''), (''content'', JStr ''Test content'')] empty_world)
       = Inl (missing_template ''file'' ''default'')
   \<and> llm_calls (snd (summarize stub_env no_template_summarizer ''file'' ''default''
             [(''title'', JStr ''Test''), (''content'', JStr ''Test content'')] empty_world)) = 0"
  using missing_template_raises[of no_template_summarizer "''default''" "''file''" stub_env
          "[(''title'', JStr ''Test''), (''content'', JStr ''Test content'')]" empty_world]
  by (simp add: no_template_lookup empty_world_def)

text \<open>
  C3 as stated fails: with a prompt set whose only template file is missing, \<^verbatim>\<open>summarize\<close>
  ends in \<^verbatim>\<open>ValueError\<close>, and a run over two filings ends in the same exception at the first
  of them.
\<close>

theorem missing_template_aborts_batch:
  "fst (summarize stub_env no_template_summarizer ''file'' ''default''
             [(''title'', JStr ''Test''), (''content'', JStr ''Test content'')] empty_world)
       = Inl (ValueError ''Missing prompt template for mode 'file' (filing_type: 'default')'')
   \<and> run_summarization stub_env stub_lib (stub_config\<lparr>cfg_summarizer := no_template_summarizer\<rparr>)
         ''file'' [''in/a.json'', ''in/b.json''] empty_world
       = Some (Inl (ValueError ''Missing prompt template for mode 'file' (filing_type: 'default')''))"
  by code_simp

section \<open>Claims about the modes of the orchestrator\<close>

lemma node_mode_skips_news:
  assumes "is_news_path filepath" "read_json e filepath = Parsed data"
    and "\<not> makedirs_fails e (path_join (path_join (cfg_output_dir cfg) ''node-level'')
                                 (relpath_dirname lib filepath (cfg_input_dir cfg)))"
  shows "process_file e lib cfg ''node'' filepath w
         = Some (Inr (w\<lparr>dirs := insert (path_join (path_join (cfg_output_dir cfg) ''node-level'')
                                 (relpath_dirname lib filepath (cfg_input_dir cfg))) (dirs w)\<rparr>))"
  using assms by (simp add: process_file_def Let_def)

text \<open>
  C9 at a news article in node mode: the file is read, its output directory is made, and
  nothing else happens: no section is extracted, no summarizer call is made, no file is
  written, and no warning is logged either.
\<close>

theorem node_mode_news_no_warning:
  "is_news_path ''data/news/reg/2025-01/a.json''
   \<and> process_file stub_env stub_lib stub_config ''node'' ''data/news/reg/2025-01/a.json'' empty_world
       = Some (Inr \<lparr>dirs = {''out/node-level/''}, files = [], llm_calls = 0, sleeps = [], logged = []\<rparr>)"
  by code_simp

section \<open>The run never deletes\<close>

lemma world_le_refl: "world_le w w"
  by (simp add: world_le_def)

lemma world_le_trans: "world_le a b \<Longrightarrow> world_le b c \<Longrightarrow> world_le a c"
  by (auto simp: world_le_def)

lemma same_node_refl: "same_node_summaries w w"
  by (simp add: same_node_summaries_def)

lemma same_node_trans:
  "same_node_summaries a b \<Longrightarrow> same_node_summaries b c \<Longrightarrow> same_node_summaries a c"
  by (simp add: same_node_summaries_def)

lemma is_cached_mono: "is_cached cm w h \<Longrightarrow> world_le w w' \<Longrightarrow> is_cached cm w' h"
  by (auto simp: is_cached_def path_exists_def world_le_def split: if_splits)

lemma attempt_store:
  "dirs (snd (attempt e pt kwargs w)) = dirs w \<and> files (snd (attempt e pt kwargs w)) = files w"
  by (simp add: attempt_def)

lemma retry_loop_store:
  "dirs (snd (retry_loop e s pt kwargs retries w)) = dirs w
   \<and> files (snd (retry_loop e s pt kwargs retries w)) = files w"
proof (induction e s pt kwargs retries w rule: retry_loop.induct)
  case (1 e s pt kwargs retries w)
  show ?case
  proof (cases "retries \<le> max_retries s")
    case False
    then show ?thesis by (subst (1 2) retry_loop.simps) simp
  next
    case True
    obtain r w1 where a: "attempt e pt kwargs w = (r, w1)" by (cases "attempt e pt kwargs w")
    with attempt_store[of e pt kwargs w] have st: "dirs w1 = dirs w" "files w1 = files w" by simp_all
    show ?thesis
    proof (cases r)
      case (Inr response)
      with True a st show ?thesis by (subst (1 2) retry_loop.simps) simp
    next
      case (Inl err)
      show ?thesis
      proof (cases "retries + 1 > max_retries s")
        case T: True
        with True a st Inl show ?thesis by (subst (1 2) retry_loop.simps) (simp add: Let_def)
      next
        case F: False
        from "1.IH"[OF True a[symmetric] Inl refl refl F] True a st Inl F
        show ?thesis by (subst (1 2) retry_loop.simps) (simp add: Let_def)
      qed
    qed
  qed
qed

lemma summarize_store:
  "dirs (snd (summarize e s mode ft kwargs w)) = dirs w
   \<and> files (snd (summarize e s mode ft kwargs w)) = files w"
proof (cases "get_prompt_template s mode ft")
  case (Pair r msgs)
  show ?thesis
  proof (cases r)
    case (Inl err)
    with Pair show ?thesis by (simp add: summarize_def)
  next
    case (Inr pt)
    obtain kw1 msgs1 where p: "prepare_kwargs mode ft pt kwargs = (kw1, msgs1)"
      by (cases "prepare_kwargs mode ft pt kwargs")
    obtain r1 w1 where rl: "retry_loop e s pt kw1 0 (w\<lparr>logged := logged w @ msgs @ msgs1\<rparr>) = (r1, w1)"
      by (cases "retry_loop e s pt kw1 0 (w\<lparr>logged := logged w @ msgs @ msgs1\<rparr>)")
    from retry_loop_store[of e s pt kw1 0 "w\<lparr>logged := logged w @ msgs @ msgs1\<rparr>"] rl
    have "dirs w1 = dirs w \<and> files w1 = files w" by simp
    then show ?thesis using Pair Inr p rl by (simp add: summarize_def)
  qed
qed

lemma mark_cached_le: "world_le w (mark_cached e cm h m w)"
  by (auto simp: mark_cached_def world_le_def)

lemma mark_cached_cached:
  "enabled cm \<Longrightarrow> \<not> write_fails e (cache_file_path cm h) \<Longrightarrow> is_cached cm (mark_cached e cm h m w) h"
  by (simp add: mark_cached_def is_cached_def path_exists_def)

lemma write_file_le: "world_le w (write_file e what body path w)"
  by (auto simp: write_file_def world_le_def)

lemma write_file_calls: "llm_calls (write_file e what body path w) = llm_calls w"
  by (simp add: write_file_def)

lemma write_file_same_node:
  "\<not> node_like path \<Longrightarrow> same_node_summaries w (write_file e what body path w)"
  by (auto simp: write_file_def same_node_summaries_def)

lemma cache_path_not_node: "\<not> node_like (cache_file_path cm h)"
proof
  assume "node_like (cache_file_path cm h)"
  then obtain x d where "path_join (cache_dir cm) (h @ ''.cache'') = x @ d # ''_summary.md''"
    by (auto simp: node_like_def cache_file_path_def)
  then have "last (path_join (cache_dir cm) (h @ ''.cache'')) = CHR ''d''" by simp
  moreover have "last (path_join (cache_dir cm) (h @ ''.cache'')) = CHR ''e''"
    by (simp add: path_join_def)
  ultimately show False by simp
qed

lemma mark_cached_same_node: "same_node_summaries w (mark_cached e cm h m w)"
  using cache_path_not_node[of cm h]
  by (auto simp: mark_cached_def same_node_summaries_def)

lemma write_summary_props:
  "world_le w (write_summary e t p w) \<and> llm_calls (write_summary e t p w) = llm_calls w
   \<and> (\<not> node_like p \<longrightarrow> same_node_summaries w (write_summary e t p w))"
  by (simp add: write_summary_def write_file_le write_file_calls write_file_same_node)

lemma write_metadata_props:
  "world_le w (write_metadata e lib m p w) \<and> llm_calls (write_metadata e lib m p w) = llm_calls w
   \<and> (\<not> node_like p \<longrightarrow> same_node_summaries w (write_metadata e lib m p w))"
  by (simp add: write_metadata_def write_file_le write_file_calls write_file_same_node)

lemma summarize_le: "world_le w (snd (summarize e s mode ft kwargs w))"
  using summarize_store[of e s mode ft kwargs w] by (simp add: world_le_def)

lemma summarize_same_node: "same_node_summaries w (snd (summarize e s mode ft kwargs w))"
  using summarize_store[of e s mode ft kwargs w] by (simp add: same_node_summaries_def)

lemma summarize_and_write_props:
  assumes run: "summarize_and_write e lib cfg mode ft kwargs h paths margs w = Inr w'"
  shows "world_le w w'"
    and "enabled (cfg_cache cfg) \<Longrightarrow> \<not> write_fails e (cache_file_path (cfg_cache cfg) h)
         \<Longrightarrow> is_cached (cfg_cache cfg) w' h"
    and "paths = Inr (md, js) \<Longrightarrow> \<not> node_like md \<Longrightarrow> \<not> node_like js \<Longrightarrow> same_node_summaries w w'"
proof -
  obtain r w1 where s: "summarize e (cfg_summarizer cfg) mode ft kwargs w = (r, w1)"
    by (cases "summarize e (cfg_summarizer cfg) mode ft kwargs w")
  from run s obtain summary_text where r: "r = Inr summary_text"
    by (cases r) (simp_all add: summarize_and_write_def)
  let ?w2 = "mark_cached e (cfg_cache cfg) h JNull w1"
  from run s r obtain md' js' where p: "paths = Inr (md', js')"
    by (cases paths) (auto simp: summarize_and_write_def Let_def)
  from run s r p obtain meta where
    w': "w' = write_metadata e lib meta js' (write_summary e summary_text md' ?w2)"
    by (auto simp: summarize_and_write_def Let_def split: sum.splits)
  have le1: "world_le w w1" using summarize_le[of w e "cfg_summarizer cfg" mode ft kwargs] s by simp
  have le2: "world_le w1 ?w2" by (rule mark_cached_le)
  have le3: "world_le ?w2 (write_summary e summary_text md' ?w2)"
    using write_summary_props by blast
  have le4: "world_le (write_summary e summary_text md' ?w2) w'"
    unfolding w' using write_metadata_props by blast
  show "world_le w w'" using le1 le2 le3 le4 world_le_trans by blast
  show "is_cached (cfg_cache cfg) w' h"
    if "enabled (cfg_cache cfg)" "\<not> write_fails e (cache_file_path (cfg_cache cfg) h)"
    using mark_cached_cached[OF that, of JNull w1] le3 le4 is_cached_mono world_le_trans by blast
  show "same_node_summaries w w'" if "paths = Inr (md, js)" "\<not> node_like md" "\<not> node_like js"
  proof -
    from that p have eq: "md' = md" "js' = js" by simp_all
    have n1: "same_node_summaries w w1"
      using summarize_same_node[of w e "cfg_summarizer cfg" mode ft kwargs] s by simp
    have n2: "same_node_summaries w1 ?w2" by (rule mark_cached_same_node)
    have n3: "same_node_summaries ?w2 (write_summary e summary_text md' ?w2)"
      using write_summary_props that eq by blast
    have n4: "same_node_summaries (write_summary e summary_text md' ?w2) w'"
      unfolding w' using write_metadata_props that eq by blast
    show ?thesis using n1 n2 n3 n4 same_node_trans by blast
  qed
qed

section \<open>A second pass over a file finds its keys in the cache\<close>

lemma log_only_le: "world_le w (w\<lparr>logged := l\<rparr>)"
  by (simp add: world_le_def)

lemma log_only_same: "same_node_summaries w (w\<lparr>logged := l\<rparr>)"
  by (simp add: same_node_summaries_def)

lemma add_dir_le: "world_le w (w\<lparr>dirs := insert d (dirs w)\<rparr>)"
  by (auto simp: world_le_def)

lemma add_dir_same: "same_node_summaries w (w\<lparr>dirs := insert d (dirs w)\<rparr>)"
  by (simp add: same_node_summaries_def)

lemma file_mode_gate_grows:
  assumes "file_mode_gate e lib cfg ctx kwargs tts method w = Inr w1"
  shows "world_le w w1"
proof (cases tts)
  case (JStr t)
  show ?thesis
  proof (cases "strip t = []")
    case True
    with assms JStr show ?thesis by (auto simp: file_mode_gate_def log_only_le)
  next
    case False
    let ?h = "hash_content lib (t @ json_dumps (JDict kwargs))"
    show ?thesis
    proof (cases "is_cached (cfg_cache cfg) w ?h")
      case True
      with assms JStr False show ?thesis by (simp add: file_mode_gate_def Let_def world_le_refl)
    next
      case F: False
      with assms JStr False show ?thesis
        by (auto simp: file_mode_gate_def Let_def dest: summarize_and_write_props(1))
    qed
  qed
qed (use assms in \<open>simp_all add: file_mode_gate_def\<close>)

lemma file_mode_gate_again:
  assumes first: "file_mode_gate e lib cfg ctx kwargs tts method w = Inr w1"
    and ok: "cache_ok e cfg" and le: "world_le w1 w2"
  shows "\<exists>w3. file_mode_gate e' lib cfg ctx kwargs tts method w2 = Inr w3
           \<and> llm_calls w3 = llm_calls w2 \<and> files w3 = files w2 \<and> dirs w3 = dirs w2"
proof (cases tts)
  case (JStr t)
  show ?thesis
  proof (cases "strip t = []")
    case True
    with JStr show ?thesis by (simp add: file_mode_gate_def)
  next
    case False
    let ?h = "hash_content lib (t @ json_dumps (JDict kwargs))"
    have "is_cached (cfg_cache cfg) w1 ?h"
    proof (cases "is_cached (cfg_cache cfg) w ?h")
      case True
      with first JStr False show ?thesis by (simp add: file_mode_gate_def Let_def)
    next
      case F: False
      with first JStr False obtain paths margs where
        "summarize_and_write e lib cfg ''file'' (ctx_filing_type ctx)
           (dict_set kwargs ''content'' (JStr t)) ?h paths margs w = Inr w1"
        by (auto simp: file_mode_gate_def Let_def)
      from summarize_and_write_props(2)[OF this] ok show ?thesis by (simp add: cache_ok_def)
    qed
    then have "is_cached (cfg_cache cfg) w2 ?h" using le by (rule is_cached_mono)
    with JStr False show ?thesis by (simp add: file_mode_gate_def Let_def)
  qed
qed (use first in \<open>simp_all add: file_mode_gate_def\<close>)


lemma news_text_not_dynamic:
  assumes "estimate_tokens_of body = Inr est" "est \<le> content_token_limit"
  shows "news_text_to_summarize e s ctx kwargs body w = (Inr (body, ''none''), w)"
  using assms by (simp add: news_text_to_summarize_def)

lemma news_text_raises:
  assumes "estimate_tokens_of body = Inl err"
  shows "news_text_to_summarize e s ctx kwargs body w = (Inl err, w)"
  using assms by (simp add: news_text_to_summarize_def)

lemma process_file_mode_cases:
  assumes first: "process_file_mode e lib cfg ctx w = Inr w1"
    and nd: "ctx_is_news ctx \<Longrightarrow> \<forall>kvs est. ctx_data ctx = JDict kvs \<longrightarrow>
               estimate_tokens_of (dict_get kvs ''content'' (JStr [])) = Inr est \<longrightarrow>
               est \<le> content_token_limit"
  shows "\<exists>kwargs tts. file_mode_gate e lib cfg ctx kwargs tts ''none'' w = Inr w1
           \<and> (\<forall>e' w2. today e' = today e \<longrightarrow>
                 process_file_mode e' lib cfg ctx w2
                   = file_mode_gate e' lib cfg ctx kwargs tts ''none'' w2)"
proof (cases "ctx_is_news ctx")
  case True
  from first True obtain kvs where d: "ctx_data ctx = JDict kvs"
    by (cases "ctx_data ctx") (simp_all add: process_file_mode_def)
  let ?body = "dict_get kvs ''content'' (JStr [])"
  let ?kw = "[(''title'', dict_get kvs ''title'' (JStr (ctx_base_name ctx)))]"
  show ?thesis
  proof (cases "estimate_tokens_of ?body")
    case (Inl err)
    from news_text_raises[OF this] first True d show ?thesis
      by (simp add: process_file_mode_def Let_def)
  next
    case (Inr est)
    with nd[OF True] d have "est \<le> content_token_limit" by blast
    from news_text_not_dynamic[OF Inr this] first True d show ?thesis
      by (intro exI[of _ ?kw] exI[of _ ?body]) (simp add: process_file_mode_def Let_def)
  qed
next
  case False
  from first False obtain t where dt: "document_title lib (ctx_data ctx) (ctx_filing_type ctx) = Inr t"
    by (cases "document_title lib (ctx_data ctx) (ctx_filing_type ctx)")
       (simp_all add: process_file_mode_def)
  with first False show ?thesis
    by (intro exI[of _ "[(''source_filename'', JStr (ctx_base_name_ext ctx)),
                (''effective_filing_type'', JStr (ctx_filing_type ctx)),
                (''document_title'', t),
                (''current_date'', JStr (today e))]"]
              exI[of _ "JStr (get_full_text lib (ctx_data ctx))"])
       (simp add: process_file_mode_def)
qed

lemma process_cross_mode_grows:
  assumes "process_cross_mode e lib cfg ctx w = Inr w1"
  shows "world_le w w1"
proof -
  let ?w1 = "w\<lparr>logged := logged w
                   @ [Warning (''Cross-sectional mode is not designed to run on individual files like ''
                               @ ctx_filepath ctx)]\<rparr>"
  have a: "world_le w ?w1" by (rule log_only_le)
  from assms have "w1 = ?w1 \<or> (\<exists>m ft kw h paths margs. summarize_and_write e lib cfg m ft kw h paths margs ?w1 = Inr w1)"
    by (auto simp: process_cross_mode_def Let_def split: if_splits)
  then show ?thesis
    using a summarize_and_write_props(1) world_le_trans by blast
qed

lemma process_cross_mode_again:
  assumes first: "process_cross_mode e lib cfg ctx w = Inr w1"
    and ok: "cache_ok e cfg" and le: "world_le w1 w2"
  shows "\<exists>w3. process_cross_mode e' lib cfg ctx w2 = Inr w3
           \<and> llm_calls w3 = llm_calls w2 \<and> files w3 = files w2 \<and> dirs w3 = dirs w2"
proof (cases "strip (get_full_text lib (ctx_data ctx)) = []")
  case True
  then show ?thesis by (simp add: process_cross_mode_def Let_def)
next
  case False
  let ?theme = "case cfg_theme cfg of Some t \<Rightarrow> t | None \<Rightarrow> ''general_cross_summary''"
  let ?h = "hash_content lib
                  (ctx_filepath ctx @ '':cross:'' @ ?theme @ '':'' @ get_full_text lib (ctx_data ctx))"
  let ?w1 = "w\<lparr>logged := logged w
                   @ [Warning (''Cross-sectional mode is not designed to run on individual files like ''
                               @ ctx_filepath ctx)]\<rparr>"
  let ?w2 = "w2\<lparr>logged := logged w2
                   @ [Warning (''Cross-sectional mode is not designed to run on individual files like ''
                               @ ctx_filepath ctx)]\<rparr>"
  have "is_cached (cfg_cache cfg) w1 ?h"
  proof (cases "is_cached (cfg_cache cfg) ?w1 ?h")
    case True
    with first False show ?thesis by (simp add: process_cross_mode_def Let_def)
  next
    case F: False
    with first False obtain m ft kw paths margs where
      "summarize_and_write e lib cfg m ft kw ?h paths margs ?w1 = Inr w1"
      by (auto simp: process_cross_mode_def Let_def)
    from summarize_and_write_props(2)[OF this] ok show ?thesis by (simp add: cache_ok_def)
  qed
  then have "is_cached (cfg_cache cfg) w2 ?h" using le by (rule is_cached_mono)
  then have "is_cached (cfg_cache cfg) ?w2 ?h" using log_only_le is_cached_mono by blast
  with False show ?thesis by (simp add: process_cross_mode_def Let_def)
qed


lemma node_sections_grows:
  "node_sections e lib cfg ctx i secs w = Inr w1 \<Longrightarrow> world_le w w1"
proof (induction secs arbitrary: i w)
  case Nil
  then show ?case by (simp add: world_le_refl)
next
  case (Cons sec rest)
  obtain sec_title sec_text where sec: "sec = (sec_title, sec_text)" by (cases sec)
  let ?sec_id = "''section_'' @ str_nat (i + 1)"
  let ?h = "hash_content lib (ctx_filepath ctx @ '':'' @ ?sec_id @ '':'' @ sec_text)"
  show ?case
  proof (cases "strip sec_text = []")
    case True
    with Cons.prems sec have "node_sections e lib cfg ctx (i + 1) rest w = Inr w1"
      by (simp add: Let_def)
    then show ?thesis by (rule Cons.IH)
  next
    case False
    show ?thesis
    proof (cases "is_cached (cfg_cache cfg) w ?h")
      case True
      with Cons.prems sec False have "node_sections e lib cfg ctx (i + 1) rest w = Inr w1"
        by (simp add: Let_def)
      then show ?thesis by (rule Cons.IH)
    next
      case F: False
      with Cons.prems sec False obtain m ft kw paths margs wm where
        sw: "summarize_and_write e lib cfg m ft kw ?h paths margs w = Inr wm"
        and rest: "node_sections e lib cfg ctx (i + 1) rest wm = Inr w1"
        by (auto simp: Let_def split: sum.splits)
      from summarize_and_write_props(1)[OF sw] Cons.IH[OF rest] show ?thesis
        by (rule world_le_trans)
    qed
  qed
qed

lemma node_sections_again:
  "node_sections e lib cfg ctx i secs w = Inr w1 \<Longrightarrow> cache_ok e cfg \<Longrightarrow> world_le w1 w2
   \<Longrightarrow> node_sections e' lib cfg ctx i secs w2 = Inr w2"
proof (induction secs arbitrary: i w)
  case Nil
  then show ?case by simp
next
  case (Cons sec rest)
  obtain sec_title sec_text where sec: "sec = (sec_title, sec_text)" by (cases sec)
  let ?sec_id = "''section_'' @ str_nat (i + 1)"
  let ?h = "hash_content lib (ctx_filepath ctx @ '':'' @ ?sec_id @ '':'' @ sec_text)"
  show ?case
  proof (cases "strip sec_text = []")
    case True
    with Cons.prems sec have "node_sections e lib cfg ctx (i + 1) rest w = Inr w1"
      by (simp add: Let_def)
    from Cons.IH[OF this Cons.prems(2,3)] True sec show ?thesis by (simp add: Let_def)
  next
    case False
    have "\<exists>wm. node_sections e lib cfg ctx (i + 1) rest wm = Inr w1
               \<and> is_cached (cfg_cache cfg) wm ?h"
    proof (cases "is_cached (cfg_cache cfg) w ?h")
      case True
      with Cons.prems sec False show ?thesis by (auto simp: Let_def)
    next
      case F: False
      with Cons.prems sec False obtain m ft kw paths margs wm where
        sw: "summarize_and_write e lib cfg m ft kw ?h paths margs w = Inr wm"
        and rest: "node_sections e lib cfg ctx (i + 1) rest wm = Inr w1"
        by (auto simp: Let_def split: sum.splits)
      from summarize_and_write_props(2)[OF sw] Cons.prems(2)
      have "is_cached (cfg_cache cfg) wm ?h" by (simp add: cache_ok_def)
      with rest show ?thesis by blast
    qed
    then obtain wm where rest: "node_sections e lib cfg ctx (i + 1) rest wm = Inr w1"
      and c: "is_cached (cfg_cache cfg) wm ?h" by blast
    from node_sections_grows[OF rest] Cons.prems(3) have "world_le wm w2"
      by (rule world_le_trans)
    with c have "is_cached (cfg_cache cfg) w2 ?h" by (rule is_cached_mono)
    with Cons.IH[OF rest Cons.prems(2,3)] False sec show ?thesis by (simp add: Let_def)
  qed
qed

lemma process_node_mode_grows:
  assumes "process_node_mode e lib cfg ctx w = Inr w1"
  shows "world_le w w1"
proof (cases "get_sections_from_json lib (ctx_data ctx) 50")
  case (Inl err)
  with assms show ?thesis by (simp add: process_node_mode_def)
next
  case (Inr secs)
  with assms show ?thesis
    by (auto simp: process_node_mode_def log_only_le split: if_splits dest: node_sections_grows)
qed

lemma process_node_mode_again:
  assumes first: "process_node_mode e lib cfg ctx w = Inr w1"
    and ok: "cache_ok e cfg" and le: "world_le w1 w2"
  shows "\<exists>w3. process_node_mode e' lib cfg ctx w2 = Inr w3
           \<and> llm_calls w3 = llm_calls w2 \<and> files w3 = files w2 \<and> dirs w3 = dirs w2"
proof (cases "get_sections_from_json lib (ctx_data ctx) 50")
  case (Inl err)
  with first show ?thesis by (simp add: process_node_mode_def)
next
  case (Inr secs)
  show ?thesis
  proof (cases "secs = []")
    case True
    with Inr show ?thesis by (simp add: process_node_mode_def)
  next
    case False
    with first Inr have "node_sections e lib cfg ctx 0 secs w = Inr w1"
      by (simp add: process_node_mode_def)
    from node_sections_again[OF this ok le, of e'] Inr False show ?thesis
      by (simp add: process_node_mode_def)
  qed
qed

lemma digit_char_digits: "\<forall>d \<in> set [0..<10]. digit_char d \<in> set ''0123456789''"
  by code_simp

lemma digit_char_digit: "d < 10 \<Longrightarrow> digit_char d \<in> set ''0123456789''"
proof -
  assume "d < 10"
  then have "d \<in> set [0..<10]" by simp
  with digit_char_digits show ?thesis by blast
qed

lemma str_nat_last: "\<exists>ys d. str_nat i = ys @ [d] \<and> d \<in> set ''0123456789''"
proof (cases "i < 10")
  case True
  then have "str_nat i = [] @ [digit_char i]" by (subst str_nat.simps) simp
  with digit_char_digit[OF True] show ?thesis by blast
next
  case False
  then have "str_nat i = str_nat (i div 10) @ [digit_char (i mod 10)]"
    by (subst str_nat.simps) simp
  moreover have "digit_char (i mod 10) \<in> set ''0123456789''" by (rule digit_char_digit) simp
  ultimately show ?thesis by blast
qed

lemma path_join_suffix: "\<exists>x. path_join a b = x @ b"
  by (auto simp: path_join_def intro: exI[of _ "[]"])

lemma node_summary_path_like: "node_like (node_summary_path bd bn i)"
proof -
  obtain x where x: "node_summary_path bd bn i = x @ bn @ ''_section_'' @ str_nat i @ ''_summary.md''"
    using path_join_suffix[of bd "bn @ ''_section_'' @ str_nat i @ ''_summary.md''"]
    by (auto simp: node_summary_path_def)
  obtain ys d where d: "str_nat i = ys @ [d]" "d \<in> set ''0123456789''"
    using str_nat_last by blast
  have "node_summary_path bd bn i = (x @ bn @ ''_section_'' @ ys) @ d # ''_summary.md''"
    unfolding x d by simp
  with d(2) show ?thesis unfolding node_like_def by blast
qed

lemma master_md_not_node: "\<not> node_like (path_join a (b @ ''_master_summary.md''))"
proof
  assume "node_like (path_join a (b @ ''_master_summary.md''))"
  then obtain y d where eq: "path_join a (b @ ''_master_summary.md'') = y @ d # ''_summary.md''"
    and d: "d \<in> set ''0123456789''" by (auto simp: node_like_def)
  obtain x where x: "path_join a (b @ ''_master_summary.md'') = x @ b @ ''_master_summary.md''"
    using path_join_suffix by blast
  have "(x @ b @ ''_maste'') @ CHR ''r'' # ''_summary.md'' = y @ d # ''_summary.md''"
    using eq x by simp
  then have "d = CHR ''r''"
    using append_eq_append_conv[where xs = "x @ b @ ''_maste''" and ys = y
        and us = "CHR ''r'' # ''_summary.md''" and vs = "d # ''_summary.md''"]
    by simp
  with d show False by simp
qed

lemma master_json_not_node: "\<not> node_like (path_join a (b @ ''_master_meta.json''))"
proof
  assume "node_like (path_join a (b @ ''_master_meta.json''))"
  then obtain y d where eq: "path_join a (b @ ''_master_meta.json'') = y @ d # ''_summary.md''"
    by (auto simp: node_like_def)
  then have "last (path_join a (b @ ''_master_meta.json'')) = CHR ''d''" by simp
  moreover have "last (path_join a (b @ ''_master_meta.json'')) = CHR ''n''"
    by (simp add: path_join_def)
  ultimately show False by simp
qed

lemma read_node_summaries_again:
  assumes run: "read_node_summaries e w bd bn i acc = Some r"
  shows "same_node_summaries w w' \<longrightarrow> read_fails e' = read_fails e \<longrightarrow>
         (\<exists>ms'. read_node_summaries e' w' bd bn i acc = Some (fst r, ms'))"
proof (rule read_node_summaries.raw_induct[where P = "\<lambda>e w bd bn i acc r.
    same_node_summaries w w' \<longrightarrow> read_fails e' = read_fails e \<longrightarrow>
         (\<exists>ms'. read_node_summaries e' w' bd bn i acc = Some (fst r, ms'))", OF _ run], goal_cases)
  case (1 scan e w bd bn i acc r)
  let ?p = "node_summary_path bd bn i"
  show ?case
  proof (intro impI)
    assume same: "same_node_summaries w w'" and rf: "read_fails e' = read_fails e"
    have f: "map_of (files w') ?p = map_of (files w) ?p"
      using same node_summary_path_like[of bd bn i] by (simp add: same_node_summaries_def)
    show "\<exists>ms'. read_node_summaries e' w' bd bn i acc = Some (fst r, ms')"
    proof (cases "\<not> read_fails e ?p \<and> map_of (files w) ?p \<noteq> None")
      case True
      then obtain body where b: "map_of (files w) ?p = Some body" by auto
      with True "1"(2) have "scan e w bd bn (i + 1) (acc @ [body]) = Some r"
        by (simp add: path_exists_def)
      from "1"(1)[OF this] same rf obtain ms' where
        "read_node_summaries e' w' bd bn (i + 1) (acc @ [body]) = Some (fst r, ms')" by blast
      with True b f rf show ?thesis
        by (subst read_node_summaries.simps) (simp add: path_exists_def)
    next
      case False
      with "1"(2) have "fst r = acc"
        by (auto simp: path_exists_def split: if_splits option.splits)
      with False f rf show ?thesis
        by (subst read_node_summaries.simps) (auto simp: path_exists_def)
    qed
  qed
qed


lemma is_cached_logged [simp]: "is_cached cm (w\<lparr>logged := l\<rparr>) h = is_cached cm w h"
  by (simp add: is_cached_def path_exists_def)

lemma process_master_mode_grows:
  assumes first: "process_master_mode e lib cfg ctx w = Some (Inr w1)"
  shows "world_le w w1 \<and> same_node_summaries w w1"
proof -
  let ?bd = "path_join (path_join (cfg_output_dir cfg) ''node-level'') (ctx_rel_dir ctx)"
  from first obtain ss ms where scan: "read_node_summaries e w ?bd (ctx_base_name ctx) 1 [] = Some (ss, ms)"
    by (auto simp: process_master_mode_def split: option.splits)
  let ?w1 = "w\<lparr>logged := logged w @ ms\<rparr>"
  let ?h = "hash_content lib (ctx_filepath ctx @ '':master_from_nodes:''
              @ join [CHR 0x0A, CHR 0x0A, CHR ''-'', CHR ''-'', CHR ''-'', CHR 0x0A, CHR 0x0A] ss)"
  have base: "world_le w ?w1" "same_node_summaries w ?w1"
    by (rule log_only_le, rule log_only_same)
  show ?thesis
  proof (cases "ss = []")
    case True
    with first scan have "w1 = ?w1\<lparr>logged := logged ?w1
        @ [Warning (''No node-level summaries found for '' @ ctx_filepath ctx
                    @ ''. Cannot generate master summary. Skipping.'')]\<rparr>"
      by (simp add: process_master_mode_def Let_def)
    then show ?thesis by (simp add: world_le_def same_node_summaries_def)
  next
    case False
    show ?thesis
    proof (cases "is_cached (cfg_cache cfg) w ?h")
      case True
      with first scan False have "w1 = ?w1" by (simp add: process_master_mode_def Let_def)
      with base show ?thesis by simp
    next
      case nc: False
      from first scan False nc obtain t where
        sw: "summarize_and_write e lib cfg ''master'' (ctx_filing_type ctx)
               [(''content'', JStr (join [CHR 0x0A, CHR 0x0A, CHR ''-'', CHR ''-'', CHR ''-'', CHR 0x0A, CHR 0x0A] ss)),
                (''document_title'', t),
                (''effective_filing_type'', JStr (ctx_filing_type ctx)),
                (''current_date'', JStr (today e))]
               ?h
               (Inr (path_join (ctx_out_dir ctx) (ctx_base_name ctx @ ''_master_summary.md''),
                     path_join (ctx_out_dir ctx) (ctx_base_name ctx @ ''_master_meta.json'')))
               [(''source_path'', JStr (ctx_filepath ctx)), (''mode'', JStr ''master''),
                (''doc_type'', JStr (ctx_filing_type ctx))]
               ?w1 = Inr w1"
        by (auto simp: process_master_mode_def Let_def split: sum.splits)
      from summarize_and_write_props(1)[OF sw]
        summarize_and_write_props(3)[OF sw refl master_md_not_node master_json_not_node]
      have "world_le ?w1 w1" "same_node_summaries ?w1 w1" .
      with base show ?thesis
        by (meson world_le_trans same_node_trans)
    qed
  qed
qed

lemma process_master_mode_again:
  assumes first: "process_master_mode e lib cfg ctx w = Some (Inr w1)"
    and ok: "cache_ok e cfg" and le: "world_le w1 w2" and same: "same_node_summaries w w2"
    and rf: "read_fails e' = read_fails e"
  shows "\<exists>w3. process_master_mode e' lib cfg ctx w2 = Some (Inr w3)
           \<and> llm_calls w3 = llm_calls w2 \<and> files w3 = files w2 \<and> dirs w3 = dirs w2"
proof -
  let ?bd = "path_join (path_join (cfg_output_dir cfg) ''node-level'') (ctx_rel_dir ctx)"
  from first obtain ss ms where scan: "read_node_summaries e w ?bd (ctx_base_name ctx) 1 [] = Some (ss, ms)"
    by (auto simp: process_master_mode_def split: option.splits)
  from read_node_summaries_again[OF scan, of w2 e'] same rf obtain ms' where
    scan': "read_node_summaries e' w2 ?bd (ctx_base_name ctx) 1 [] = Some (ss, ms')"
    by auto
  let ?w1 = "w\<lparr>logged := logged w @ ms\<rparr>"
  let ?h = "hash_content lib (ctx_filepath ctx @ '':master_from_nodes:''
              @ join [CHR 0x0A, CHR 0x0A, CHR ''-'', CHR ''-'', CHR ''-'', CHR 0x0A, CHR 0x0A] ss)"
  show ?thesis
  proof (cases "ss = []")
    case True
    with scan' show ?thesis by (simp add: process_master_mode_def Let_def)
  next
    case False
    have "is_cached (cfg_cache cfg) w1 ?h"
    proof (cases "is_cached (cfg_cache cfg) w ?h")
      case True
      with first scan False have "w1 = ?w1" by (simp add: process_master_mode_def Let_def)
      with True show ?thesis by simp
    next
      case nc: False
      from first scan False nc obtain t where
        sw: "summarize_and_write e lib cfg ''master'' (ctx_filing_type ctx)
               [(''content'', JStr (join [CHR 0x0A, CHR 0x0A, CHR ''-'', CHR ''-'', CHR ''-'', CHR 0x0A, CHR 0x0A] ss)),
                (''document_title'', t),
                (''effective_filing_type'', JStr (ctx_filing_type ctx)),
                (''current_date'', JStr (today e))]
               ?h
               (Inr (path_join (ctx_out_dir ctx) (ctx_base_name ctx @ ''_master_summary.md''),
                     path_join (ctx_out_dir ctx) (ctx_base_name ctx @ ''_master_meta.json'')))
               [(''source_path'', JStr (ctx_filepath ctx)), (''mode'', JStr ''master''),
                (''doc_type'', JStr (ctx_filing_type ctx))]
               ?w1 = Inr w1"
        by (auto simp: process_master_mode_def Let_def split: sum.splits)
      from ok summarize_and_write_props(2)[OF sw] show ?thesis by (simp add: cache_ok_def)
    qed
    then have "is_cached (cfg_cache cfg) w2 ?h" using le by (rule is_cached_mono)
    with scan' False show ?thesis by (simp add: process_master_mode_def Let_def)
  qed
qed


lemma not_dynamic_estimate:
  assumes nd: "\<not> takes_dynamic_chunking e mode fp"
    and m: "mode = ''file'' \<or> mode = ''news''"
    and rd: "read_json e fp = Parsed data" and news: "is_news_path fp"
  shows "\<forall>kvs est. data = JDict kvs \<longrightarrow>
           estimate_tokens_of (dict_get kvs ''content'' (JStr [])) = Inr est \<longrightarrow>
           est \<le> content_token_limit"
  using assms by (auto simp: takes_dynamic_chunking_def)

lemma same_store_le: "files w3 = files w2 \<Longrightarrow> dirs w3 = dirs w2 \<Longrightarrow> world_le w2 w3"
  by (simp add: world_le_def)

lemma same_store_same: "files w3 = files w2 \<Longrightarrow> same_node_summaries w2 w3"
  by (simp add: same_node_summaries_def)

lemma same_node_sym: "same_node_summaries a b \<Longrightarrow> same_node_summaries b a"
  by (simp add: same_node_summaries_def)

lemma process_file_steps:
  assumes first: "process_file e lib cfg mode fp w = Some (Inr w1)"
    and nd: "\<not> takes_dynamic_chunking e mode fp"
  shows "world_rel mode w w1 \<and> (cache_ok e cfg \<longrightarrow> same_inputs e e' \<longrightarrow> world_le w1 w2
         \<longrightarrow> (mode = ''master'' \<longrightarrow> same_node_summaries w w2)
         \<longrightarrow> (\<exists>w3. process_file e' lib cfg mode fp w2 = Some (Inr w3)
                \<and> llm_calls w3 = llm_calls w2 \<and> files w3 = files w2 \<and> dirs w3 = dirs w2))"
proof (cases "read_json e fp")
  case (Decode_error msg)
  with first have "w1 = w\<lparr>logged := logged w
        @ [Error (''Failed to decode JSON from '' @ fp @ '': '' @ msg)]\<rparr>"
    by (simp add: process_file_def)
  then have "world_rel mode w w1"
    by (simp add: world_rel_def world_le_def same_node_summaries_def)
  moreover have "same_inputs e e' \<Longrightarrow> \<exists>w3. process_file e' lib cfg mode fp w2 = Some (Inr w3)
              \<and> llm_calls w3 = llm_calls w2 \<and> files w3 = files w2 \<and> dirs w3 = dirs w2"
    using Decode_error by (simp add: process_file_def same_inputs_def)
  ultimately show ?thesis by blast
next
  case (Read_error msg)
  with first have "w1 = w\<lparr>logged := logged w
        @ [Error (''Failed to read file '' @ fp @ '': '' @ msg)]\<rparr>"
    by (simp add: process_file_def)
  then have "world_rel mode w w1"
    by (simp add: world_rel_def world_le_def same_node_summaries_def)
  moreover have "same_inputs e e' \<Longrightarrow> \<exists>w3. process_file e' lib cfg mode fp w2 = Some (Inr w3)
              \<and> llm_calls w3 = llm_calls w2 \<and> files w3 = files w2 \<and> dirs w3 = dirs w2"
    using Read_error by (simp add: process_file_def same_inputs_def)
  ultimately show ?thesis by blast
next
  case (Parsed data)
  define news where "news = is_news_path fp"
  define rel_dir where "rel_dir = relpath_dirname lib fp (cfg_input_dir cfg)"
  define d where "d = path_join (path_join (cfg_output_dir cfg) (mode @ ''-level'')) rel_dir"
  define ctx where "ctx = \<lparr>ctx_filepath = fp, ctx_data = data, ctx_is_news = news,
       ctx_filing_type = effective_filing_type lib news (basename fp) data,
       ctx_base_name = splitext_root (basename fp), ctx_base_name_ext = basename fp,
       ctx_out_dir = d, ctx_rel_dir = rel_dir\<rparr>"
  define wd where "wd = w\<lparr>dirs := insert d (dirs w)\<rparr>"
  define wd2 where "wd2 = w2\<lparr>dirs := insert d (dirs w2)\<rparr>"
  define cf where "cf = (mode = ''file'' \<or> (mode = ''news'' \<and> news))"
  define cn where "cn = (mode = ''node'' \<and> \<not> news)"
  define cm where "cm = (mode = ''master'' \<and> \<not> news)"
  define cc where "cc = (mode = ''cross'')"
  define co where "co = (mode \<noteq> ''file'' \<and> mode \<noteq> ''news'' \<and> mode \<noteq> ''node'' \<and> mode \<noteq> ''master'')"
  define warned where "warned x = x\<lparr>logged := logged x
                        @ [Warning (''Mode '' @ mode
                             @ '' not applicable to this item type or not implemented for it: ''
                             @ fp)]\<rparr>" for x :: world
  have mk: "\<not> makedirs_fails e d"
    using first Parsed by (auto simp: process_file_def Let_def d_def rel_dir_def split: if_splits)
  have unfold1: "process_file e lib cfg mode fp w =
      (if cf then Some (process_file_mode e lib cfg ctx wd)
       else if cn then Some (process_node_mode e lib cfg ctx wd)
       else if cm then process_master_mode e lib cfg ctx wd
       else if cc then Some (process_cross_mode e lib cfg ctx wd)
       else if co then Some (Inr (warned wd))
       else Some (Inr wd))"
    using Parsed mk
    unfolding process_file_def Let_def d_def rel_dir_def ctx_def wd_def news_def cf_def cn_def
      cm_def cc_def co_def warned_def
    by simp
  have unfold2: "process_file e' lib cfg mode fp w2 =
      (if cf then Some (process_file_mode e' lib cfg ctx wd2)
       else if cn then Some (process_node_mode e' lib cfg ctx wd2)
       else if cm then process_master_mode e' lib cfg ctx wd2
       else if cc then Some (process_cross_mode e' lib cfg ctx wd2)
       else if co then Some (Inr (warned wd2))
       else Some (Inr wd2))" if si: "same_inputs e e'"
  proof -
    from si Parsed mk have "read_json e' fp = Parsed data" "\<not> makedirs_fails e' d"
      by (simp_all add: same_inputs_def)
    then show ?thesis
      unfolding process_file_def Let_def d_def rel_dir_def ctx_def wd2_def news_def cf_def cn_def
        cm_def cc_def co_def warned_def
      by simp
  qed
  have warned_store: "files (warned x) = files x" "dirs (warned x) = dirs x"
    "llm_calls (warned x) = llm_calls x" for x
    by (simp_all add: warned_def)
  have w_wd: "world_le w wd" "same_node_summaries w wd"
    unfolding wd_def by (rule add_dir_le, rule add_dir_same)
  have wd_le: "world_le wd w1 \<and> (mode = ''master'' \<longrightarrow> same_node_summaries wd w1)
      \<and> (cache_ok e cfg \<longrightarrow> same_inputs e e' \<longrightarrow> world_le w1 wd2
           \<longrightarrow> (mode = ''master'' \<longrightarrow> same_node_summaries wd wd2)
           \<longrightarrow> (\<exists>w3. process_file e' lib cfg mode fp w2 = Some (Inr w3)
              \<and> llm_calls w3 = llm_calls wd2 \<and> files w3 = files wd2 \<and> dirs w3 = dirs wd2))"
  proof -
    consider (is_file) cf | (is_node) "\<not> cf" cn | (is_master) "\<not> cf" "\<not> cn" cm
      | (is_cross) "\<not> cf" "\<not> cn" "\<not> cm" cc | (is_other) "\<not> cf" "\<not> cn" "\<not> cm" "\<not> cc"
      by blast
    then show ?thesis
    proof cases
      case is_file
      have nm: "mode \<noteq> ''master''" using is_file unfolding cf_def by auto
      have m: "mode = ''file'' \<or> mode = ''news''" using is_file unfolding cf_def by auto
      from first is_file have run: "process_file_mode e lib cfg ctx wd = Inr w1"
        by (simp add: unfold1)
      have ndc: "\<forall>kvs est. ctx_data ctx = JDict kvs \<longrightarrow>
             estimate_tokens_of (dict_get kvs ''content'' (JStr [])) = Inr est \<longrightarrow>
             est \<le> content_token_limit" if "ctx_is_news ctx"
      proof -
        from that have "is_news_path fp" by (simp add: ctx_def news_def)
        from not_dynamic_estimate[OF nd m Parsed this] show ?thesis by (simp add: ctx_def)
      qed
      from process_file_mode_cases[OF run ndc] obtain kwargs tts where
        g: "file_mode_gate e lib cfg ctx kwargs tts ''none'' wd = Inr w1"
        and g2: "\<forall>e' w2. today e' = today e \<longrightarrow>
               process_file_mode e' lib cfg ctx w2
                 = file_mode_gate e' lib cfg ctx kwargs tts ''none'' w2"
        by blast
      have a: "world_le wd w1" using g by (rule file_mode_gate_grows)
      have b: "\<exists>w3. process_file e' lib cfg mode fp w2 = Some (Inr w3)
              \<and> llm_calls w3 = llm_calls wd2 \<and> files w3 = files wd2 \<and> dirs w3 = dirs wd2"
        if ok: "cache_ok e cfg" and si: "same_inputs e e'" and le: "world_le w1 wd2"
      proof -
        from si have t: "today e' = today e" by (simp add: same_inputs_def)
        with g2 have "process_file_mode e' lib cfg ctx wd2
                 = file_mode_gate e' lib cfg ctx kwargs tts ''none'' wd2" by blast
        with file_mode_gate_again[OF g ok le, of e'] show ?thesis
          by (simp add: unfold2[OF si] is_file)
      qed
      from a b nm show ?thesis by blast
    next
      case is_node
      have nm: "mode \<noteq> ''master''" using is_node(2) unfolding cn_def by auto
      from first is_node have run: "process_node_mode e lib cfg ctx wd = Inr w1"
        by (simp add: unfold1)
      have a: "world_le wd w1" using run by (rule process_node_mode_grows)
      have b: "\<exists>w3. process_file e' lib cfg mode fp w2 = Some (Inr w3)
              \<and> llm_calls w3 = llm_calls wd2 \<and> files w3 = files wd2 \<and> dirs w3 = dirs wd2"
        if ok: "cache_ok e cfg" and si: "same_inputs e e'" and le: "world_le w1 wd2"
        using process_node_mode_again[OF run ok le, of e'] by (simp add: unfold2[OF si] is_node)
      from a b nm show ?thesis by blast
    next
      case is_master
      from first is_master have run: "process_master_mode e lib cfg ctx wd = Some (Inr w1)"
        by (simp add: unfold1)
      have a: "world_le wd w1 \<and> same_node_summaries wd w1"
        using run by (rule process_master_mode_grows)
      have b: "\<exists>w3. process_file e' lib cfg mode fp w2 = Some (Inr w3)
              \<and> llm_calls w3 = llm_calls wd2 \<and> files w3 = files wd2 \<and> dirs w3 = dirs wd2"
        if ok: "cache_ok e cfg" and si: "same_inputs e e'" and le: "world_le w1 wd2"
          and same: "same_node_summaries wd wd2"
      proof -
        from si have rf: "read_fails e' = read_fails e" by (simp add: same_inputs_def)
        from process_master_mode_again[OF run ok le same rf] show ?thesis
          by (simp add: unfold2[OF si] is_master)
      qed
      have "mode = ''master''" using is_master(3) unfolding cm_def by simp
      with a b show ?thesis by blast
    next
      case is_cross
      have nm: "mode \<noteq> ''master''" using is_cross(4) unfolding cc_def by auto
      from first is_cross have run: "process_cross_mode e lib cfg ctx wd = Inr w1"
        by (simp add: unfold1)
      have a: "world_le wd w1" using run by (rule process_cross_mode_grows)
      have b: "\<exists>w3. process_file e' lib cfg mode fp w2 = Some (Inr w3)
              \<and> llm_calls w3 = llm_calls wd2 \<and> files w3 = files wd2 \<and> dirs w3 = dirs wd2"
        if ok: "cache_ok e cfg" and si: "same_inputs e e'" and le: "world_le w1 wd2"
        using process_cross_mode_again[OF run ok le, of e'] by (simp add: unfold2[OF si] is_cross)
      from a b nm show ?thesis by blast
    next
      case is_other
      from first is_other have "w1 = wd \<or> w1 = warned wd"
        by (cases co) (simp_all add: unfold1)
      then have a: "world_le wd w1 \<and> same_node_summaries wd w1"
        by (auto simp: world_le_def same_node_summaries_def warned_store)
      have b: "\<exists>w3. process_file e' lib cfg mode fp w2 = Some (Inr w3)
              \<and> llm_calls w3 = llm_calls wd2 \<and> files w3 = files wd2 \<and> dirs w3 = dirs wd2"
        if si: "same_inputs e e'"
        using is_other by (cases co) (simp_all add: unfold2[OF si] warned_store)
      from a b show ?thesis by blast
    qed
  qed
  have rel: "world_rel mode w w1"
    using w_wd wd_le unfolding world_rel_def by (meson world_le_trans same_node_trans)
  have again: "\<exists>w3. process_file e' lib cfg mode fp w2 = Some (Inr w3)
              \<and> llm_calls w3 = llm_calls w2 \<and> files w3 = files w2 \<and> dirs w3 = dirs w2"
    if ok: "cache_ok e cfg" and si: "same_inputs e e'" and le: "world_le w1 w2"
      and same: "mode = ''master'' \<longrightarrow> same_node_summaries w w2"
  proof -
    from wd_le have "d \<in> dirs w1" by (auto simp: world_le_def wd_def)
    with le have "d \<in> dirs w2" by (auto simp: world_le_def)
    then have eq: "wd2 = w2" by (simp add: wd2_def insert_absorb)
    have "mode = ''master'' \<longrightarrow> same_node_summaries wd wd2"
      using same w_wd(2) unfolding eq by (meson same_node_sym same_node_trans)
    with wd_le ok si le show ?thesis unfolding eq by blast
  qed
  from rel again show ?thesis by blast
qed

section \<open>Claims about a second run with a warm cache\<close>

lemma process_files_grows:
  "process_files e lib cfg mode fs w = Some (Inr w1)
   \<Longrightarrow> \<forall>f \<in> set fs. \<not> takes_dynamic_chunking e mode f
   \<Longrightarrow> world_rel mode w w1"
proof (induction fs arbitrary: w)
  case Nil
  then show ?case by (simp add: world_rel_def world_le_refl same_node_refl)
next
  case (Cons f rest)
  from Cons.prems(1) obtain wa where
    one: "process_file e lib cfg mode f w = Some (Inr wa)"
    and more: "process_files e lib cfg mode rest wa = Some (Inr w1)"
    by (auto split: option.splits sum.splits)
  from Cons.prems(2) have nd: "\<not> takes_dynamic_chunking e mode f"
    and nds: "\<forall>f \<in> set rest. \<not> takes_dynamic_chunking e mode f" by simp_all
  from process_file_steps[OF one nd] have "world_rel mode w wa" by blast
  moreover from Cons.IH[OF more nds] have "world_rel mode wa w1" .
  ultimately show ?case
    unfolding world_rel_def by (meson world_le_trans same_node_trans)
qed

lemma process_files_again:
  "process_files e lib cfg mode fs w = Some (Inr w1)
   \<Longrightarrow> \<forall>f \<in> set fs. \<not> takes_dynamic_chunking e mode f
   \<Longrightarrow> cache_ok e cfg \<Longrightarrow> same_inputs e e' \<Longrightarrow> world_le w1 w2
   \<Longrightarrow> (mode = ''master'' \<longrightarrow> same_node_summaries w w2)
   \<Longrightarrow> \<exists>w3. process_files e' lib cfg mode fs w2 = Some (Inr w3)
          \<and> llm_calls w3 = llm_calls w2 \<and> files w3 = files w2 \<and> dirs w3 = dirs w2"
proof (induction fs arbitrary: w w2)
  case Nil
  then show ?case by simp
next
  case (Cons f rest)
  from Cons.prems(1) obtain wa where
    one: "process_file e lib cfg mode f w = Some (Inr wa)"
    and more: "process_files e lib cfg mode rest wa = Some (Inr w1)"
    by (auto split: option.splits sum.splits)
  from Cons.prems(2) have nd: "\<not> takes_dynamic_chunking e mode f"
    and nds: "\<forall>f \<in> set rest. \<not> takes_dynamic_chunking e mode f" by simp_all
  note ok = Cons.prems(3) and si = Cons.prems(4) and le = Cons.prems(5) and same = Cons.prems(6)
  from process_files_grows[OF more nds] have r1: "world_rel mode wa w1" .
  from process_file_steps[OF one nd, of e' w2] have r0: "world_rel mode w wa"
    and step: "cache_ok e cfg \<longrightarrow> same_inputs e e' \<longrightarrow> world_le wa w2
         \<longrightarrow> (mode = ''master'' \<longrightarrow> same_node_summaries w w2)
         \<longrightarrow> (\<exists>w3. process_file e' lib cfg mode f w2 = Some (Inr w3)
                \<and> llm_calls w3 = llm_calls w2 \<and> files w3 = files w2 \<and> dirs w3 = dirs w2)"
    by blast+
  from r1 le have "world_le wa w2" unfolding world_rel_def by (meson world_le_trans)
  with step ok si same obtain wb where
    again: "process_file e' lib cfg mode f w2 = Some (Inr wb)"
    and st: "llm_calls wb = llm_calls w2" "files wb = files w2" "dirs wb = dirs w2"
    by blast
  have le': "world_le w1 wb"
    using le same_store_le[OF st(2) st(3)] by (rule world_le_trans)
  have same': "mode = ''master'' \<longrightarrow> same_node_summaries wa wb"
  proof
    assume m: "mode = ''master''"
    with r0 have "same_node_summaries wa w" unfolding world_rel_def by (simp add: same_node_sym)
    moreover from same m have "same_node_summaries w w2" by simp
    moreover have "same_node_summaries w2 wb" using st(2) by (rule same_store_same)
    ultimately show "same_node_summaries wa wb" by (meson same_node_trans)
  qed
  from Cons.IH[OF more nds ok si le' same'] obtain w3 where
    "process_files e' lib cfg mode rest wb = Some (Inr w3)"
    "llm_calls w3 = llm_calls wb" "files w3 = files wb" "dirs w3 = dirs wb" by blast
  with again st show ?case by simp
qed

lemma fresh_key:
  assumes "cache_ok e cfg" "\<not> path_exists w (cache_file_path (cfg_cache cfg) k)"
  shows "\<not> is_cached (cfg_cache cfg) w k"
    and "is_cached (cfg_cache cfg) (mark_cached e (cfg_cache cfg) k m w) k"
proof -
  from assms(2) show "\<not> is_cached (cfg_cache cfg) w k" by (simp add: is_cached_def)
  from assms(1) show "is_cached (cfg_cache cfg) (mark_cached e (cfg_cache cfg) k m w) k"
    by (intro mark_cached_cached) (simp_all add: cache_ok_def)
qed

lemma run_again:
  assumes first: "run_summarization e lib cfg mode fs w = Some (Inr w1)"
    and nd: "\<forall>f \<in> set fs. \<not> takes_dynamic_chunking e mode f"
    and ok: "cache_ok e cfg" and si: "same_inputs e e'"
  shows "\<exists>w2. run_summarization e' lib cfg mode fs w1 = Some (Inr w2)
          \<and> llm_calls w2 = llm_calls w1 \<and> files w2 = files w1 \<and> dirs w2 = dirs w1"
proof (cases "fs = []")
  case True
  then show ?thesis by (simp add: run_summarization_def)
next
  case False
  with first have run: "process_files e lib cfg mode fs w = Some (Inr w1)"
    by (simp add: run_summarization_def)
  from process_files_grows[OF run nd] have "mode = ''master'' \<longrightarrow> same_node_summaries w w1"
    by (simp add: world_rel_def)
  from process_files_again[OF run nd ok si world_le_refl this] False
  show ?thesis by (simp add: run_summarization_def)
qed

subsection \<open>An oversized news article, run twice\<close>

lemma news_path: "is_news_path ''data/news/reg/2025-01/a.json''"
  by code_simp

lemma strip_summary: "strip ''summary'' = ''summary''"
  by code_simp

lemma stub_template:
  "get_prompt_template stub_summarizer ''file'' ''news''
   = (Inr ([''title'', ''text''], ''Summarize {title}: {text}''), [])"
  by code_simp

lemma stub_kwargs:
  "prepare_kwargs mode ft ([''title'', ''text''], ''Summarize {title}: {text}'')
     [(''title'', JStr ''Big''), (''content'', JStr c)]
   = ([(''title'', JStr ''Big''), (''text'', JStr c)], [])"
  by (simp add: prepare_kwargs_def dict_set_def dict_pop_def dict_get_def Let_def)

lemma chunking_retry_loop:
  "retry_loop chunking_env stub_summarizer pt [(''title'', JStr ''Big''), (''text'', JStr c)] 0 w
   = (''summary'', w\<lparr>llm_calls := llm_calls w + 1\<rparr>)"
proof -
  have mr: "max_retries stub_summarizer = 2" by (simp add: stub_summarizer_def)
  have run: "llm_run chunking_env = (\<lambda>n pt kwargs. Inr ''summary'')"
    by (simp add: chunking_env_def stub_env_def)
  show ?thesis
    by (simp add: retry_loop.simps[of _ _ _ _ 0] mr run attempt_def content_to_log_def
          dict_get_def has_len_def strip_summary)
qed

lemma chunking_summarize:
  "summarize chunking_env stub_summarizer ''file'' ''news''
     [(''title'', JStr ''Big''), (''content'', JStr c)] w
   = (Inr ''summary'', w\<lparr>llm_calls := llm_calls w + 1\<rparr>)"
  by (simp add: summarize_def stub_template stub_kwargs chunking_retry_loop)


lemma big_body_est: "estimate_tokens_of (JStr (replicate 665004 (CHR ''a''))) = Inr 190001"
  using big_est by (simp add: estimate_tokens_of_def)

lemma strip_parts: "strip ''first part'' \<noteq> []" "strip ''second part'' \<noteq> []"
  by code_simp+

lemma chunking_chunks:
  "summarize_chunks chunking_env stub_summarizer ''news'' [(''title'', JStr ''Big'')] 0
     [''first part'', ''second part''] [] w
   = (Inr [''summary'', ''summary''], w\<lparr>llm_calls := llm_calls w + 2\<rparr>)"
  by (simp add: strip_parts dict_set_def chunking_summarize)

lemma chunking_text:
  assumes ft: "ctx_filing_type ctx = ''news''"
  shows "news_text_to_summarize chunking_env stub_summarizer ctx [(''title'', JStr ''Big'')]
     (JStr (replicate 665004 (CHR ''a''))) w
   = (Inr (JStr (join chunk_separator [''summary'', ''summary'']),
           ''sequential_summaries_dynamic_char_chunks''),
      w\<lparr>logged := logged w
             @ [Warning (''News article '' @ ctx_filepath ctx
                         @ '' exceeds the content limit. Dynamic chunking...'')],
        llm_calls := llm_calls w + 2\<rparr>)"
proof -
  have ch: "chunker_chunk_text chunking_env = (\<lambda>body size ov. Inr [''first part'', ''second part''])"
    by (simp add: chunking_env_def stub_env_def)
  show ?thesis
    unfolding news_text_to_summarize_def big_body_est
    by (simp add: content_token_limit_def ch Let_def ft chunking_chunks
          del: join.simps summarize_chunks.simps)
qed


lemma joined_not_blank: "strip (join chunk_separator [''summary'', ''summary'']) \<noteq> []"
  by code_simp

lemma chunking_gate:
  assumes news: "ctx_is_news ctx" and data: "ctx_data ctx = big_article"
    and ft: "ctx_filing_type ctx = ''news''"
  shows "\<exists>w'. file_mode_gate chunking_env stub_lib stub_config ctx [(''title'', JStr ''Big'')]
                 (JStr (join chunk_separator [''summary'', ''summary''])) method w = Inr w'
          \<and> llm_calls w' = llm_calls w
               + (if is_cached (cfg_cache stub_config) w
                       (hash_content stub_lib (join chunk_separator [''summary'', ''summary'']
                          @ json_dumps (JDict [(''title'', JStr ''Big'')])))
                  then 0 else 1)
          \<and> is_cached (cfg_cache stub_config) w'
                (hash_content stub_lib (join chunk_separator [''summary'', ''summary'']
                   @ json_dumps (JDict [(''title'', JStr ''Big'')])))"
proof -
  let ?J = "join chunk_separator [''summary'', ''summary'']"
  let ?h = "hash_content stub_lib (?J @ json_dumps (JDict [(''title'', JStr ''Big'')]))"
  show ?thesis
  proof (cases "is_cached (cfg_cache stub_config) w ?h")
    case True
    then show ?thesis
      by (simp add: file_mode_gate_def joined_not_blank Let_def del: join.simps json_dumps.simps)
  next
    case False
    let ?w1 = "w\<lparr>llm_calls := llm_calls w + 1\<rparr>"
    let ?w2 = "mark_cached chunking_env (cfg_cache stub_config) ?h JNull ?w1"
    have sm: "cfg_summarizer stub_config = stub_summarizer" by (simp add: stub_config_def)
    have gm: "generate_metadata chunking_env = (\<lambda>args. Inr (JDict []))"
      by (simp add: chunking_env_def stub_env_def)
    obtain md js where paths: "file_mode_paths stub_lib ctx = Inr (md, js)"
      using news data
      by (simp add: file_mode_paths_def big_article_def dict_get_def Let_def)
    define margs where "margs = [(''source_path'', JStr (ctx_filepath ctx)), (''mode'', JStr ''file''),
                        (''is_news'', JBool (ctx_is_news ctx)),
                        (''news_data'', if ctx_is_news ctx then ctx_data ctx else JNull),
                        (''doc_type'',
                           if ctx_is_news ctx
                           then (case ctx_data ctx of JDict kvs \<Rightarrow> dict_get kvs ''article_type'' JNull
                                 | _ \<Rightarrow> JNull)
                           else JStr (ctx_filing_type ctx)),
                        (''chunking_method'', JStr method)]"
    have sw: "summarize_and_write chunking_env stub_lib stub_config ''file'' ''news''
               [(''title'', JStr ''Big''), (''content'', JStr ?J)] ?h (Inr (md, js)) margs w
             = Inr (write_metadata chunking_env stub_lib (JDict []) js
                      (write_summary chunking_env ''summary'' md ?w2))"
      by (simp add: summarize_and_write_def sm chunking_summarize gm Let_def
            del: join.simps json_dumps.simps)
    have gate: "file_mode_gate chunking_env stub_lib stub_config ctx [(''title'', JStr ''Big'')]
                 (JStr ?J) method w
             = Inr (write_metadata chunking_env stub_lib (JDict []) js
                      (write_summary chunking_env ''summary'' md ?w2))"
      using False sw
      by (simp add: file_mode_gate_def joined_not_blank Let_def ft paths dict_set_def margs_def
            del: join.simps json_dumps.simps)
    have calls: "llm_calls (write_metadata chunking_env stub_lib (JDict []) js
                      (write_summary chunking_env ''summary'' md ?w2)) = llm_calls w + 1"
      using write_metadata_props[of "write_summary chunking_env ''summary'' md ?w2"]
        write_summary_props[of ?w2]
      by (simp add: mark_cached_def)
    have ok: "enabled (cfg_cache stub_config)"
      "\<not> write_fails chunking_env (cache_file_path (cfg_cache stub_config) ?h)"
      by (simp_all add: stub_config_def chunking_env_def stub_env_def)
    from summarize_and_write_props(2)[OF sw ok]
    have "is_cached (cfg_cache stub_config) (write_metadata chunking_env stub_lib (JDict []) js
                      (write_summary chunking_env ''summary'' md ?w2)) ?h" .
    with gate calls False show ?thesis by simp
  qed
qed


lemma chunking_file:
  "\<exists>w'. process_file chunking_env stub_lib stub_config ''file'' ''data/news/reg/2025-01/a.json'' w
           = Some (Inr w')
     \<and> llm_calls w' = llm_calls w
          + (if is_cached (cfg_cache stub_config) (w\<lparr>dirs := insert ''out/file-level/'' (dirs w)\<rparr>)
                  (hash_content stub_lib (join chunk_separator [''summary'', ''summary'']
                     @ json_dumps (JDict [(''title'', JStr ''Big'')])))
             then 2 else 3)
     \<and> is_cached (cfg_cache stub_config) w'
          (hash_content stub_lib (join chunk_separator [''summary'', ''summary'']
             @ json_dumps (JDict [(''title'', JStr ''Big'')])))"
proof -
  let ?P = "''data/news/reg/2025-01/a.json''"
  let ?h = "hash_content stub_lib (join chunk_separator [''summary'', ''summary'']
             @ json_dumps (JDict [(''title'', JStr ''Big'')]))"
  define ctx where "ctx = \<lparr>ctx_filepath = ?P, ctx_data = big_article, ctx_is_news = True,
       ctx_filing_type = ''news'', ctx_base_name = splitext_root (basename ?P),
       ctx_base_name_ext = basename ?P, ctx_out_dir = ''out/file-level/'', ctx_rel_dir = []\<rparr>"
  define wd where "wd = w\<lparr>dirs := insert ''out/file-level/'' (dirs w)\<rparr>"
  define wt where "wt = wd\<lparr>logged := logged wd
             @ [Warning (''News article '' @ ctx_filepath ctx
                         @ '' exceeds the content limit. Dynamic chunking...'')],
        llm_calls := llm_calls wd + 2\<rparr>"
  have rd: "read_json chunking_env = (\<lambda>p. Parsed big_article)"
    "makedirs_fails chunking_env = (\<lambda>p. False)"
    by (simp_all add: chunking_env_def stub_env_def)
  have dir: "path_join (path_join (cfg_output_dir stub_config) (''file'' @ ''-level''))
               (relpath_dirname stub_lib ?P (cfg_input_dir stub_config)) = ''out/file-level/''"
    by code_simp
  have one: "process_file chunking_env stub_lib stub_config ''file'' ?P w
             = Some (process_file_mode chunking_env stub_lib stub_config ctx wd)"
    unfolding process_file_def rd Let_def dir
    by (simp add: news_path effective_filing_type_def ctx_def wd_def stub_lib_def)
  have c: "ctx_is_news ctx" "ctx_data ctx = big_article" "ctx_filing_type ctx = ''news''"
    by (simp_all add: ctx_def)
  have sm: "cfg_summarizer stub_config = stub_summarizer" by (simp add: stub_config_def)
  have two: "process_file_mode chunking_env stub_lib stub_config ctx wd
             = file_mode_gate chunking_env stub_lib stub_config ctx [(''title'', JStr ''Big'')]
                 (JStr (join chunk_separator [''summary'', ''summary'']))
                 ''sequential_summaries_dynamic_char_chunks'' wt"
    using chunking_text[OF c(3), of wd]
    by (simp add: process_file_mode_def c big_article_def sm wt_def dict_get_def
          Let_def del: join.simps)
  from chunking_gate[OF c, of "''sequential_summaries_dynamic_char_chunks''" wt]
  obtain w' where g: "file_mode_gate chunking_env stub_lib stub_config ctx [(''title'', JStr ''Big'')]
                 (JStr (join chunk_separator [''summary'', ''summary'']))
                 ''sequential_summaries_dynamic_char_chunks'' wt = Inr w'"
    and calls: "llm_calls w' = llm_calls wt + (if is_cached (cfg_cache stub_config) wt ?h then 0 else 1)"
    and cached: "is_cached (cfg_cache stub_config) w' ?h"
    by blast
  have "is_cached (cfg_cache stub_config) wt ?h = is_cached (cfg_cache stub_config) wd ?h"
    by (simp add: wt_def is_cached_def path_exists_def)
  moreover have "llm_calls wt = llm_calls w + 2" by (simp add: wt_def wd_def)
  ultimately have "llm_calls w' = llm_calls w
       + (if is_cached (cfg_cache stub_config) wd ?h then 2 else 3)"
    using calls by simp
  with one two g cached show ?thesis unfolding wd_def by simp
qed

lemma stub_first_run:
  "run_summarization stub_env stub_lib stub_config ''file'' [''in/a.json''] empty_world
   = Some (Inr warm_world)"
  by code_simp

lemma stub_cache_ok: "cache_ok stub_env stub_config"
  by (simp add: cache_ok_def stub_env_def stub_config_def)

lemma stub_not_dynamic:
  "\<forall>f \<in> set [''in/a.json'']. \<not> takes_dynamic_chunking stub_env ''file'' f"
  by code_simp

lemma stub_fresh: "\<not> path_exists empty_world (cache_file_path (cfg_cache stub_config) ''k'')"
  by (simp add: path_exists_def empty_world_def)

text \<open>
  C4, as amended.  For a key without a cache file, \<^verbatim>\<open>is_cached\<close> is false, and after
  \<^verbatim>\<open>mark_cached\<close> on an enabled cache whose files can be written it is true.  Consequently,
  when a run over a list of files has come to its end and none of the files takes the path
  of dynamic chunking, a second run over the same files, with the same documents, date and
  failures of the file system, from the world the first run has left behind, ends too,
  makes no further call of the language model and writes no file, in every mode.
\<close>

theorem warm_cache_no_further_calls:
  assumes "cache_ok e cfg" and "same_inputs e e'"
    and "\<forall>f \<in> set fs. \<not> takes_dynamic_chunking e mode f"
    and "run_summarization e lib cfg mode fs w = Some (Inr w1)"
    and "\<not> path_exists w0 (cache_file_path (cfg_cache cfg) k)"
  shows "\<not> is_cached (cfg_cache cfg) w0 k
       \<and> is_cached (cfg_cache cfg) (mark_cached e (cfg_cache cfg) k m w0) k
       \<and> (\<exists>w2. run_summarization e' lib cfg mode fs w1 = Some (Inr w2)
               \<and> llm_calls w2 = llm_calls w1 \<and> files w2 = files w1 \<and> dirs w2 = dirs w1)"
  using fresh_key[OF assms(1) assms(5)] run_again[OF assms(4) assms(3) assms(1) assms(2)]
  by blast

theorem warm_cache_no_further_calls_witness:
  "cache_ok stub_env stub_config \<and> same_inputs stub_env stub_env
   \<and> \<not> takes_dynamic_chunking stub_env ''file'' ''in/a.json''
   \<and> run_summarization stub_env stub_lib stub_config ''file'' [''in/a.json''] empty_world
       = Some (Inr warm_world)
   \<and> \<not> path_exists empty_world (cache_file_path (cfg_cache stub_config) ''k'')
   \<and> \<not> is_cached (cfg_cache stub_config) empty_world ''k''
   \<and> is_cached (cfg_cache stub_config)
        (mark_cached stub_env (cfg_cache stub_config) ''k'' JNull empty_world) ''k''
   \<and> llm_calls warm_world = 1
   \<and> (\<exists>w2. run_summarization stub_env stub_lib stub_config ''file'' [''in/a.json''] warm_world
              = Some (Inr w2)
            \<and> llm_calls w2 = llm_calls warm_world \<and> files w2 = files warm_world
            \<and> dirs w2 = dirs warm_world)"
proof -
  have si: "same_inputs stub_env stub_env" by (simp add: same_inputs_def)
  have one: "llm_calls warm_world = 1" by (simp add: warm_world_def)
  from warm_cache_no_further_calls[OF stub_cache_ok si stub_not_dynamic stub_first_run stub_fresh,
         where m = JNull]
    stub_cache_ok si stub_not_dynamic stub_first_run stub_fresh one
  show ?thesis by simp
qed

text \<open>
  C4 as stated fails on the path of dynamic chunking.  The chunks of an oversized news
  article are summarised before the cache is looked at, the key being the hash of their
  combined summaries: the first run makes 3 calls of the language model (two chunks and
  the combined text), and the second run, from the world the first has left behind and
  with the cache enabled, makes 2 more.
\<close>

theorem dynamic_chunking_repeats_calls:
  "run_twice chunking_env stub_lib stub_config ''file'' [''data/news/reg/2025-01/a.json'']
     empty_world = Some (3, 5)"
proof -
  let ?P = "''data/news/reg/2025-01/a.json''"
  let ?h = "hash_content stub_lib (join chunk_separator [''summary'', ''summary'']
             @ json_dumps (JDict [(''title'', JStr ''Big'')]))"
  have fresh: "\<not> is_cached (cfg_cache stub_config)
                  (empty_world\<lparr>dirs := insert ''out/file-level/'' (dirs empty_world)\<rparr>) ?h"
    by code_simp
  from chunking_file[of empty_world] fresh obtain w1 where
    a: "process_file chunking_env stub_lib stub_config ''file'' ?P empty_world = Some (Inr w1)"
    and a1: "llm_calls w1 = 3" and a2: "is_cached (cfg_cache stub_config) w1 ?h"
    by (auto simp: empty_world_def)
  have "is_cached (cfg_cache stub_config) (w1\<lparr>dirs := insert ''out/file-level/'' (dirs w1)\<rparr>) ?h"
    using a2 add_dir_le by (rule is_cached_mono)
  with chunking_file[of w1] a1 obtain w2 where
    b: "process_file chunking_env stub_lib stub_config ''file'' ?P w1 = Some (Inr w2)"
    and b1: "llm_calls w2 = 5"
    by auto
  from a a1 b b1 show ?thesis
    by (simp add: run_twice_def run_summarization_def)
qed

end
